(* ===== verification/Prelude.thy ===== *)
theory Prelude
  imports Main "HOL-Library.Word" "HOL-Library.AList"
begin

text \<open>
  Shared vocabulary of the development: the machine types of the Rust sources, the outcome of a
  Rust call (a value, an error or a panic), byte and character strings, and the generic facts on
  lists, association lists and words that the component theories rest on.

  A Rust \<open>String\<close> is the HOL \<open>string\<close> of its UTF-8 code units, so \<open>String::len\<close>
  and \<open>str::as_bytes\<close> are \<open>length\<close> and a bytewise copy. \<open>Vec<u8>\<close> and
  \<open>Bytes\<close> are lists of 8-bit words. A \<open>HashMap\<close> is an association list with
  distinct keys; Rust leaves its iteration order open, the model iterates in list order and no
  property depends on that order.
\<close>

unbundle bit_operations_syntax

named_theorems outcome_simps \<open>evaluation of outcomes and their bind\<close>
named_theorems alist_simps \<open>lookup, update and delete on association lists\<close>

type_synonym u8 = "8 word"
type_synonym u16 = "16 word"
type_synonym u32 = "32 word"
type_synonym u64 = "64 word"
type_synonym bytes = "u8 list"
type_synonym uuid = "128 word"
type_synonym ('k, 'v) hash_map = "('k \<times> 'v) list"

section \<open>Outcomes of a call\<close>

text \<open>
  \<open>Anyhow m\<close> is an error the sources build from a literal message; \<open>Lib m\<close> is an error
  handed on by \<open>?\<close> from a library call, named after the call.
\<close>

datatype error = Anyhow string | Lib string

datatype 'a res = Ok 'a | Err error | Panic string

fun res_bind :: "'a res \<Rightarrow> ('a \<Rightarrow> 'b res) \<Rightarrow> 'b res" where
  "res_bind (Ok x) f = f x"
| "res_bind (Err e) f = Err e"
| "res_bind (Panic p) f = Panic p"

fun of_option :: "error \<Rightarrow> 'a option \<Rightarrow> 'a res" where
  "of_option e None = Err e"
| "of_option e (Some x) = Ok x"

fun map_err :: "error \<Rightarrow> 'a res \<Rightarrow> 'a res" where
  "map_err e (Ok x) = Ok x"
| "map_err e (Err e') = Err e"
| "map_err e (Panic p) = Panic p"

text \<open>\<open>Result::is_ok\<close>: an error is the value \<open>false\<close>, a panic still unwinds.\<close>

fun is_ok :: "'a res \<Rightarrow> bool res" where
  "is_ok (Ok x) = Ok True"
| "is_ok (Err e) = Ok False"
| "is_ok (Panic p) = Panic p"

section \<open>Strings and bytes\<close>

definition as_bytes :: "string \<Rightarrow> bytes" where
  "as_bytes s = map of_char s"

definition bytes_string :: "bytes \<Rightarrow> string" where
  "bytes_string bs = map (\<lambda>b. char_of (unat b)) bs"

text \<open>\<open>str::split\<close> on one character: there is always at least one part.\<close>

fun split_on :: "'a \<Rightarrow> 'a list \<Rightarrow> 'a list list" where
  "split_on c [] = [[]]"
| "split_on c (x # xs) =
     (if x = c then [] # split_on c xs
      else (x # hd (split_on c xs)) # tl (split_on c xs))"

fun join_with :: "'a \<Rightarrow> 'a list list \<Rightarrow> 'a list" where
  "join_with c [] = []"
| "join_with c [p] = p"
| "join_with c (p # q # ps) = p @ c # join_with c (q # ps)"

text \<open>\<open>String::from_utf8\<close>: the well-formed sequences of RFC 3629.\<close>

definition is_cont :: "nat \<Rightarrow> bool" where
  "is_cont b \<longleftrightarrow> 128 \<le> b \<and> b < 192"

fun utf8_valid :: "nat list \<Rightarrow> bool" where
  "utf8_valid [] = True"
| "utf8_valid (a # r) =
     (if a < 128 then utf8_valid r
      else if 194 \<le> a \<and> a \<le> 223 then
        (case r of b # r' \<Rightarrow> is_cont b \<and> utf8_valid r' | _ \<Rightarrow> False)
      else if 224 \<le> a \<and> a \<le> 239 then
        (case r of b # c # r' \<Rightarrow>
           is_cont b \<and> is_cont c \<and> (a = 224 \<longrightarrow> 160 \<le> b) \<and> (a = 237 \<longrightarrow> b < 160) \<and> utf8_valid r'
         | _ \<Rightarrow> False)
      else if 240 \<le> a \<and> a \<le> 244 then
        (case r of b # c # d # r' \<Rightarrow>
           is_cont b \<and> is_cont c \<and> is_cont d \<and> (a = 240 \<longrightarrow> 144 \<le> b) \<and> (a = 244 \<longrightarrow> b < 144) \<and>
           utf8_valid r'
         | _ \<Rightarrow> False)
      else False)"

definition from_utf8 :: "bytes \<Rightarrow> string option" where
  "from_utf8 bs = (if utf8_valid (map unat bs) then Some (bytes_string bs) else None)"

section \<open>Fixed-width integers\<close>

text \<open>
  \<open>-\<close> on \<open>u64\<close> panics on underflow when overflow checks are compiled in (the
  default of a debug build) and wraps otherwise (the default of a release build).
\<close>

definition sub_u64 :: "bool \<Rightarrow> u64 \<Rightarrow> u64 \<Rightarrow> u64 res" where
  "sub_u64 checks a b =
     (if checks \<and> a < b then Panic ''attempt to subtract with overflow'' else Ok (a - b))"

definition to_le_bytes :: "u64 \<Rightarrow> bytes" where
  "to_le_bytes w = map (\<lambda>i. ucast (drop_bit (8 * i) w)) [0 ..< 8]"

definition from_le_bytes :: "bytes \<Rightarrow> u64" where
  "from_le_bytes bs = foldr (\<lambda>b acc. ucast b OR push_bit 8 acc) bs 0"

section \<open>Facts on outcomes\<close>

lemma res_bind_eq_Ok [outcome_simps]:
  "res_bind r f = Ok y \<longleftrightarrow> (\<exists>x. r = Ok x \<and> f x = Ok y)"
  by (cases r) auto

lemma res_bind_eq_Panic:
  "res_bind r f = Panic p \<longleftrightarrow> r = Panic p \<or> (\<exists>x. r = Ok x \<and> f x = Panic p)"
  by (cases r) auto

lemma of_option_eq_Panic [simp]: "of_option e v \<noteq> Panic p"
  by (cases v) auto

lemma map_err_eq_Panic: "map_err e r = Panic p \<longleftrightarrow> r = Panic p"
  by (cases r) auto

lemma of_option_eq_Ok [outcome_simps]: "of_option e v = Ok x \<longleftrightarrow> v = Some x"
  by (cases v) auto

lemma map_err_eq_Ok [outcome_simps]: "map_err e r = Ok x \<longleftrightarrow> r = Ok x"
  by (cases r) auto

lemma is_ok_eq_True [outcome_simps]: "is_ok r = Ok True \<longleftrightarrow> (\<exists>x. r = Ok x)"
  by (cases r) auto

lemma is_ok_eq_Panic [outcome_simps]: "is_ok r = Panic p \<longleftrightarrow> r = Panic p"
  by (cases r) auto

section \<open>Facts on strings and bytes\<close>

lemma length_as_bytes [simp]: "length (as_bytes s) = length s"
  by (simp add: as_bytes_def)

lemma unat_of_char: "unat (of_char c :: u8) = of_char c"
proof -
  have "unat (of_char c :: u8) = unat (of_nat (of_char c) :: u8)"
    by (simp only: of_nat_of_char)
  also have "\<dots> = (of_char c :: nat)"
    by (simp only: unat_of_nat) simp
  finally show ?thesis .
qed

lemma char_of_unat_of_char: "char_of (unat (of_char c :: u8)) = c"
  by (simp add: unat_of_char)

lemma bytes_string_as_bytes [simp]: "bytes_string (as_bytes s) = s"
  by (simp add: bytes_string_def as_bytes_def o_def char_of_unat_of_char)

lemma of_char_char_of_unat: "(of_char (char_of (unat b) :: char) :: u8) = b"
proof -
  have "(of_char (char_of (unat b) :: char) :: u8) = of_nat (of_char (char_of (unat b) :: char))"
    by (simp only: of_nat_of_char)
  also have "\<dots> = of_nat (unat b mod 256)"
    by (simp only: of_char_of)
  also have "\<dots> = b"
    using unsigned_less [where 'a = nat, of b] by simp
  finally show ?thesis .
qed

lemma as_bytes_bytes_string [simp]: "as_bytes (bytes_string bs) = bs"
  by (simp add: bytes_string_def as_bytes_def o_def of_char_char_of_unat)

lemma as_bytes_inject [simp]: "as_bytes s = as_bytes t \<longleftrightarrow> s = t"
  by (metis bytes_string_as_bytes)

lemma split_on_not_Nil [simp]: "split_on c xs \<noteq> []"
  by (cases xs) auto

lemma split_on_append_sep:
  "c \<notin> set p \<Longrightarrow> split_on c (p @ c # xs) = p # split_on c xs"
  by (induction p) auto

lemma split_on_append: "split_on c (p @ c # xs) = split_on c p @ split_on c xs"
  by (induction p) (auto simp: hd_append tl_append split: list.splits)

lemma split_on_single: "c \<notin> set p \<Longrightarrow> split_on c p = [p]"
  by (induction p) auto

lemma split_on_join_with:
  "ps \<noteq> [] \<Longrightarrow> \<forall>p \<in> set ps. c \<notin> set p \<Longrightarrow> split_on c (join_with c ps) = ps"
  by (induction c ps rule: join_with.induct) (auto simp: split_on_append_sep split_on_single)

lemma join_with_split_on: "join_with c (split_on c xs) = xs"
proof (induction xs)
  case Nil
  then show ?case by simp
next
  case (Cons x xs)
  then show ?case
    by (cases "split_on c xs"; cases "tl (split_on c xs)") auto
qed

lemma length_split_on: "length (split_on c xs) = Suc (count_list xs c)"
  by (induction xs) auto

lemma split_on_no_sep: "p \<in> set (split_on c xs) \<Longrightarrow> c \<notin> set p"
proof (induction xs arbitrary: p)
  case Nil
  then show ?case by simp
next
  case (Cons x xs)
  then show ?case
    by (cases "split_on c xs") (auto split: if_splits)
qed

section \<open>Facts on words\<close>

lemma length_to_le_bytes [simp]: "length (to_le_bytes w) = 8"
  by (simp add: to_le_bytes_def)

lemma bit_foldr_le_bytes:
  "bit (foldr (\<lambda>b acc. (ucast b :: u64) OR push_bit 8 acc) (bs :: bytes) 0) n \<longleftrightarrow>
     n < 64 \<and> n div 8 < length bs \<and> bit (bs ! (n div 8)) (n mod 8)"
proof (induction bs arbitrary: n)
  case Nil
  then show ?case by simp
next
  case (Cons b bs)
  show ?case
  proof (cases "n < 8")
    case True
    then show ?thesis
      by (simp add: bit_simps bit_or_iff bit_push_bit_iff)
  next
    case False
    then obtain m where m: "n = m + 8" by (metis add.commute le_Suc_ex not_less)
    have nb: "\<not> bit b n"
      using False bit_imp_le_length [of b n] by auto
    have d: "(m + 8) div 8 = Suc (m div 8)" "(m + 8) mod 8 = m mod 8" by simp_all
    show ?thesis
      using nb by (auto simp: m d bit_simps Cons.IH simp del: div_add_self2)
  qed
qed

lemma from_le_bytes_to_le_bytes [simp]: "from_le_bytes (to_le_bytes w) = w"
proof (rule bit_word_eqI)
  fix n assume "n < LENGTH(64)"
  then have "n < 64" "n div 8 < 8" by simp_all
  then show "bit (from_le_bytes (to_le_bytes w)) n \<longleftrightarrow> bit w n"
    by (simp add: from_le_bytes_def bit_foldr_le_bytes to_le_bytes_def bit_simps)
qed

lemma unat_Suc_if_less:
  fixes c :: "'a :: len word"
  assumes "c < d"
  shows "unat (c + 1) = Suc (unat c)"
proof -
  have "Suc (unat c) \<le> unat d" using assms by (simp add: word_less_nat_alt)
  also have "unat d < 2 ^ LENGTH('a)" by (rule unsigned_less)
  finally show ?thesis by (simp add: unat_word_ariths)
qed

section \<open>Facts on association lists\<close>

lemma map_of_alist_update [alist_simps]:
  "map_of (AList.update k v m) k' = (if k' = k then Some v else map_of m k')"
  by (simp add: update_conv)

lemma map_of_alist_delete [alist_simps]:
  "map_of (AList.delete k m) k' = (if k' = k then None else map_of m k')"
  by (simp add: delete_conv)

lemma fst_set_update [alist_simps]:
  "fst ` set (AList.update k v m) = insert k (fst ` set m)"
  by (simp add: AList.dom_update)

lemma fst_set_delete [alist_simps]:
  "fst ` set (AList.delete k m) = fst ` set m - {k}"
  by (auto simp: AList.delete_eq)

lemma length_update_le: "length (AList.update k v m) \<le> Suc (length m)"
  by (induction m) auto

lemma length_update_mem:
  "map_of m k = Some w \<Longrightarrow> length (AList.update k v m) = length m"
  by (induction m) (auto split: if_splits)

lemma length_update_new:
  "map_of m k = None \<Longrightarrow> length (AList.update k v m) = Suc (length m)"
  by (induction m) (auto split: if_splits)

lemma update_new:
  "map_of m k = None \<Longrightarrow> AList.update k v m = m @ [(k, v)]"
  by (induction m) (auto split: if_splits)

lemma map_of_distinct_iff:
  "distinct (map fst m) \<Longrightarrow> map_of m k = Some v \<longleftrightarrow> (k, v) \<in> set m"
  by simp

lemma list_all_update:
  "list_all P m \<Longrightarrow> P (k, v) \<Longrightarrow> list_all P (AList.update k v m)"
  by (induction m) auto

lemma list_all_delete: "list_all P m \<Longrightarrow> list_all P (AList.delete k m)"
  by (auto simp: list_all_iff AList.delete_eq)

section \<open>Event systems\<close>

text \<open>
  A component with interleaved tasks is a function that executes one event (\<open>None\<close>: not
  enabled); a schedule is a list of events. An invariant of the single event holds after every
  schedule.
\<close>

fun run_events :: "('e \<Rightarrow> 's \<Rightarrow> 's option) \<Rightarrow> 'e list \<Rightarrow> 's \<Rightarrow> 's option" where
  "run_events step [] s = Some s"
| "run_events step (e # es) s = Option.bind (step e s) (run_events step es)"

lemma run_events_append:
  "run_events step (es @ fs) s = Option.bind (run_events step es s) (run_events step fs)"
proof (induction es arbitrary: s)
  case (Cons e es)
  then show ?case by (cases "step e s") simp_all
qed simp

locale event_system =
  fixes step :: "'e \<Rightarrow> 's \<Rightarrow> 's option"
    and start :: 's
    and Inv :: "'s \<Rightarrow> bool"
  assumes Inv_start: "Inv start"
    and Inv_step: "Inv s \<Longrightarrow> step e s = Some s' \<Longrightarrow> Inv s'"
begin

lemma Inv_run: "Inv s \<Longrightarrow> run_events step es s = Some s' \<Longrightarrow> Inv s'"
proof (induction es arbitrary: s)
  case Nil
  then show ?case by simp
next
  case (Cons e es)
  then obtain t where "step e s = Some t" "run_events step es t = Some s'"
    by (auto simp: bind_eq_Some_conv)
  with Cons Inv_step show ?case by blast
qed

lemma Inv_run_start: "run_events step es start = Some s \<Longrightarrow> Inv s"
  using Inv_run Inv_start by blast

end

end
