(* ===== verification/Rfc4648.thy ===== *)
theory Rfc4648
  imports Prelude
begin

text \<open>
  The interface the sources expect of the base64 engine \<open>URL_SAFE_NO_PAD\<close> (used by
  \<open>core/src/util/base64.rs\<close> and \<open>server/src/util/base64.rs\<close>), as the locale
  \<open>base64_engine\<close>, and a reference codec written from RFC 4648 (alphabet of section 5, no
  padding, unused trailing bits required to be zero) that satisfies it. Component definitions take
  the engine as an argument; the reference codec discharges the laws and evaluates the witnesses.
\<close>

locale base64_engine =
  fixes enc :: "bytes \<Rightarrow> string"
    and dec :: "string \<Rightarrow> bytes option"
  assumes dec_enc: "dec (enc x) = Some x"
    and enc_dec: "dec s = Some x \<Longrightarrow> enc x = s"
    and enc_no_dot: "CHR ''.'' \<notin> set (enc x)"
begin

lemma enc_inject: "enc x = enc y \<longleftrightarrow> x = y"
  by (metis dec_enc option.inject)

lemma dec_inject: "dec s = Some x \<Longrightarrow> dec t = Some x \<Longrightarrow> s = t"
  using enc_dec by blast

end

definition b64_alphabet :: string where
  "b64_alphabet = ''ABCDEFGHIJKLMNOPQRSTUVWXYZabcdefghijklmnopqrstuvwxyz0123456789-_''"

definition b64_sym :: "nat \<Rightarrow> char" where
  "b64_sym n = b64_alphabet ! n"

definition b64_val :: "char \<Rightarrow> nat option" where
  "b64_val c = map_of (zip b64_alphabet [0 ..< 64]) c"

fun b64_enc_nat :: "nat list \<Rightarrow> nat list" where
  "b64_enc_nat [] = []"
| "b64_enc_nat [a] = [a div 4, a mod 4 * 16]"
| "b64_enc_nat [a, b] = [a div 4, a mod 4 * 16 + b div 16, b mod 16 * 4]"
| "b64_enc_nat (a # b # c # r) =
     a div 4 # (a mod 4 * 16 + b div 16) # (b mod 16 * 4 + c div 64) # c mod 64 # b64_enc_nat r"

fun b64_dec_nat :: "nat list \<Rightarrow> nat list option" where
  "b64_dec_nat [] = Some []"
| "b64_dec_nat [p] = None"
| "b64_dec_nat [p, q] = (if q mod 16 = 0 then Some [p * 4 + q div 16] else None)"
| "b64_dec_nat [p, q, r] =
     (if r mod 4 = 0 then Some [p * 4 + q div 16, q mod 16 * 16 + r div 4] else None)"
| "b64_dec_nat (p # q # r # s # t) =
     map_option (\<lambda>u. (p * 4 + q div 16) # (q mod 16 * 16 + r div 4) # (r mod 4 * 64 + s) # u)
       (b64_dec_nat t)"

definition rfc4648_encode :: "bytes \<Rightarrow> string" where
  "rfc4648_encode bs = map b64_sym (b64_enc_nat (map unat bs))"

definition rfc4648_decode :: "string \<Rightarrow> bytes option" where
  "rfc4648_decode s =
     (case those (map b64_val s) of None \<Rightarrow> None
      | Some ns \<Rightarrow> map_option (map of_nat) (b64_dec_nat ns))"

section \<open>The reference codec is a base64 engine\<close>

lemma length_b64_alphabet [simp]: "length b64_alphabet = 64"
  by (simp add: b64_alphabet_def)

lemma distinct_b64_alphabet: "distinct b64_alphabet"
  by (simp add: b64_alphabet_def)

lemma no_dot_b64_alphabet: "CHR ''.'' \<notin> set b64_alphabet"
  by (simp add: b64_alphabet_def)

lemma b64_val_sym: "n < 64 \<Longrightarrow> b64_val (b64_sym n) = Some n"
  using distinct_b64_alphabet
  by (auto simp: b64_val_def b64_sym_def in_set_zip intro!: exI [of _ n])

lemma b64_val_SomeD: "b64_val c = Some n \<Longrightarrow> n < 64 \<and> b64_sym n = c"
  unfolding b64_val_def b64_sym_def
  by (drule map_of_SomeD) (auto simp: in_set_zip)

lemma b64_enc_nat_bound:
  "\<forall>x \<in> set xs. x < 256 \<Longrightarrow> \<forall>y \<in> set (b64_enc_nat xs). y < 64"
  by (induction xs rule: b64_enc_nat.induct) auto

lemma b64_dec_enc_nat:
  "\<forall>x \<in> set xs. x < 256 \<Longrightarrow> b64_dec_nat (b64_enc_nat xs) = Some xs"
  by (induction xs rule: b64_enc_nat.induct) auto

lemma b64_enc_dec_nat:
  "\<forall>y \<in> set ys. y < 64 \<Longrightarrow> b64_dec_nat ys = Some xs \<Longrightarrow> b64_enc_nat xs = ys"
proof (induction ys arbitrary: xs rule: b64_dec_nat.induct)
  case (5 p q r s t)
  then obtain u where u: "b64_dec_nat t = Some u"
    and xs: "xs = (p * 4 + q div 16) # (q mod 16 * 16 + r div 4) # (r mod 4 * 64 + s) # u"
    by auto
  from "5.IH" "5.prems"(1) u have "b64_enc_nat u = t" by simp
  moreover have "q mod 16 * 16 + r div 4 < 256" "p < 64" "q < 64" "r < 64" "s < 64"
    using "5.prems"(1) by auto
  ultimately show ?case by (auto simp: xs; presburger)
qed (auto split: if_splits)

lemma b64_dec_nat_bound:
  "\<forall>y \<in> set ys. y < 64 \<Longrightarrow> b64_dec_nat ys = Some xs \<Longrightarrow> \<forall>x \<in> set xs. x < 256"
  by (induction ys arbitrary: xs rule: b64_dec_nat.induct) (auto split: if_splits)

lemma those_map_b64_val:
  "\<forall>n \<in> set ns. n < 64 \<Longrightarrow> those (map b64_val (map b64_sym ns)) = Some ns"
  by (induction ns) (auto simp: b64_val_sym)

lemma those_b64_val_SomeD:
  "those (map b64_val s) = Some ns \<Longrightarrow> map b64_sym ns = s \<and> (\<forall>n \<in> set ns. n < 64)"
  by (induction s arbitrary: ns) (auto split: option.splits dest: b64_val_SomeD)

lemma map_of_nat_map_unat: "map (of_nat :: nat \<Rightarrow> u8) (map unat bs) = bs"
  by (simp add: o_def)

lemma map_unat_map_of_nat:
  "\<forall>x \<in> set xs. x < 256 \<Longrightarrow> map (unat :: u8 \<Rightarrow> nat) (map of_nat xs) = xs"
  by (induction xs) (auto simp: unat_of_nat)

lemma unat_u8_bound: "\<forall>x \<in> set (map (unat :: u8 \<Rightarrow> nat) bs). x < 256"
  using unsigned_less [where 'b = 8 and 'a = nat] by auto

interpretation rfc4648: base64_engine rfc4648_encode rfc4648_decode
proof unfold_locales
  fix x
  show "rfc4648_decode (rfc4648_encode x) = Some x"
    using those_map_b64_val [OF b64_enc_nat_bound [OF unat_u8_bound]]
    by (simp add: rfc4648_decode_def rfc4648_encode_def b64_dec_enc_nat [OF unat_u8_bound]
        map_of_nat_map_unat del: map_map)
next
  fix s x assume dec: "rfc4648_decode s = Some x"
  then obtain ns xs where ns: "those (map b64_val s) = Some ns"
    and xs: "b64_dec_nat ns = Some xs" and x: "x = map of_nat xs"
    by (auto simp: rfc4648_decode_def split: option.splits)
  from those_b64_val_SomeD [OF ns] have "map b64_sym ns = s" "\<forall>n \<in> set ns. n < 64" by auto
  moreover from b64_dec_nat_bound [OF this(2) xs] have "map (unat :: u8 \<Rightarrow> nat) x = xs"
    by (simp add: x map_unat_map_of_nat del: map_map)
  ultimately show "rfc4648_encode x = s"
    by (simp add: rfc4648_encode_def b64_enc_dec_nat [OF _ xs])
next
  fix x
  have "set (rfc4648_encode x) \<subseteq> set b64_alphabet"
    using b64_enc_nat_bound [OF unat_u8_bound]
    by (fastforce simp: rfc4648_encode_def b64_sym_def)
  then show "CHR ''.'' \<notin> set (rfc4648_encode x)"
    using no_dot_b64_alphabet by blast
qed

end
