(* ===== verification/Crypto.thy ===== *)
theory Crypto
  imports Prelude Rfc4648
begin

text \<open>
  The crate's \<open>crypto\<close> module: nonces (\<open>crypto/nonce.rs\<close>), hashing
  (\<open>crypto/hash.rs\<close>), identity tokens (\<open>crypto/token.rs\<close>), certificates
  (\<open>crypto/cert.rs\<close>), and the two helpers of \<open>util\<close> they call. The cryptographic
  crates (ed25519-dalek, rsa, sha2, x509-parser, pem, base64) are the fields of the records
  \<open>crypto_lib\<close> and \<open>x509_lib\<close>, arguments of every definition that calls them.

  Section 3 shows that a generated token is accepted for its own nonce and no other, when exactly
  a timestamp token is accepted, what an accepted token proves about the signature, and on which
  tokens the verifier panics. Section 4 shows what an accepted certificate has passed.
\<close>

section \<open>Library parameters\<close>

text \<open>
  \<open>'sk\<close>, \<open>'vk\<close>: ed25519-dalek's signing and verifying key; \<open>'rk\<close>: the RSA-PSS
  verifying key. A parsed signature is kept as its bytes.
\<close>

record ('sk, 'vk, 'rk) crypto_lib =
  base64_encode :: "bytes \<Rightarrow> string"
  base64_decode :: "string \<Rightarrow> bytes option"
  sha256_digest :: "bytes \<Rightarrow> bytes"
  ed_generate :: "bytes \<Rightarrow> 'sk"
  ed_verifying_key :: "'sk \<Rightarrow> 'vk"
  ed_sign :: "'sk \<Rightarrow> bytes \<Rightarrow> bytes"
  ed_signature_from_slice :: "bytes \<Rightarrow> bytes option"
  ed_verify :: "'vk \<Rightarrow> bytes \<Rightarrow> bytes \<Rightarrow> bool"
  ed_public_key_der :: "'vk \<Rightarrow> bytes option"
  ed_to_pkcs8_pem :: "'sk \<Rightarrow> string option"
  ed_from_pkcs8_pem :: "string \<Rightarrow> 'sk option"
  ed_to_public_key_pem :: "'vk \<Rightarrow> string option"
  ed_from_public_key_pem :: "string \<Rightarrow> 'vk option"
  rsa_signature_try_from :: "bytes \<Rightarrow> bytes option"
  rsa_verify :: "'rk \<Rightarrow> bytes \<Rightarrow> bytes \<Rightarrow> bool"
  rsa_public_key_der :: "'rk \<Rightarrow> bytes option"
  rsa_from_public_key_pem :: "string \<Rightarrow> 'rk option"

record ('cert, 'spki, 'pk) x509_lib =
  pem_read :: "string \<Rightarrow> bytes option"
  pem_encode :: "string \<Rightarrow> bytes \<Rightarrow> string"
  x509_from_der :: "bytes \<Rightarrow> 'cert option"
  validity_is_valid :: "'cert \<Rightarrow> bool"
  subject_pki :: "'cert \<Rightarrow> 'spki"
  spki_raw :: "'spki \<Rightarrow> bytes"
  spki_from_der :: "bytes \<Rightarrow> 'spki option"
  spki_parsed :: "'spki \<Rightarrow> 'pk option"
  cert_verify_signature :: "'cert \<Rightarrow> bool"

text \<open>What the sources rely on: ed25519 verifies what it signed, and parses its own signatures.\<close>

definition ed25519_correct :: "('sk, 'vk, 'rk) crypto_lib \<Rightarrow> bool" where
  "ed25519_correct L \<longleftrightarrow>
     (\<forall>sk m. ed_signature_from_slice L (ed_sign L sk m) = Some (ed_sign L sk m) \<and>
             ed_verify L (ed_verifying_key L sk) m (ed_sign L sk m))"

section \<open>Definitions\<close>

subsection \<open>util/base64.rs, crypto/hash.rs and crypto/nonce.rs\<close>

definition encode :: "('sk, 'vk, 'rk) crypto_lib \<Rightarrow> bytes \<Rightarrow> string" where
  "encode L data = base64_encode L data"

definition decode :: "('sk, 'vk, 'rk) crypto_lib \<Rightarrow> string \<Rightarrow> bytes res" where
  "decode L data = of_option (Lib ''base64'') (base64_decode L data)"

definition sha256 :: "('sk, 'vk, 'rk) crypto_lib \<Rightarrow> bytes \<Rightarrow> bytes" where
  "sha256 L data = sha256_digest L data"

text \<open>The random generator is the function that fills a buffer of a given length.\<close>

definition generate_nonce :: "(nat \<Rightarrow> bytes) \<Rightarrow> bytes" where
  "generate_nonce fill_bytes = fill_bytes 32"

definition validate_nonce :: "bytes \<Rightarrow> bool" where
  "validate_nonce nonce \<longleftrightarrow> length nonce \<ge> 16 \<and> length nonce \<le> 128"

subsection \<open>Keys of crypto/token.rs\<close>

text \<open>The two implementors of the trait \<open>VerifyingTokenKey\<close>.\<close>

datatype ('vk, 'rk) verifying_token_key =
    Ed25519VerifyingKey 'vk
  | RsaPssVerifyingKey 'rk

definition to_verifying_key ::
  "('sk, 'vk, 'rk) crypto_lib \<Rightarrow> 'sk \<Rightarrow> ('vk, 'rk) verifying_token_key" where
  "to_verifying_key L key = Ed25519VerifyingKey (ed_verifying_key L key)"

fun verify_key ::
  "('sk, 'vk, 'rk) crypto_lib \<Rightarrow> ('vk, 'rk) verifying_token_key \<Rightarrow> bytes \<Rightarrow> bytes \<Rightarrow> unit res" where
  "verify_key L (Ed25519VerifyingKey k) msg signature =
     res_bind (of_option (Lib ''Signature::from_slice'') (ed_signature_from_slice L signature))
       (\<lambda>sig. if ed_verify L k msg sig then Ok () else Err (Lib ''verify''))"
| "verify_key L (RsaPssVerifyingKey k) msg signature =
     res_bind (of_option (Lib ''Signature::try_from'') (rsa_signature_try_from L signature))
       (\<lambda>sig. if rsa_verify L k msg sig then Ok () else Err (Lib ''verify''))"

fun key_to_der ::
  "('sk, 'vk, 'rk) crypto_lib \<Rightarrow> ('vk, 'rk) verifying_token_key \<Rightarrow> bytes res" where
  "key_to_der L (Ed25519VerifyingKey k) = of_option (Lib ''to_public_key_der'') (ed_public_key_der L k)"
| "key_to_der L (RsaPssVerifyingKey k) = of_option (Lib ''to_public_key_der'') (rsa_public_key_der L k)"

fun signature_method :: "('vk, 'rk) verifying_token_key \<Rightarrow> string" where
  "signature_method (Ed25519VerifyingKey k) = ''ed25519''"
| "signature_method (RsaPssVerifyingKey k) = ''rsa-pss''"

definition generate_key :: "('sk, 'vk, 'rk) crypto_lib \<Rightarrow> bytes \<Rightarrow> 'sk" where
  "generate_key L os_rng = ed_generate L os_rng"

definition export_private_key :: "('sk, 'vk, 'rk) crypto_lib \<Rightarrow> 'sk \<Rightarrow> string res" where
  "export_private_key L key = of_option (Lib ''to_pkcs8_pem'') (ed_to_pkcs8_pem L key)"

definition parse_private_key :: "('sk, 'vk, 'rk) crypto_lib \<Rightarrow> string \<Rightarrow> 'sk res" where
  "parse_private_key L private_key =
     of_option (Lib ''from_pkcs8_pem'') (ed_from_pkcs8_pem L private_key)"

definition export_public_key :: "('sk, 'vk, 'rk) crypto_lib \<Rightarrow> 'sk \<Rightarrow> string res" where
  "export_public_key L key =
     of_option (Lib ''to_public_key_pem'') (ed_to_public_key_pem L (ed_verifying_key L key))"

definition parse_public_key ::
  "('sk, 'vk, 'rk) crypto_lib \<Rightarrow> string \<Rightarrow> string \<Rightarrow> ('vk, 'rk) verifying_token_key res" where
  "parse_public_key L public_key identifier =
     (if identifier = ''ed25519'' then
        res_bind (of_option (Lib ''from_public_key_pem'') (ed_from_public_key_pem L public_key))
          (\<lambda>k. Ok (Ed25519VerifyingKey k))
      else if identifier = ''rsa-pss'' then
        res_bind (of_option (Lib ''from_public_key_pem'') (rsa_from_public_key_pem L public_key))
          (\<lambda>k. Ok (RsaPssVerifyingKey k))
      else Err (Anyhow ''Unsupported key type''))"

subsection \<open>Tokens of crypto/token.rs\<close>

definition generate_token_nonce ::
  "('sk, 'vk, 'rk) crypto_lib \<Rightarrow> 'sk \<Rightarrow> bytes \<Rightarrow> string res" where
  "generate_token_nonce L key salt =
     res_bind (of_option (Lib ''to_public_key_der'') (ed_public_key_der L (ed_verifying_key L key)))
       (\<lambda>public_key.
          let digest = sha256 L (public_key @ salt);
              signature = ed_sign L key digest
          in Ok (join_with CHR ''.''
                   [''sha256'', encode L digest, encode L salt, ''ed25519'', encode L signature]))"

text \<open>The system clock is the argument \<open>now\<close>: \<open>None\<close> when it is before the epoch.\<close>

definition unix_timestamp_u64 :: "u64 option \<Rightarrow> u64 res" where
  "unix_timestamp_u64 now = of_option (Lib ''duration_since'') now"

definition generate_token_timestamp ::
  "('sk, 'vk, 'rk) crypto_lib \<Rightarrow> u64 option \<Rightarrow> 'sk \<Rightarrow> string res" where
  "generate_token_timestamp L now key =
     res_bind (unix_timestamp_u64 now) (\<lambda>t. generate_token_nonce L key (to_le_bytes t))"

definition extract_signature_identifier :: "string \<Rightarrow> string option" where
  "extract_signature_identifier token =
     (let parts = split_on CHR ''.'' token in
      if 3 < length parts then Some (parts ! 3) else None)"

text \<open>
  \<open>parts[0..5]\<close> is a range index and panics on fewer than five parts; the
  \<open>let ... else\<close> after it only sees slices of length five.
\<close>

definition verify_token_with_result ::
  "('sk, 'vk, 'rk) crypto_lib \<Rightarrow> ('vk, 'rk) verifying_token_key \<Rightarrow> string \<Rightarrow>
     (bytes \<Rightarrow> unit res) \<Rightarrow> unit res" where
  "verify_token_with_result L public_key token verify_salt =
     (let parts = split_on CHR ''.'' token in
      if length parts < 5 then Panic ''range end index 5 out of range''
      else case take 5 parts of
        [hash_method, hash_base64, salt_base64, sign_method, signature_base64] \<Rightarrow>
          if hash_method \<noteq> ''sha256'' then Err (Anyhow ''Invalid hash method'')
          else if sign_method \<noteq> signature_method public_key then Err (Anyhow ''Invalid sign method'')
          else res_bind (decode L salt_base64) (\<lambda>salt.
               res_bind (verify_salt salt) (\<lambda>_.
               res_bind (key_to_der L public_key) (\<lambda>public_key_der.
               let digest = sha256 L (public_key_der @ salt) in
               if encode L digest \<noteq> hash_base64 then Err (Anyhow ''Hash mismatch'')
               else case base64_decode L signature_base64 of
                   None \<Rightarrow> Err (Anyhow ''Invalid signature base64 encoding'')
                 | Some signature \<Rightarrow>
                     map_err (Anyhow ''Invalid signature'')
                       (verify_key L public_key digest signature))))
      | _ \<Rightarrow> Err (Anyhow ''Invalid structure''))"

definition check_timestamp_salt :: "bool \<Rightarrow> u64 option \<Rightarrow> bytes \<Rightarrow> unit res" where
  "check_timestamp_salt checks now salt =
     (if length salt \<noteq> 8 then Err (Anyhow ''Invalid salt length'')
      else res_bind (unix_timestamp_u64 now) (\<lambda>now_seconds.
           res_bind (sub_u64 checks now_seconds (from_le_bytes salt)) (\<lambda>age.
           if age > 60 * 60 then Err (Anyhow ''Fingerprint timestamp expired'') else Ok ())))"

definition verify_token_timestamp ::
  "('sk, 'vk, 'rk) crypto_lib \<Rightarrow> bool \<Rightarrow> u64 option \<Rightarrow> ('vk, 'rk) verifying_token_key \<Rightarrow>
     string \<Rightarrow> bool res" where
  "verify_token_timestamp L checks now public_key token =
     is_ok (verify_token_with_result L public_key token (check_timestamp_salt checks now))"

definition verify_token_nonce ::
  "('sk, 'vk, 'rk) crypto_lib \<Rightarrow> ('vk, 'rk) verifying_token_key \<Rightarrow> string \<Rightarrow> bytes \<Rightarrow> bool res" where
  "verify_token_nonce L public_key token nonce =
     is_ok (verify_token_with_result L public_key token
       (\<lambda>salt. if salt \<noteq> nonce then Err (Anyhow ''Invalid nonce'') else Ok ()))"

subsection \<open>Certificates of crypto/cert.rs\<close>

definition verify_cert_from_cert ::
  "('cert, 'spki, 'pk) x509_lib \<Rightarrow> 'cert \<Rightarrow> string option \<Rightarrow> unit res" where
  "verify_cert_from_cert X cert public_key =
     (if \<not> validity_is_valid X cert then Err (Anyhow ''Time validity error'')
      else res_bind
        (case public_key of
           None \<Rightarrow> Ok ()
         | Some pem \<Rightarrow>
             res_bind (of_option (Lib ''subject_pki'') (spki_parsed X (subject_pki X cert))) (\<lambda>cert_public_key.
             res_bind (of_option (Lib ''Pem::read'') (pem_read X pem)) (\<lambda>contents.
             res_bind (of_option (Lib ''SubjectPublicKeyInfo'') (spki_from_der X contents)) (\<lambda>spki.
             res_bind (of_option (Lib ''parsed'') (spki_parsed X spki)) (\<lambda>expected_public_key.
             if cert_public_key \<noteq> expected_public_key then Err (Anyhow ''Public key mismatch'')
             else Ok ())))))
        (\<lambda>_. if cert_verify_signature X cert then Ok ()
             else Err (Lib ''signature verification error'')))"

definition verify_cert_from_pem ::
  "('cert, 'spki, 'pk) x509_lib \<Rightarrow> string \<Rightarrow> string option \<Rightarrow> unit res" where
  "verify_cert_from_pem X cert public_key =
     res_bind (of_option (Lib ''Pem::read'') (pem_read X cert)) (\<lambda>cert_pem.
     res_bind (of_option (Lib ''parse_x509'') (x509_from_der X cert_pem)) (\<lambda>parsed_cert.
     verify_cert_from_cert X parsed_cert public_key))"

definition verify_cert_from_der ::
  "('cert, 'spki, 'pk) x509_lib \<Rightarrow> bytes \<Rightarrow> string option \<Rightarrow> unit res" where
  "verify_cert_from_der X cert public_key =
     res_bind (of_option (Lib ''from_der'') (x509_from_der X cert))
       (\<lambda>parsed_cert. verify_cert_from_cert X parsed_cert public_key)"

definition public_key_from_cert :: "('cert, 'spki, 'pk) x509_lib \<Rightarrow> 'cert \<Rightarrow> string res" where
  "public_key_from_cert X cert = Ok (pem_encode X ''PUBLIC KEY'' (spki_raw X (subject_pki X cert)))"

definition public_key_from_cert_pem :: "('cert, 'spki, 'pk) x509_lib \<Rightarrow> string \<Rightarrow> string res" where
  "public_key_from_cert_pem X cert =
     res_bind (of_option (Lib ''Pem::read'') (pem_read X cert)) (\<lambda>cert_pem.
     res_bind (of_option (Lib ''parse_x509'') (x509_from_der X cert_pem)) (public_key_from_cert X))"

definition public_key_from_cert_der :: "('cert, 'spki, 'pk) x509_lib \<Rightarrow> bytes \<Rightarrow> string res" where
  "public_key_from_cert_der X cert =
     res_bind (of_option (Lib ''from_der'') (x509_from_der X cert)) (public_key_from_cert X)"

subsection \<open>A concrete library\<close>

text \<open>
  The witnesses evaluate the definitions with this library: the RFC 4648 codec, keys that are byte
  strings, and a transparent digest and signature that satisfy the hypotheses.
\<close>

definition demo_crypto :: "(bytes, bytes, bytes) crypto_lib" where
  "demo_crypto =
     \<lparr> base64_encode = rfc4648_encode, base64_decode = rfc4648_decode,
       sha256_digest = (\<lambda>d. d),
       ed_generate = (\<lambda>r. r), ed_verifying_key = (\<lambda>k. k), ed_sign = (\<lambda>k m. k @ m),
       ed_signature_from_slice = Some, ed_verify = (\<lambda>k m s. s = k @ m),
       ed_public_key_der = Some,
       ed_to_pkcs8_pem = (\<lambda>k. Some (bytes_string k)), ed_from_pkcs8_pem = (\<lambda>s. Some (as_bytes s)),
       ed_to_public_key_pem = (\<lambda>k. Some (bytes_string k)),
       ed_from_public_key_pem = (\<lambda>s. Some (as_bytes s)),
       rsa_signature_try_from = (\<lambda>_. None), rsa_verify = (\<lambda>_ _ _. False),
       rsa_public_key_der = (\<lambda>_. None), rsa_from_public_key_pem = (\<lambda>_. None) \<rparr>"

definition demo_x509 :: "(bytes, bytes, bytes) x509_lib" where
  "demo_x509 =
     \<lparr> pem_read = (\<lambda>s. Some (as_bytes s)), pem_encode = (\<lambda>_ b. bytes_string b),
       x509_from_der = (\<lambda>d. if d = [] then None else Some d),
       validity_is_valid = (\<lambda>c. c \<noteq> [0]), subject_pki = (\<lambda>c. c), spki_raw = (\<lambda>k. k),
       spki_from_der = Some, spki_parsed = Some, cert_verify_signature = (\<lambda>_. True) \<rparr>"

section \<open>Tokens\<close>

lemma take5_eq_iff:
  "take 5 xs = [a, b, c, d, e] \<longleftrightarrow> (\<exists>r. xs = a # b # c # d # e # r)"
proof
  assume t: "take 5 xs = [a, b, c, d, e]"
  have "xs = take 5 xs @ drop 5 xs" by simp
  then show "\<exists>r. xs = a # b # c # d # e # r" unfolding t by auto
qed auto

lemma take5_cases:
  assumes "5 \<le> length xs"
  obtains a b c d e r where "xs = a # b # c # d # e # r"
  using assms by (auto simp: Suc_le_length_iff numeral_eq_Suc)

text \<open>The whole acceptance condition of the verifier, from which the token facts follow.\<close>

lemma verify_token_Ok_iff:
  "verify_token_with_result L pk token verify_salt = Ok () \<longleftrightarrow>
     (\<exists>salt_base64 signature_base64 rest salt der signature.
        split_on CHR ''.'' token =
          ''sha256'' # encode L (sha256 L (der @ salt)) # salt_base64 # signature_method pk
            # signature_base64 # rest \<and>
        base64_decode L salt_base64 = Some salt \<and> verify_salt salt = Ok () \<and>
        key_to_der L pk = Ok der \<and> base64_decode L signature_base64 = Some signature \<and>
        verify_key L pk (sha256 L (der @ salt)) signature = Ok ())"
  (is "?lhs \<longleftrightarrow> ?rhs")
proof
  assume ok: ?lhs
  then have "5 \<le> length (split_on CHR ''.'' token)"
    by (auto simp: verify_token_with_result_def Let_def split: if_splits)
  then obtain a b c d e r where p: "split_on CHR ''.'' token = a # b # c # d # e # r"
    by (rule take5_cases)
  with ok show ?rhs
    by (auto simp: verify_token_with_result_def Let_def outcome_simps decode_def
        split: if_splits option.splits)
next
  assume ?rhs
  then show ?lhs
    by (auto simp: verify_token_with_result_def Let_def decode_def)
qed

lemma verify_token_Panic_short:
  "count_list token CHR ''.'' < 4 \<Longrightarrow>
   verify_token_with_result L pk token verify_salt = Panic ''range end index 5 out of range''"
  by (simp add: verify_token_with_result_def Let_def length_split_on)

lemma split_generated_token:
  assumes "base64_engine (base64_encode L) (base64_decode L)"
  shows "split_on CHR ''.''
           (join_with CHR ''.'' [''sha256'', encode L h, encode L s, ''ed25519'', encode L g]) =
         [''sha256'', encode L h, encode L s, ''ed25519'', encode L g]"
  using base64_engine.enc_no_dot [OF assms]
  by (intro split_on_join_with) (auto simp: encode_def)

lemma generate_token_nonce_eq_Ok:
  "generate_token_nonce L key salt = Ok token \<longleftrightarrow>
     (\<exists>der. ed_public_key_der L (ed_verifying_key L key) = Some der \<and>
        token = join_with CHR ''.''
          [''sha256'', encode L (sha256 L (der @ salt)), encode L salt, ''ed25519'',
           encode L (ed_sign L key (sha256 L (der @ salt)))])"
  by (auto simp: generate_token_nonce_def outcome_simps Let_def)

text \<open>On a generated token the verifier returns exactly what its salt check returns.\<close>

lemma verify_generated_token_result:
  assumes b64: "base64_engine (base64_encode L) (base64_decode L)"
    and ed: "ed25519_correct L"
    and gen: "generate_token_nonce L key salt = Ok token"
  shows "verify_token_with_result L (to_verifying_key L key) token verify_salt = verify_salt salt"
proof -
  from gen obtain der where der: "ed_public_key_der L (ed_verifying_key L key) = Some der"
    and token: "token = join_with CHR ''.''
      [''sha256'', encode L (sha256 L (der @ salt)), encode L salt, ''ed25519'',
       encode L (ed_sign L key (sha256 L (der @ salt)))]"
    by (auto simp: generate_token_nonce_eq_Ok)
  note dec = base64_engine.dec_enc [OF b64]
  have "verify_key L (to_verifying_key L key) digest (ed_sign L key digest) = Ok ()" for digest
    using ed by (simp add: to_verifying_key_def ed25519_correct_def)
  then show ?thesis
    unfolding token verify_token_with_result_def split_generated_token [OF b64]
    by (cases "verify_salt salt")
      (simp_all add: to_verifying_key_def der dec encode_def decode_def)
qed

lemma verify_generated_token:
  assumes "base64_engine (base64_encode L) (base64_decode L)"
    and "ed25519_correct L"
    and "generate_token_nonce L key salt = Ok token"
  shows "verify_token_with_result L (to_verifying_key L key) token verify_salt = Ok () \<longleftrightarrow>
         verify_salt salt = Ok ()"
  by (simp add: verify_generated_token_result [OF assms])

lemma verify_token_nonce_eq_True:
  "verify_token_nonce L pk token nonce = Ok True \<longleftrightarrow>
     verify_token_with_result L pk token
       (\<lambda>salt. if salt \<noteq> nonce then Err (Anyhow ''Invalid nonce'') else Ok ()) = Ok ()"
  by (simp add: verify_token_nonce_def outcome_simps)

lemma age_window:
  fixes now ts :: u64
  assumes "3600 \<le> unat now"
  shows "now - ts \<le> 60 * 60 \<longleftrightarrow> unat ts \<le> unat now \<and> unat now - unat ts \<le> 3600"
proof (cases "ts \<le> now")
  case True
  then show ?thesis by (simp add: word_le_nat_alt unat_sub)
next
  case False
  have "unat ts < 2 ^ 64" "unat now < 2 ^ 64"
    using unsigned_less [of ts] unsigned_less [of now] by simp_all
  moreover have "unat now < unat ts" using False by (simp add: word_less_nat_alt not_le)
  ultimately have "unat (now - ts) = 2 ^ 64 + unat now - unat ts"
    by (simp add: unat_sub_if')
  with assms \<open>unat ts < 2 ^ 64\<close> False show ?thesis
    by (simp add: word_le_nat_alt)
qed

text \<open>
  C1: a token generated for a nonce is accepted for that nonce and for no other one.
\<close>

theorem token_accepted_for_own_nonce_only:
  assumes "base64_engine (base64_encode L) (base64_decode L)"
    and "ed25519_correct L"
    and "generate_token_nonce L key nonce = Ok token"
  shows "verify_token_nonce L (to_verifying_key L key) token nonce' = Ok True \<longleftrightarrow> nonce' = nonce"
  unfolding verify_token_nonce_eq_True verify_generated_token [OF assms] by auto

lemma demo_base64: "base64_engine (base64_encode demo_crypto) (base64_decode demo_crypto)"
  using rfc4648.base64_engine_axioms by (simp add: demo_crypto_def)

lemma demo_ed25519: "ed25519_correct demo_crypto"
  by (simp add: demo_crypto_def ed25519_correct_def)

lemma demo_generate:
  "generate_token_nonce demo_crypto key salt =
     Ok (join_with CHR ''.'' [''sha256'', rfc4648_encode (key @ salt), rfc4648_encode salt,
           ''ed25519'', rfc4648_encode (key @ key @ salt)])"
  by (simp add: demo_crypto_def generate_token_nonce_def encode_def sha256_def Let_def)

theorem token_accepted_for_own_nonce_only_witness:
  "\<exists>token. generate_token_nonce demo_crypto [1, 2] (replicate 32 7) = Ok token \<and>
     verify_token_nonce demo_crypto (to_verifying_key demo_crypto [1, 2]) token (replicate 32 7) = Ok True \<and>
     verify_token_nonce demo_crypto (to_verifying_key demo_crypto [1, 2]) token (replicate 32 8) \<noteq> Ok True"
  using token_accepted_for_own_nonce_only [OF demo_base64 demo_ed25519 demo_generate [of "[1, 2]" "replicate 32 7"]]
  by (simp add: demo_generate)

text \<open>
  C2: a token is accepted exactly when its fields are those of a token for this key and this nonce:
  the name of the hash, the base64 digest of the key's DER form followed by the nonce, a base64 salt
  that decodes to the nonce, the key's signature method, and the base64 of a signature of that
  digest that verifies under the key. An accepted token is accepted for no other nonce, under any
  key, and only under keys of the same method that hash to the same digest.
\<close>

theorem accepted_token_binds_key_and_nonce:
  assumes b64: "base64_engine (base64_encode L) (base64_decode L)"
  shows "(verify_token_nonce L pk token nonce = Ok True \<longleftrightarrow>
           (\<exists>der salt_base64 signature_base64 rest signature.
              split_on CHR ''.'' token =
                ''sha256'' # encode L (sha256 L (der @ nonce)) # salt_base64 # signature_method pk
                  # signature_base64 # rest \<and>
              key_to_der L pk = Ok der \<and> base64_decode L salt_base64 = Some nonce \<and>
              base64_decode L signature_base64 = Some signature \<and>
              verify_key L pk (sha256 L (der @ nonce)) signature = Ok ())) \<and>
         (\<forall>pk' nonce'. verify_token_nonce L pk token nonce = Ok True \<longrightarrow>
            verify_token_nonce L pk' token nonce' = Ok True \<longrightarrow>
            nonce' = nonce \<and> signature_method pk' = signature_method pk \<and>
            (\<exists>der der'. key_to_der L pk = Ok der \<and> key_to_der L pk' = Ok der' \<and>
               sha256 L (der' @ nonce) = sha256 L (der @ nonce)))"
proof -
  note ok = verify_token_nonce_eq_True verify_token_Ok_iff
  have fields: "verify_token_nonce L pk token nonce = Ok True \<longleftrightarrow>
      (\<exists>der salt_base64 signature_base64 rest signature.
         split_on CHR ''.'' token =
           ''sha256'' # encode L (sha256 L (der @ nonce)) # salt_base64 # signature_method pk
             # signature_base64 # rest \<and>
         key_to_der L pk = Ok der \<and> base64_decode L salt_base64 = Some nonce \<and>
         base64_decode L signature_base64 = Some signature \<and>
         verify_key L pk (sha256 L (der @ nonce)) signature = Ok ())" for pk nonce
    unfolding ok by (auto split: if_splits)
  have "nonce' = nonce \<and> signature_method pk' = signature_method pk \<and>
      (\<exists>der der'. key_to_der L pk = Ok der \<and> key_to_der L pk' = Ok der' \<and>
         sha256 L (der' @ nonce) = sha256 L (der @ nonce))"
    if a: "verify_token_nonce L pk token nonce = Ok True"
      and b: "verify_token_nonce L pk' token nonce' = Ok True" for pk' nonce'
    using a b unfolding fields
    by (auto simp: encode_def base64_engine.enc_inject [OF b64])
  with fields show ?thesis by blast
qed

lemma demo_accepts:
  "verify_token_nonce demo_crypto (Ed25519VerifyingKey [1, 2])
     (join_with CHR ''.'' [''sha256'', rfc4648_encode ([1, 2] @ replicate 32 7),
        rfc4648_encode (replicate 32 7), ''ed25519'', rfc4648_encode ([1, 2] @ [1, 2] @ replicate 32 7)])
     (replicate 32 7) = Ok True"
  using verify_generated_token [OF demo_base64 demo_ed25519 demo_generate [of "[1, 2]" "replicate 32 7"]]
  unfolding verify_token_nonce_eq_True by (simp add: to_verifying_key_def demo_crypto_def)

theorem accepted_token_binds_key_and_nonce_witness:
  "let token = join_with CHR ''.'' [''sha256'', rfc4648_encode ([1, 2] @ replicate 32 7),
        rfc4648_encode (replicate 32 7), ''ed25519'', rfc4648_encode ([1, 2] @ [1, 2] @ replicate 32 7)]
   in verify_token_nonce demo_crypto (Ed25519VerifyingKey [1, 2]) token (replicate 32 7) = Ok True \<and>
      (\<forall>pk' nonce'. verify_token_nonce demo_crypto pk' token nonce' = Ok True \<longrightarrow>
         nonce' = replicate 32 7 \<and> signature_method pk' = ''ed25519'')"
  using accepted_token_binds_key_and_nonce [OF demo_base64, THEN conjunct2] demo_accepts
  unfolding Let_def by fastforce

text \<open>
  C34: with a clock at least one hour past the epoch, the result for a token generated from the
  clock is exact: a timestamp in the future panics with overflow checks and is rejected without
  them; any other one is accepted when it is at most 3600 seconds old and rejected otherwise. With
  a clock before the epoch every such token is rejected.
\<close>

theorem timestamp_token_window:
  assumes clock: "3600 \<le> unat now"
    and lib: "base64_engine (base64_encode L) (base64_decode L)" "ed25519_correct L"
    and gen: "generate_token_timestamp L (Some issued) key = Ok token"
  shows "verify_token_timestamp L checks (Some now) (to_verifying_key L key) token =
           (if unat now < unat issued
            then if checks then Panic ''attempt to subtract with overflow'' else Ok False
            else Ok (unat now - unat issued \<le> 3600)) \<and>
         verify_token_timestamp L checks None (to_verifying_key L key) token = Ok False"
proof -
  from gen have gen: "generate_token_nonce L key (to_le_bytes issued) = Ok token"
    by (simp add: generate_token_timestamp_def unix_timestamp_u64_def)
  note result = verify_generated_token_result [OF lib gen]
  have "check_timestamp_salt checks (Some now) (to_le_bytes issued) =
      (if unat now < unat issued
       then if checks then Panic ''attempt to subtract with overflow''
            else Err (Anyhow ''Fingerprint timestamp expired'')
       else if unat now - unat issued \<le> 3600 then Ok ()
       else Err (Anyhow ''Fingerprint timestamp expired''))"
    using age_window [OF clock, of issued]
    by (auto simp: check_timestamp_salt_def unix_timestamp_u64_def sub_u64_def not_less
        word_less_nat_alt word_le_nat_alt)
  moreover have "check_timestamp_salt checks None (to_le_bytes issued) = Err (Lib ''duration_since'')"
    by (simp add: check_timestamp_salt_def unix_timestamp_u64_def)
  ultimately show ?thesis
    by (auto simp: verify_token_timestamp_def result)
qed

theorem timestamp_token_window_witness:
  "\<exists>token. generate_token_timestamp demo_crypto (Some 1700000000) [1, 2] = Ok token \<and>
     verify_token_timestamp demo_crypto True (Some 1700003600) (to_verifying_key demo_crypto [1, 2]) token = Ok True \<and>
     verify_token_timestamp demo_crypto False (Some 1700003601) (to_verifying_key demo_crypto [1, 2]) token = Ok False \<and>
     verify_token_timestamp demo_crypto False (Some 1699999999) (to_verifying_key demo_crypto [1, 2]) token = Ok False \<and>
     verify_token_timestamp demo_crypto True (Some 1699999999) (to_verifying_key demo_crypto [1, 2]) token =
       Panic ''attempt to subtract with overflow''"
proof -
  obtain token where t: "generate_token_timestamp demo_crypto (Some 1700000000) [1, 2] = Ok token"
    by (simp add: generate_token_timestamp_def unix_timestamp_u64_def demo_generate)
  have c: "3600 \<le> unat (1700003600 :: u64)" "3600 \<le> unat (1700003601 :: u64)"
    "3600 \<le> unat (1699999999 :: u64)" by simp_all
  note window = timestamp_token_window [OF _ demo_base64 demo_ed25519 t, THEN conjunct1]
  from t show ?thesis
    using window [OF c(1), of True] window [OF c(2), of False] window [OF c(3), of False]
      window [OF c(3), of True] by auto
qed

text \<open>
  C38: token verification panics on exactly the tokens with fewer than four dots: the range index
  \<open>parts[0..5]\<close> fails before the structure check is reached.
\<close>

theorem verify_token_panics_iff_short:
  "(\<exists>p. verify_token_nonce L pk token nonce = Panic p) \<longleftrightarrow> count_list token CHR ''.'' < 4"
proof (cases "count_list token CHR ''.'' < 4")
  case True
  then show ?thesis by (simp add: verify_token_nonce_def verify_token_Panic_short)
next
  case False
  then have "5 \<le> length (split_on CHR ''.'' token)" by (simp add: length_split_on)
  then obtain a b c d e r where p: "split_on CHR ''.'' token = a # b # c # d # e # r"
    by (rule take5_cases)
  have "verify_key L pk digest s \<noteq> Panic q" for digest s q
    by (cases pk; cases "ed_signature_from_slice L s"; cases "rsa_signature_try_from L s") simp_all
  moreover have "key_to_der L pk \<noteq> Panic q" for q
    by (cases pk; cases "key_to_der L pk") (auto elim: of_option.elims)
  ultimately show ?thesis using False
    by (auto simp: verify_token_nonce_def verify_token_with_result_def Let_def p outcome_simps
        decode_def res_bind_eq_Panic of_option_eq_Panic map_err_eq_Panic
        split: if_splits option.splits)
qed

section \<open>Certificates\<close>

lemma verify_cert_from_cert_Ok_iff:
  "verify_cert_from_cert X cert public_key = Ok () \<longleftrightarrow>
     validity_is_valid X cert \<and> cert_verify_signature X cert \<and>
     (\<forall>pem. public_key = Some pem \<longrightarrow>
        (\<exists>contents spki k. pem_read X pem = Some contents \<and> spki_from_der X contents = Some spki \<and>
           spki_parsed X spki = Some k \<and> spki_parsed X (subject_pki X cert) = Some k))"
  by (auto simp: verify_cert_from_cert_def outcome_simps split: if_splits option.splits)

text \<open>
  C35: a certificate is accepted exactly when it parses, is inside its validity period, carries a
  valid self-signature and, when a public key is pinned, holds that key.
\<close>

theorem verify_cert_from_der_Ok_iff:
  "verify_cert_from_der X der public_key = Ok () \<longleftrightarrow>
     (\<exists>cert. x509_from_der X der = Some cert \<and> validity_is_valid X cert \<and>
        cert_verify_signature X cert \<and>
        (\<forall>pem. public_key = Some pem \<longrightarrow>
          (\<exists>contents spki k. pem_read X pem = Some contents \<and> spki_from_der X contents = Some spki \<and>
             spki_parsed X spki = Some k \<and> spki_parsed X (subject_pki X cert) = Some k)))"
  by (auto simp: verify_cert_from_der_def outcome_simps verify_cert_from_cert_Ok_iff)

theorem verify_cert_from_der_Ok_iff_witness:
  "verify_cert_from_der demo_x509 [5] (Some (bytes_string [5])) = Ok () \<and>
   verify_cert_from_der demo_x509 [5] (Some (bytes_string [6])) \<noteq> Ok ()"
  unfolding verify_cert_from_der_Ok_iff
  by (simp add: demo_x509_def)

end
