(* ===== verification/Wire.thy ===== *)
theory Wire
  imports Prelude
begin

text \<open>
  The data that crosses the wire: device and file descriptions (\<open>core/src/model\<close>), the
  signaling messages of \<open>core/src/webrtc/signaling.rs\<close> and the HTTP payloads of
  \<open>core/src/http/dto.rs\<close> and \<open>core/src/http/state.rs\<close>. A struct is a record, an
  enum a datatype with the source's constructors. Field names carry a prefix where two structs
  share a name.
\<close>

section \<open>core/src/model\<close>

datatype device_type = Mobile | Desktop | Web | Headless | Server

record file_metadata =
  modified :: "string option"
  accessed :: "string option"

record file_dto =
  file_dto_id :: string
  file_name :: string
  file_size :: u64
  file_type :: string
  file_sha256 :: "string option"
  file_preview :: "string option"
  file_dto_metadata :: "file_metadata option"

section \<open>core/src/webrtc/signaling.rs\<close>

record client_info_without_id =
  cw_alias :: string
  cw_version :: string
  cw_device_model :: "string option"
  cw_device_type :: "device_type option"
  cw_token :: string

record client_info =
  ci_id :: uuid
  ci_alias :: string
  ci_version :: string
  ci_device_model :: "string option"
  ci_device_type :: "device_type option"
  ci_token :: string

definition client_info_from :: "client_info_without_id \<Rightarrow> uuid \<Rightarrow> client_info" where
  "client_info_from info i =
     \<lparr> ci_id = i, ci_alias = cw_alias info, ci_version = cw_version info,
       ci_device_model = cw_device_model info, ci_device_type = cw_device_type info,
       ci_token = cw_token info \<rparr>"

definition without_id :: "client_info \<Rightarrow> client_info_without_id" where
  "without_id info =
     \<lparr> cw_alias = ci_alias info, cw_version = ci_version info, cw_device_model = ci_device_model info,
       cw_device_type = ci_device_type info, cw_token = ci_token info \<rparr>"

record ws_server_sdp_message =
  sdp_peer :: client_info
  sdp_session_id :: string
  sdp_sdp :: string

datatype ws_server_message =
    Hello client_info "client_info list"
  | Join client_info
  | Update client_info
  | Left uuid
  | Offer ws_server_sdp_message
  | Answer ws_server_sdp_message
  | Error u16

record ws_client_sdp_message =
  csdp_session_id :: string
  csdp_target :: uuid
  csdp_sdp :: string

datatype ws_client_message =
    ClientUpdate client_info_without_id
  | ClientOffer ws_client_sdp_message
  | ClientAnswer ws_client_sdp_message

section \<open>core/src/http/dto.rs and core/src/http/state.rs\<close>

datatype protocol_type = Http | Https

fun protocol_as_str :: "protocol_type \<Rightarrow> string" where
  "protocol_as_str Http = ''http''"
| "protocol_as_str Https = ''https''"

record nonce_request =
  req_nonce :: string

record nonce_response =
  res_nonce :: string

record error_response =
  err_message :: string

record register_dto =
  reg_alias :: string
  reg_version :: string
  reg_device_model :: "string option"
  reg_device_type :: "device_type option"
  reg_token :: string
  reg_port :: u16
  reg_protocol :: protocol_type
  reg_has_web_interface :: bool

record register_response_dto =
  rr_alias :: string
  rr_version :: string
  rr_device_model :: "string option"
  rr_device_type :: "device_type option"
  rr_token :: string
  rr_has_web_interface :: bool

record prepare_upload_request_dto =
  pu_info :: register_dto
  pu_files :: "(string, file_dto) hash_map"

record prepare_upload_response_dto =
  pu_session_id :: string
  pu_tokens :: "(string, string) hash_map"

text \<open>The device description the HTTP server keeps (\<open>http/state.rs\<close>).\<close>

record http_client_info =
  hi_alias :: string
  hi_version :: string
  hi_device_model :: "string option"
  hi_device_type :: "device_type option"
  hi_token :: string

section \<open>Facts\<close>

lemma without_id_client_info_from [simp]: "without_id (client_info_from info i) = info"
  by (simp add: without_id_def client_info_from_def)

lemma client_info_from_without_id [simp]: "client_info_from (without_id info) (ci_id info) = info"
  by (simp add: without_id_def client_info_from_def)

lemma ci_id_client_info_from [simp]: "ci_id (client_info_from info i) = i"
  by (simp add: client_info_from_def)

lemma client_info_from_inject [simp]:
  "client_info_from a i = client_info_from b j \<longleftrightarrow> a = b \<and> i = j"
  by (metis without_id_client_info_from ci_id_client_info_from)

end
