(* ===== verification/Ip_Groups.thy ===== *)
theory Ip_Groups
  imports Prelude
begin

text \<open>
  How the signaling server assigns a connection to a room: \<open>get_ip_group\<close> of
  \<open>server/src/util/ip.rs\<close> and the address \<open>ws_handler\<close> of
  \<open>server/src/controller/ws_controller.rs\<close> derives from \<open>x-forwarded-for\<close>. The
  pieces of the standard library they use are written out: decimal and hexadecimal formatting,
  \<open>str::trim\<close> on the visible ASCII a header value holds, and the parser behind
  \<open>IpAddr::from_str\<close>.

  The facts: formatting is injective, two addresses share a group exactly when they are the same
  IPv4 address or agree on the first 64 bits of IPv6, and only the last component of
  \<open>x-forwarded-for\<close> matters.
\<close>

section \<open>Number formatting\<close>

definition digit :: "nat \<Rightarrow> char" where
  "digit d = ''0123456789abcdef'' ! d"

definition digit_val :: "char \<Rightarrow> nat option" where
  "digit_val c =
     (let n = of_char c :: nat in
      if 48 \<le> n \<and> n \<le> 57 then Some (n - 48)
      else if 97 \<le> n \<and> n \<le> 102 then Some (n - 87)
      else if 65 \<le> n \<and> n \<le> 70 then Some (n - 55)
      else None)"

text \<open>\<open>char::to_digit\<close>.\<close>

definition to_digit :: "nat \<Rightarrow> char \<Rightarrow> nat option" where
  "to_digit radix c = (case digit_val c of Some d \<Rightarrow> if d < radix then Some d else None | None \<Rightarrow> None)"

fun format_radix :: "nat \<Rightarrow> nat \<Rightarrow> string" where
  "format_radix b n =
     (if n < b \<or> b < 2 then [digit n] else format_radix b (n div b) @ [digit (n mod b)])"

declare format_radix.simps [simp del]

section \<open>Addresses\<close>

datatype ip_addr =
    V4 u8 u8 u8 u8
  | V6 u16 u16 u16 u16 u16 u16 u16 u16

definition format_v4 :: "u8 \<Rightarrow> u8 \<Rightarrow> u8 \<Rightarrow> u8 \<Rightarrow> string" where
  "format_v4 a b c d = join_with CHR ''.'' (map (\<lambda>x. format_radix 10 (unat x)) [a, b, c, d])"

fun get_ip_group :: "ip_addr \<Rightarrow> string" where
  "get_ip_group (V4 a b c d) = format_v4 a b c d"
| "get_ip_group (V6 s0 s1 s2 s3 s4 s5 s6 s7) =
     join_with CHR '':'' (map (\<lambda>x. format_radix 16 (unat x)) [s0, s1, s2, s3])"

subsection \<open>IpAddr::from_str\<close>

text \<open>
  A parser consumes a prefix or fails without consuming; \<open>read_number\<close> stops at the first
  non-digit and fails on more than \<open>max_digits\<close> digits or on a forbidden leading zero.
\<close>

fun read_digits :: "nat \<Rightarrow> string \<Rightarrow> nat list \<times> string" where
  "read_digits radix [] = ([], [])"
| "read_digits radix (c # cs) =
     (case to_digit radix c of
        None \<Rightarrow> ([], c # cs)
      | Some d \<Rightarrow> (let (ds, r) = read_digits radix cs in (d # ds, r)))"

definition read_number :: "nat \<Rightarrow> nat \<Rightarrow> bool \<Rightarrow> nat \<Rightarrow> string \<Rightarrow> (nat \<times> string) option" where
  "read_number radix max_digits allow_zero_prefix bound cs =
     (let (ds, r) = read_digits radix cs; n = foldl (\<lambda>a d. a * radix + d) 0 ds in
      if ds = [] \<or> length ds > max_digits then None
      else if \<not> allow_zero_prefix \<and> hd ds = 0 \<and> length ds > 1 then None
      else if n < bound then Some (n, r) else None)"

definition read_separator ::
  "char \<Rightarrow> nat \<Rightarrow> (string \<Rightarrow> ('a \<times> string) option) \<Rightarrow> string \<Rightarrow> ('a \<times> string) option" where
  "read_separator sep index inner cs =
     (if index > 0 then (case cs of c # r \<Rightarrow> if c = sep then inner r else None | [] \<Rightarrow> None)
      else inner cs)"

definition read_v4_octet :: "nat \<Rightarrow> string \<Rightarrow> (nat \<times> string) option" where
  "read_v4_octet i = read_separator CHR ''.'' i (read_number 10 3 False 256)"

definition read_ipv4_addr :: "string \<Rightarrow> ((nat \<times> nat \<times> nat \<times> nat) \<times> string) option" where
  "read_ipv4_addr cs =
     Option.bind (read_v4_octet 0 cs) (\<lambda>(a, r).
     Option.bind (read_v4_octet 1 r) (\<lambda>(b, r).
     Option.bind (read_v4_octet 2 r) (\<lambda>(c, r).
     Option.bind (read_v4_octet 3 r) (\<lambda>(d, r). Some ((a, b, c, d), r)))))"

text \<open>\<open>read_groups\<close> with \<open>left\<close> slots still to fill, starting at index \<open>i\<close>.\<close>

fun read_groups :: "nat \<Rightarrow> nat \<Rightarrow> string \<Rightarrow> nat list \<times> bool \<times> string" where
  "read_groups i 0 cs = ([], False, cs)"
| "read_groups i (Suc left) cs =
     (case (if left > 0 then read_separator CHR '':'' i read_ipv4_addr cs else None) of
        Some ((a, b, c, d), r) \<Rightarrow> ([a * 256 + b, c * 256 + d], True, r)
      | None \<Rightarrow>
          (case read_separator CHR '':'' i (read_number 16 4 True 65536) cs of
             Some (g, r) \<Rightarrow> (let (gs, v4, r') = read_groups (Suc i) left r in (g # gs, v4, r'))
           | None \<Rightarrow> ([], False, cs)))"

definition read_ipv6_addr :: "string \<Rightarrow> (nat list \<times> string) option" where
  "read_ipv6_addr cs =
     (let (head, head_ipv4, r) = read_groups 0 8 cs in
      if length head = 8 then Some (head, r)
      else if head_ipv4 then None
      else case r of
          c1 # c2 # r' \<Rightarrow>
            if c1 = CHR '':'' \<and> c2 = CHR '':'' then
              (let (tail, _, r'') = read_groups 0 (7 - length head) r' in
               Some (head @ replicate (8 - length head - length tail) 0 @ tail, r''))
            else None
        | _ \<Rightarrow> None)"

definition ip_from_str :: "string \<Rightarrow> ip_addr option" where
  "ip_from_str cs =
     (case read_ipv4_addr cs of
        Some ((a, b, c, d), r) \<Rightarrow>
          if r = [] then Some (V4 (of_nat a) (of_nat b) (of_nat c) (of_nat d)) else None
      | None \<Rightarrow>
          (case read_ipv6_addr cs of
             Some ([g0, g1, g2, g3, g4, g5, g6, g7], []) \<Rightarrow>
               Some (V6 (of_nat g0) (of_nat g1) (of_nat g2) (of_nat g3)
                        (of_nat g4) (of_nat g5) (of_nat g6) (of_nat g7))
           | _ \<Rightarrow> None))"

subsection \<open>The client address of ws_handler\<close>

definition is_space :: "char \<Rightarrow> bool" where
  "is_space c \<longleftrightarrow> c = CHR '' '' \<or> c = CHR 0x09"

definition trim :: "string \<Rightarrow> string" where
  "trim s = rev (dropWhile is_space (rev (dropWhile is_space s)))"

text \<open>
  \<open>forwarded\<close> is the header value when it is present and visible ASCII (what
  \<open>HeaderValue::to_str\<close> returns), \<open>addr\<close> the peer address of the TCP connection.
\<close>

definition client_ip :: "string option \<Rightarrow> ip_addr \<Rightarrow> ip_addr" where
  "client_ip forwarded addr =
     (case Option.bind forwarded (\<lambda>v. ip_from_str (trim (last (split_on CHR '','' v)))) of
        Some ip \<Rightarrow> ip
      | None \<Rightarrow> addr)"

section \<open>Formatting is injective\<close>

lemma digit_val_digit: "d < 16 \<Longrightarrow> digit_val (digit d) = Some d"
proof -
  have "\<forall>d \<in> {0 ..< 16}. digit_val (digit d) = Some d"
    by code_simp
  then show "d < 16 \<Longrightarrow> digit_val (digit d) = Some d" by simp
qed

lemma digit_inject: "d < 16 \<Longrightarrow> e < 16 \<Longrightarrow> digit d = digit e \<longleftrightarrow> d = e"
  by (metis digit_val_digit option.inject)

lemma digit_no_sep: "d < 16 \<Longrightarrow> digit d \<noteq> CHR ''.'' \<and> digit d \<noteq> CHR '':''"
proof -
  have "\<forall>d \<in> {0 ..< 16}. digit d \<noteq> CHR ''.'' \<and> digit d \<noteq> CHR '':''"
    by code_simp
  then show "d < 16 \<Longrightarrow> digit d \<noteq> CHR ''.'' \<and> digit d \<noteq> CHR '':''" by simp
qed

lemma format_radix_inject:
  assumes b: "2 \<le> b" "b \<le> 16"
  shows "format_radix b m = format_radix b n \<longleftrightarrow> m = n"
proof
  have len: "format_radix b k \<noteq> []" for k
    by (subst format_radix.simps) simp
  show "m = n" if "format_radix b m = format_radix b n"
    using that
  proof (induction m arbitrary: n rule: less_induct)
    case (less m)
    show ?case
    proof (cases "m < b")
      case True
      with less.prems len b show ?thesis
        by (subst (asm) format_radix.simps, subst (asm) (2) format_radix.simps)
          (auto simp: digit_inject append_eq_Cons_conv Cons_eq_append_conv split: if_splits)
    next
      case False
      with less.prems len b have n: "\<not> n < b"
        by (subst (asm) format_radix.simps, subst (asm) (2) format_radix.simps)
          (auto simp: append_eq_Cons_conv Cons_eq_append_conv split: if_splits)
      have lt: "m mod b < 16" "n mod b < 16"
        using b mod_less_divisor [of b m] mod_less_divisor [of b n] by linarith+
      from less.prems False n b have "format_radix b (m div b) = format_radix b (n div b)"
        and dig: "digit (m mod b) = digit (n mod b)"
        by (subst (asm) format_radix.simps, subst (asm) (2) format_radix.simps; simp)+
      with less.IH [of "m div b" "n div b"] False b have "m div b = n div b" by simp
      moreover from dig lt have "m mod b = n mod b" by (simp add: digit_inject)
      ultimately show ?thesis by (metis div_mult_mod_eq)
    qed
  qed
qed simp

lemma format_radix_no_sep:
  "2 \<le> b \<Longrightarrow> b \<le> 16 \<Longrightarrow> CHR ''.'' \<notin> set (format_radix b n) \<and> CHR '':'' \<notin> set (format_radix b n)"
proof (induction b n rule: format_radix.induct)
  case (1 b n)
  have lt: "n < b \<Longrightarrow> n < 16" "n mod b < 16"
    using 1 mod_less_divisor [of b n] by linarith+
  show ?case
    using 1 lt digit_no_sep [of n] digit_no_sep [of "n mod b"]
    by (subst format_radix.simps, subst (2) format_radix.simps) auto
qed

lemma join_format_split:
  assumes "c = CHR ''.'' \<or> c = CHR '':''" "2 \<le> b" "b \<le> 16" "ns \<noteq> []"
  shows "split_on c (join_with c (map (format_radix b) ns)) = map (format_radix b) ns"
  using assms format_radix_no_sep by (intro split_on_join_with) auto

section \<open>Which addresses share a group\<close>

lemma split_v4:
  "split_on CHR ''.'' (format_v4 a b c d) = map (\<lambda>x. format_radix 10 (unat x)) [a, b, c, d]"
  using join_format_split [of "CHR ''.''" 10 "map unat [a, b, c, d]"]
  by (simp add: format_v4_def)

lemma split_v6:
  "split_on CHR '':'' (get_ip_group (V6 s0 s1 s2 s3 s4 s5 s6 s7)) =
     map (\<lambda>x. format_radix 16 (unat x)) [s0, s1, s2, s3]"
  using join_format_split [of "CHR '':''" 16 "map unat [s0, s1, s2, s3]"]
  by simp

lemma v4_group_ne_v6_group:
  "format_v4 a b c d \<noteq> get_ip_group (V6 s0 s1 s2 s3 s4 s5 s6 s7)"
proof
  assume eq: "format_v4 a b c d = get_ip_group (V6 s0 s1 s2 s3 s4 s5 s6 s7)"
  have "CHR ''.'' \<in> set (format_v4 a b c d)"
    by (simp add: format_v4_def)
  moreover have "CHR ''.'' \<notin> set (get_ip_group (V6 s0 s1 s2 s3 s4 s5 s6 s7))"
    using format_radix_no_sep [of 16] by simp
  ultimately show False using eq by simp
qed

text \<open>
  C37: two clients are put into the same room exactly when they have the same IPv4 address or the
  same IPv6 /64 prefix; an IPv4 and an IPv6 client never share a room.
\<close>

theorem get_ip_group_eq_iff:
  "get_ip_group x = get_ip_group y \<longleftrightarrow>
     (case (x, y) of
        (V4 a b c d, V4 a' b' c' d') \<Rightarrow> x = y
      | (V6 s0 s1 s2 s3 _ _ _ _, V6 t0 t1 t2 t3 _ _ _ _) \<Rightarrow> (s0, s1, s2, s3) = (t0, t1, t2, t3)
      | _ \<Rightarrow> False)"
proof (cases x; cases y)
  fix a b c d a' b' c' d'
  assume x: "x = V4 a b c d" and y: "y = V4 a' b' c' d'"
  have "x = y" if "get_ip_group x = get_ip_group y"
  proof -
    from that have "split_on CHR ''.'' (format_v4 a b c d) = split_on CHR ''.'' (format_v4 a' b' c' d')"
      by (simp add: x y)
    then show ?thesis by (simp add: split_v4 format_radix_inject word_unat_eq_iff x y)
  qed
  then show ?thesis by (auto simp: x y)
next
  fix s0 s1 s2 s3 s4 s5 s6 s7 t0 t1 t2 t3 t4 t5 t6 t7
  assume x: "x = V6 s0 s1 s2 s3 s4 s5 s6 s7" and y: "y = V6 t0 t1 t2 t3 t4 t5 t6 t7"
  have "(s0, s1, s2, s3) = (t0, t1, t2, t3)" if "get_ip_group x = get_ip_group y"
  proof -
    from that have "split_on CHR '':'' (get_ip_group x) = split_on CHR '':'' (get_ip_group y)" by simp
    then show ?thesis unfolding x y split_v6 by (simp add: format_radix_inject word_unat_eq_iff)
  qed
  then show ?thesis by (auto simp: x y)
qed (use v4_group_ne_v6_group v4_group_ne_v6_group [symmetric] in auto)

section \<open>The forwarded address\<close>

lemma last_split_on_append:
  "c \<notin> set s \<Longrightarrow> last (split_on c (p @ c # s)) = s"
  by (simp add: split_on_append split_on_single)

text \<open>
  Only what the nearest proxy appended to \<open>x-forwarded-for\<close> decides the client address:
  whatever a client put before the last comma is ignored, and a last component that is no address
  falls back to the peer of the TCP connection.
\<close>

theorem client_ip_last_component:
  assumes "CHR '','' \<notin> set hop"
  shows "client_ip (Some (spoofed @ CHR '','' # hop)) addr =
         (case ip_from_str (trim hop) of Some ip \<Rightarrow> ip | None \<Rightarrow> addr)"
  using assms by (simp add: client_ip_def last_split_on_append)

theorem client_ip_last_component_witness:
  "client_ip (Some (''6.6.6.6'' @ CHR '','' # '' 10.0.0.7'')) (V4 127 0 0 1) = V4 10 0 0 7"
  by (subst client_ip_last_component) (simp, code_simp)

end
