(* ===== verification/Nonce_Cache.thy ===== *)
theory Nonce_Cache
  imports Prelude
begin

text \<open>
  The bounded maps of received and generated nonces. The crate \<open>lru\<close> is a parameter: the
  record \<open>lru_lib\<close> holds the three calls the sources make, the locale \<open>nonce_cache\<close> the
  laws they rely on, and a list in order of use is the reference cache the locale is interpreted
  on. \<open>get\<close> marks its key as used, so it returns the cache as well. The crate takes its
  capacity as a \<open>NonZeroUsize\<close>.
\<close>

record 'c lru_lib =
  lru_new :: "nat \<Rightarrow> 'c"
  lru_put :: "'c \<Rightarrow> string \<Rightarrow> bytes \<Rightarrow> 'c"
  lru_get :: "'c \<Rightarrow> string \<Rightarrow> bytes option \<times> 'c"

text \<open>A sequence of stores.\<close>

definition put_all :: "('c \<Rightarrow> string \<Rightarrow> bytes \<Rightarrow> 'c) \<Rightarrow> 'c \<Rightarrow> (string \<times> bytes) list \<Rightarrow> 'c" where
  "put_all put c kvs = foldl (\<lambda>c (k, v). put c k v) c kvs"

section \<open>A reference cache\<close>

text \<open>Most recently used first.\<close>

type_synonym list_cache = "nat \<times> (string \<times> bytes) list"

fun lc_put :: "list_cache \<Rightarrow> string \<Rightarrow> bytes \<Rightarrow> list_cache" where
  "lc_put (n, m) k v = (n, take n ((k, v) # filter (\<lambda>(k', v'). k' \<noteq> k) m))"

fun lc_get :: "list_cache \<Rightarrow> string \<Rightarrow> bytes option \<times> list_cache" where
  "lc_get (n, m) k =
     (case map_of m k of
        None \<Rightarrow> (None, (n, m))
      | Some v \<Rightarrow> (Some v, (n, (k, v) # filter (\<lambda>(k', v'). k' \<noteq> k) m)))"

definition list_lru :: "list_cache lru_lib" where
  "list_lru = \<lparr> lru_new = (\<lambda>n. (n, [])), lru_put = lc_put, lru_get = lc_get \<rparr>"

section \<open>The contract\<close>

locale nonce_cache =
  fixes new :: "nat \<Rightarrow> 'c"
    and put :: "'c \<Rightarrow> string \<Rightarrow> bytes \<Rightarrow> 'c"
    and get :: "'c \<Rightarrow> string \<Rightarrow> bytes option \<times> 'c"
    and size_of :: "'c \<Rightarrow> nat"
    and capacity :: "'c \<Rightarrow> nat"
  assumes get_new: "fst (get (new n) k) = None"
    and capacity_new: "capacity (new n) = n"
    and size_new: "size_of (new n) = 0"
    and get_put_same: "0 < capacity c \<Longrightarrow> fst (get (put c k v) k) = Some v"
    and get_put_other: "k' \<noteq> k \<Longrightarrow> fst (get (put c k v) k') \<in> {None, fst (get c k')}"
    and capacity_put: "capacity (put c k v) = capacity c"
    and get_get: "fst (get (snd (get c k)) k') = fst (get c k')"
    and size_put: "size_of c \<le> capacity c \<Longrightarrow> size_of (put c k v) \<le> capacity c"
begin

lemma put_all_snoc: "put_all put c (kvs @ [kv]) = put (put_all put c kvs) (fst kv) (snd kv)"
  by (simp add: put_all_def case_prod_beta)

lemma put_all_bounded:
  "size_of c \<le> capacity c \<Longrightarrow>
   size_of (put_all put c kvs) \<le> capacity c \<and> capacity (put_all put c kvs) = capacity c"
proof (induction kvs rule: rev_induct)
  case Nil
  then show ?case by (simp add: put_all_def)
next
  case (snoc kv kvs)
  then show ?case
    using size_put [of "put_all put c kvs"] by (simp add: put_all_snoc capacity_put)
qed

text \<open>What is found is what was stored last under the key.\<close>

lemma put_all_latest:
  "0 < n \<Longrightarrow> fst (get (put_all put (new n) kvs) k) = Some v \<Longrightarrow> map_of (rev kvs) k = Some v"
proof (induction kvs rule: rev_induct)
  case Nil
  then show ?case by (simp add: put_all_def get_new)
next
  case (snoc kv kvs)
  have cap: "capacity (put_all put (new n) kvs) = n"
    using put_all_bounded [of "new n" kvs] by (simp add: capacity_new size_new)
  show ?case
  proof (cases "k = fst kv")
    case True
    with snoc.prems cap get_put_same show ?thesis by (simp add: put_all_snoc map_add_Some_iff)
  next
    case False
    with snoc.prems get_put_other [of k "fst kv" "put_all put (new n) kvs" "snd kv"]
    have "fst (get (put_all put (new n) kvs) k) = Some v" by (auto simp: put_all_snoc)
    with snoc.IH snoc.prems(1) False show ?thesis by (cases kv) simp
  qed
qed

text \<open>The last store is found.\<close>

lemma put_all_last: "0 < n \<Longrightarrow> fst (get (put_all put (new n) (kvs @ [(k, v)])) k) = Some v"
  using put_all_bounded [of "new n" kvs] by (simp add: put_all_snoc get_put_same capacity_new size_new)

end

section \<open>The reference cache satisfies it\<close>

lemma map_of_take: "map_of (take n xs) k \<in> {None, map_of xs k}"
proof (induction xs arbitrary: n)
  case (Cons x xs)
  then show ?case by (cases n; cases x) auto
qed simp

lemma map_of_filter_key: "map_of (filter (\<lambda>(k', v'). k' \<noteq> k) m) j = (if j = k then None else map_of m j)"
  by (induction m) auto

lemma lc_get_fst: "fst (lc_get (n, m) k) = map_of m k"
  by (simp split: option.splits)

interpretation lc: nonce_cache "\<lambda>n. (n, [])" lc_put lc_get "\<lambda>(n, m). length m" fst
proof unfold_locales
  fix c :: list_cache and k k' :: string and v :: bytes
  obtain n m where c: "c = (n, m)" by fastforce
  show "0 < fst c \<Longrightarrow> fst (lc_get (lc_put c k v) k) = Some v"
    by (cases n) (simp_all add: c lc_get_fst)
  show "k' \<noteq> k \<Longrightarrow> fst (lc_get (lc_put c k v) k') \<in> {None, fst (lc_get c k')}"
    using map_of_take [of n "(k, v) # filter (\<lambda>(k', v'). k' \<noteq> k) m" k']
    by (simp add: c lc_get_fst map_of_filter_key del: lc_get.simps)
  show "fst (lc_get (snd (lc_get c k)) k') = fst (lc_get c k')"
  proof (cases "map_of m k")
    case (Some a)
    have "fst (lc_get (n, (k, a) # filter (\<lambda>(k', v'). k' \<noteq> k) m) k') = fst (lc_get (n, m) k')"
      using Some by (simp only: lc_get_fst) (simp add: map_of_filter_key)
    with Some show ?thesis by (simp add: c del: lc_get.simps) (simp add: c)
  qed (simp add: c)
  show "fst (lc_put c k v) = fst c" by (simp add: c)
  show "(case c of (n, m) \<Rightarrow> length m) \<le> fst c \<Longrightarrow> (case lc_put c k v of (n, m) \<Rightarrow> length m) \<le> fst c"
    by (simp add: c)
qed simp_all

text \<open>The laws for a library record, as the theories over it use them.\<close>

definition lru_ok :: "'c lru_lib \<Rightarrow> ('c \<Rightarrow> nat) \<Rightarrow> ('c \<Rightarrow> nat) \<Rightarrow> bool" where
  "lru_ok K size_of capacity \<longleftrightarrow> nonce_cache (lru_new K) (lru_put K) (lru_get K) size_of capacity"

lemma lru_ok_list: "lru_ok list_lru (\<lambda>(n, m). length m) fst"
  using lc.nonce_cache_axioms by (simp add: lru_ok_def list_lru_def)

end
