(* ===== verification/Http_Server.thy ===== *)
theory Http_Server
  imports Crypto Wire Ip_Groups Nonce_Cache
begin

text \<open>
  The HTTP server of \<open>core/src/http/server\<close>: state, identification of clients, routing, the
  two controllers, error responses and the client certificate verifier.

  hyper, rustls and serde_json are outside: a request is the data hyper hands over, a body is
  \<open>None\<close> when reading it fails, JSON is the record \<open>json_lib\<close>. The handlers that change
  state hold the locks of both maps until they return, so one request is one step.

  The facts: what every route answers and when the state changes, the agreement between the two
  nonce maps and the responses, the bound on the maps, and which certificates are let in.
\<close>

section \<open>Requests and responses\<close>

record json_lib =
  de_nonce_request :: "bytes \<Rightarrow> nonce_request option"
  ser_nonce_request :: "nonce_request \<Rightarrow> string"
  de_nonce_response :: "bytes \<Rightarrow> nonce_response option"
  ser_nonce_response :: "nonce_response \<Rightarrow> string option"
  de_register_dto :: "bytes \<Rightarrow> register_dto option"
  ser_register_dto :: "register_dto \<Rightarrow> string"
  de_register_response :: "bytes \<Rightarrow> register_response_dto option"
  ser_register_response :: "register_response_dto \<Rightarrow> string option"
  ser_prepare_upload :: "prepare_upload_request_dto \<Rightarrow> string"
  de_prepare_upload_response :: "bytes \<Rightarrow> prepare_upload_response_dto option"
  de_error_response :: "bytes \<Rightarrow> error_response option"
  ser_error_response :: "error_response \<Rightarrow> string option"
  status_display :: "nat \<Rightarrow> string"

record http_response =
  res_status :: nat
  res_content_type :: "string option"
  res_body :: bytes

text \<open>\<open>Response::new(Full::default())\<close> has status 200 and no body.\<close>

definition response_new :: http_response where
  "response_new = \<lparr> res_status = 200, res_content_type = None, res_body = [] \<rparr>"

definition json_into_response :: "nat \<Rightarrow> string option \<Rightarrow> http_response" where
  "json_into_response status serialized =
     response_new\<lparr> res_status := status, res_content_type := Some ''application/json'',
       res_body := as_bytes (case serialized of Some s \<Rightarrow> s | None \<Rightarrow> ''{}'') \<rparr>"

datatype http_app_error =
    HyperError
  | StatusError nat
  | BadRequest string

definition app_error_to_response :: "json_lib \<Rightarrow> http_app_error \<Rightarrow> http_response" where
  "app_error_to_response J e =
     (case e of
        HyperError \<Rightarrow>
          json_into_response 500 (ser_error_response J \<lparr> err_message = ''Internal server error'' \<rparr>)
      | StatusError code \<Rightarrow>
          json_into_response code
            (ser_error_response J \<lparr> err_message = ''Status code: '' @ status_display J code \<rparr>)
      | BadRequest message \<Rightarrow>
          json_into_response 400 (ser_error_response J \<lparr> err_message = message \<rparr>))"

definition collect_to_json :: "(bytes \<Rightarrow> 'a option) \<Rightarrow> bytes option \<Rightarrow> http_app_error + 'a" where
  "collect_to_json de body =
     (case body of
        None \<Rightarrow> Inl HyperError
      | Some b \<Rightarrow> (case de b of None \<Rightarrow> Inl (BadRequest ''Invalid JSON body'') | Some x \<Rightarrow> Inr x))"

section \<open>State\<close>

record 'c http_state =
  hs_info :: http_client_info
  hs_web :: bool
  hs_received_nonce_map :: 'c
  hs_generated_nonce_map :: 'c

definition http_state_new :: "'c lru_lib \<Rightarrow> http_client_info \<Rightarrow> 'c http_state" where
  "http_state_new K info =
     \<lparr> hs_info = info, hs_web = False, hs_received_nonce_map = lru_new K 200,
       hs_generated_nonce_map = lru_new K 200 \<rparr>"

section \<open>Clients\<close>

text \<open>\<open>IpAddr::to_string\<close>, with the shortest form of RFC 5952 for IPv6.\<close>

fun zero_run :: "u16 list \<Rightarrow> nat" where
  "zero_run [] = 0"
| "zero_run (s # ss) = (if s = 0 then Suc (zero_run ss) else 0)"

text \<open>The first of the longest runs of zero segments: start and length.\<close>

fun longest_zeros :: "nat \<Rightarrow> u16 list \<Rightarrow> nat \<times> nat" where
  "longest_zeros i [] = (i, 0)"
| "longest_zeros i (s # ss) =
     (let here = zero_run (s # ss); (j, n) = longest_zeros (Suc i) ss
      in if 0 < here \<and> here \<ge> n then (i, here) else (j, n))"

definition hex_groups :: "u16 list \<Rightarrow> string" where
  "hex_groups ss = join_with CHR '':'' (map (\<lambda>s. format_radix 16 (unat s)) ss)"

fun ip_to_string :: "ip_addr \<Rightarrow> string" where
  "ip_to_string (V4 a b c d) = format_v4 a b c d"
| "ip_to_string (V6 s0 s1 s2 s3 s4 s5 s6 s7) =
     (if s0 = 0 \<and> s1 = 0 \<and> s2 = 0 \<and> s3 = 0 \<and> s4 = 0 \<and> s5 = 65535 then
        ''::ffff:'' @ format_v4 (ucast (drop_bit 8 s6)) (ucast s6) (ucast (drop_bit 8 s7)) (ucast s7)
      else
        (let ss = [s0, s1, s2, s3, s4, s5, s6, s7]; (start, n) = longest_zeros 0 ss
         in if n > 1 then hex_groups (take start ss) @ ''::'' @ hex_groups (drop (start + n) ss)
            else hex_groups ss))"

record request_client_info =
  rci_ip :: ip_addr
  rci_cert :: "bytes option"

definition extract_public_key :: "('cert, 'spki, 'pk) x509_lib \<Rightarrow> request_client_info \<Rightarrow> string option" where
  "extract_public_key X c =
     (case rci_cert c of
        None \<Rightarrow> None
      | Some cert \<Rightarrow> (case public_key_from_cert_der X cert of Ok k \<Rightarrow> Some k | _ \<Rightarrow> None))"

definition client_identifier :: "('cert, 'spki, 'pk) x509_lib \<Rightarrow> request_client_info \<Rightarrow> string" where
  "client_identifier X c =
     (case extract_public_key X c of Some k \<Rightarrow> k | None \<Rightarrow> ip_to_string (rci_ip c))"

text \<open>The client certificate verifier: mandatory, and any certificate that is valid by itself.\<close>

definition offer_client_auth :: bool where
  "offer_client_auth = True"

definition client_auth_mandatory :: bool where
  "client_auth_mandatory = True"

definition verify_client_cert :: "('cert, 'spki, 'pk) x509_lib \<Rightarrow> bytes \<Rightarrow> unit res" where
  "verify_client_cert X cert =
     map_err (Anyhow ''ApplicationVerificationFailure'') (verify_cert_from_der X cert None)"

section \<open>Controllers\<close>

text \<open>The environment of a request: the libraries and the random generator.\<close>

record ('sk, 'vk, 'rk, 'cert, 'spki, 'pk, 'c) http_env =
  he_crypto :: "('sk, 'vk, 'rk) crypto_lib"
  he_x509 :: "('cert, 'spki, 'pk) x509_lib"
  he_json :: json_lib
  he_lru :: "'c lru_lib"

definition nonce_exchange ::
  "('sk, 'vk, 'rk, 'cert, 'spki, 'pk, 'c) http_env \<Rightarrow> (nat \<Rightarrow> bytes) \<Rightarrow> bytes option \<Rightarrow>
     request_client_info \<Rightarrow> 'c http_state \<Rightarrow> (http_app_error + http_response) \<times> 'c http_state" where
  "nonce_exchange E rng body client_info state =
     (case collect_to_json (de_nonce_request (he_json E)) body of
        Inl e \<Rightarrow> (Inl e, state)
      | Inr payload \<Rightarrow>
          (case decode (he_crypto E) (req_nonce payload) of
             Ok nonce \<Rightarrow>
               if \<not> validate_nonce nonce then (Inl (BadRequest ''Invalid nonce''), state)
               else
                 (let remote_key = client_identifier (he_x509 E) client_info;
                      new_nonce = generate_nonce rng;
                      new_nonce_base64 = encode (he_crypto E) new_nonce
                  in (Inr (json_into_response 200
                        (ser_nonce_response (he_json E) \<lparr> res_nonce = new_nonce_base64 \<rparr>)),
                      state\<lparr> hs_received_nonce_map :=
                               lru_put (he_lru E) (hs_received_nonce_map state) remote_key nonce,
                             hs_generated_nonce_map :=
                               lru_put (he_lru E) (hs_generated_nonce_map state) remote_key new_nonce \<rparr>))
           | _ \<Rightarrow> (Inl (BadRequest ''Invalid nonce format''), state)))"

text \<open>\<open>register\<close> of v2 and of v3 have the same body.\<close>

definition register ::
  "('sk, 'vk, 'rk, 'cert, 'spki, 'pk, 'c) http_env \<Rightarrow> bytes option \<Rightarrow>
     request_client_info \<Rightarrow> 'c http_state \<Rightarrow> (http_app_error + http_response) \<times> 'c http_state" where
  "register E body client_info state =
     (case collect_to_json (de_register_dto (he_json E)) body of
        Inl e \<Rightarrow> (Inl e, state)
      | Inr payload \<Rightarrow>
          (let info = hs_info state in
           (Inr (json_into_response 200 (ser_register_response (he_json E)
              \<lparr> rr_alias = hi_alias info, rr_version = hi_version info,
                rr_device_model = hi_device_model info, rr_device_type = hi_device_type info,
                rr_token = hi_token info, rr_has_web_interface = hs_web state \<rparr>)), state)))"

definition v3_register ::
  "('sk, 'vk, 'rk, 'cert, 'spki, 'pk, 'c) http_env \<Rightarrow> bytes option \<Rightarrow>
     request_client_info \<Rightarrow> 'c http_state \<Rightarrow> (http_app_error + http_response) \<times> 'c http_state" where
  "v3_register E body client_info state =
     (case collect_to_json (de_register_dto (he_json E)) body of
        Inl e \<Rightarrow> (Inl e, state)
      | Inr payload \<Rightarrow>
          (let info = hs_info state in
           (Inr (json_into_response 200 (ser_register_response (he_json E)
              \<lparr> rr_alias = hi_alias info, rr_version = hi_version info,
                rr_device_model = hi_device_model info, rr_device_type = hi_device_type info,
                rr_token = hi_token info, rr_has_web_interface = hs_web state \<rparr>)), state)))"

section \<open>Routing\<close>

text \<open>
  A request with its extensions: whether the shared state was attached, and the client.
\<close>

record http_request =
  rq_method :: string
  rq_path :: string
  rq_body :: "bytes option"
  rq_has_state :: bool
  rq_client_info :: "request_client_info option"

definition handle_request_inner ::
  "('sk, 'vk, 'rk, 'cert, 'spki, 'pk, 'c) http_env \<Rightarrow> (nat \<Rightarrow> bytes) \<Rightarrow> bool \<Rightarrow> http_request \<Rightarrow>
     'c http_state \<Rightarrow> (http_app_error + http_response) \<times> 'c http_state" where
  "handle_request_inner E rng legacy_enabled req state =
     (if \<not> rq_has_state req then (Inl (StatusError 500), state)
      else case rq_client_info req of
          None \<Rightarrow> (Inl (StatusError 500), state)
        | Some client_info \<Rightarrow>
            if rq_method req = ''POST'' \<and> rq_path req = ''/api/localsend/v2/register'' then
              (if \<not> legacy_enabled then (Inl (StatusError 404), state)
               else register E (rq_body req) client_info state)
            else if rq_method req = ''POST'' \<and> rq_path req = ''/api/localsend/v2/prepare-upload'' then
              (if \<not> legacy_enabled then (Inl (StatusError 404), state)
               else register E (rq_body req) client_info state)
            else if rq_method req = ''POST'' \<and> rq_path req = ''/api/localsend/v2/upload'' then
              (if \<not> legacy_enabled then (Inl (StatusError 404), state)
               else register E (rq_body req) client_info state)
            else if rq_method req = ''POST'' \<and> rq_path req = ''/api/localsend/v2/cancel'' then
              (if \<not> legacy_enabled then (Inl (StatusError 404), state)
               else register E (rq_body req) client_info state)
            else if rq_method req = ''POST'' \<and> rq_path req = ''/api/localsend/v3/nonce'' then
              nonce_exchange E rng (rq_body req) client_info state
            else if rq_method req = ''POST'' \<and> rq_path req = ''/api/localsend/v3/register'' then
              v3_register E (rq_body req) client_info state
            else (Inr (response_new\<lparr> res_status := 404 \<rparr>), state))"

definition handle_request ::
  "('sk, 'vk, 'rk, 'cert, 'spki, 'pk, 'c) http_env \<Rightarrow> (nat \<Rightarrow> bytes) \<Rightarrow> bool \<Rightarrow> http_request \<Rightarrow>
     'c http_state \<Rightarrow> http_response \<times> 'c http_state" where
  "handle_request E rng legacy_enabled req state =
     (case handle_request_inner E rng legacy_enabled req state of
        (Inr response, state') \<Rightarrow> (response, state')
      | (Inl err, state') \<Rightarrow> (app_error_to_response (he_json E) err, state'))"

text \<open>
  A connection: TLS attaches the first peer certificate, the plain server none. The certificates
  are those rustls hands over; an empty chain would panic at \<open>cert.get(0).unwrap()\<close>.
\<close>

definition tls_client_info :: "ip_addr \<Rightarrow> bytes list option \<Rightarrow> request_client_info res" where
  "tls_client_info ip peer_certificates =
     (case peer_certificates of
        None \<Rightarrow> Ok \<lparr> rci_ip = ip, rci_cert = None \<rparr>
      | Some [] \<Rightarrow> Panic ''called `Option::unwrap()` on a `None` value''
      | Some (cert # rest) \<Rightarrow> Ok \<lparr> rci_ip = ip, rci_cert = Some cert \<rparr>)"

definition serve_request ::
  "('sk, 'vk, 'rk, 'cert, 'spki, 'pk, 'c) http_env \<Rightarrow> (nat \<Rightarrow> bytes) \<Rightarrow> bool \<Rightarrow>
     request_client_info \<Rightarrow> string \<Rightarrow> string \<Rightarrow> bytes option \<Rightarrow> 'c http_state \<Rightarrow>
     http_response \<times> 'c http_state" where
  "serve_request E rng legacy_enabled client_info method path body state =
     handle_request E rng legacy_enabled
       \<lparr> rq_method = method, rq_path = path, rq_body = body, rq_has_state = True,
         rq_client_info = Some client_info \<rparr> state"

section \<open>Specification vocabulary\<close>

text \<open>
  What a request exchanges: the client's key, its nonce, and the nonce the server answers with.
\<close>

definition exchange_of ::
  "('sk, 'vk, 'rk, 'cert, 'spki, 'pk, 'c) http_env \<Rightarrow> (nat \<Rightarrow> bytes) \<Rightarrow> http_request \<Rightarrow>
     (string \<times> bytes \<times> bytes) option" where
  "exchange_of E rng req =
     (if rq_has_state req \<and> rq_method req = ''POST'' \<and> rq_path req = ''/api/localsend/v3/nonce'' then
        Option.bind (rq_client_info req) (\<lambda>c.
        Option.bind (Option.bind (rq_body req) (de_nonce_request (he_json E))) (\<lambda>payload.
        Option.bind (base64_decode (he_crypto E) (req_nonce payload)) (\<lambda>nonce.
        if validate_nonce nonce
        then Some (client_identifier (he_x509 E) c, nonce, generate_nonce rng) else None)))
      else None)"

text \<open>A run of the server, and the exchanges in it.\<close>

fun serve_all ::
  "('sk, 'vk, 'rk, 'cert, 'spki, 'pk, 'c) http_env \<Rightarrow> bool \<Rightarrow> ((nat \<Rightarrow> bytes) \<times> http_request) list \<Rightarrow>
     'c http_state \<Rightarrow> http_response list \<times> 'c http_state" where
  "serve_all E legacy [] s = ([], s)"
| "serve_all E legacy ((rng, req) # rs) s =
     (let (response, s') = handle_request E rng legacy req s;
          (responses, s'') = serve_all E legacy rs s'
      in (response # responses, s''))"

definition exchanges ::
  "('sk, 'vk, 'rk, 'cert, 'spki, 'pk, 'c) http_env \<Rightarrow> ((nat \<Rightarrow> bytes) \<times> http_request) list \<Rightarrow>
     (string \<times> bytes \<times> bytes) list" where
  "exchanges E rs = List.map_filter (\<lambda>(rng, req). exchange_of E rng req) rs"

definition latest_exchange :: "(string \<times> bytes \<times> bytes) list \<Rightarrow> string \<Rightarrow> (bytes \<times> bytes) option" where
  "latest_exchange xs k = map_of (rev xs) k"

text \<open>A JSON library in which a nonce is its own text, and an environment made of it.\<close>

definition demo_json :: json_lib where
  "demo_json =
     \<lparr> de_nonce_request = (\<lambda>b. Some \<lparr> req_nonce = bytes_string b \<rparr>), ser_nonce_request = req_nonce,
       de_nonce_response = (\<lambda>b. Some \<lparr> res_nonce = bytes_string b \<rparr>), ser_nonce_response = Some \<circ> res_nonce,
       de_register_dto = (\<lambda>b. None), ser_register_dto = reg_alias,
       de_register_response = (\<lambda>b. if b = [] then None else
          Some \<lparr> rr_alias = bytes_string b, rr_version = ''2.1'', rr_device_model = None, rr_device_type = None,
            rr_token = [], rr_has_web_interface = False \<rparr>),
       ser_register_response = Some \<circ> rr_alias,
       ser_prepare_upload = (\<lambda>p. []), de_prepare_upload_response =
         (\<lambda>b. Some \<lparr> pu_session_id = bytes_string b, pu_tokens = [] \<rparr>),
       de_error_response = (\<lambda>b. None), ser_error_response = Some \<circ> err_message,
       status_display = (\<lambda>n. if n = 404 then ''404 Not Found'' else ''500 Internal Server Error'') \<rparr>"

definition demo_env :: "(bytes, bytes, bytes, bytes, bytes, bytes, list_cache) http_env" where
  "demo_env = \<lparr> he_crypto = demo_crypto, he_x509 = demo_x509, he_json = demo_json, he_lru = list_lru \<rparr>"

definition demo_http_info :: http_client_info where
  "demo_http_info =
     \<lparr> hi_alias = ''server'', hi_version = ''2.1'', hi_device_model = None, hi_device_type = None, hi_token = [] \<rparr>"

definition demo_nonce_request :: "u8 list \<Rightarrow> http_request" where
  "demo_nonce_request cert =
     \<lparr> rq_method = ''POST'', rq_path = ''/api/localsend/v3/nonce'',
       rq_body = Some (as_bytes (encode demo_crypto (replicate 32 1))), rq_has_state = True,
       rq_client_info = Some \<lparr> rci_ip = V4 10 0 0 1, rci_cert = Some cert \<rparr> \<rparr>"

section \<open>Facts\<close>

lemma json_into_response_simps [simp]:
  "res_status (json_into_response st b) = st"
  "res_body (json_into_response st b) = as_bytes (case b of Some s \<Rightarrow> s | None \<Rightarrow> ''{}'')"
  by (simp_all add: json_into_response_def response_new_def)

lemma decode_cases: "decode L s = (case base64_decode L s of Some b \<Rightarrow> Ok b | None \<Rightarrow> Err (Lib ''base64''))"
  by (cases "base64_decode L s") (simp_all add: decode_def)

lemma register_keeps_state [simp]: "snd (register E body c s) = s" "snd (v3_register E body c s) = s"
  by (simp_all add: register_def v3_register_def Let_def split: sum.splits)

lemma handle_request_state:
  "snd (handle_request E rng legacy req s) = snd (handle_request_inner E rng legacy req s)"
  by (simp add: handle_request_def case_prod_beta split: sum.splits prod.splits)

text \<open>The state changes exactly by the exchange of the request.\<close>

lemma handle_request_exchange:
  "snd (handle_request E rng legacy req s) =
     (case exchange_of E rng req of
        None \<Rightarrow> s
      | Some (k, n, u) \<Rightarrow>
          s\<lparr> hs_received_nonce_map := lru_put (he_lru E) (hs_received_nonce_map s) k n,
             hs_generated_nonce_map := lru_put (he_lru E) (hs_generated_nonce_map s) k u \<rparr>)"
  unfolding handle_request_state
  by (cases "rq_client_info req"; cases "rq_body req")
    (auto simp: handle_request_inner_def exchange_of_def nonce_exchange_def collect_to_json_def decode_cases Let_def
      split: option.splits)

lemma serve_all_state:
  "snd (serve_all E legacy rs s) =
     s\<lparr> hs_received_nonce_map :=
          put_all (lru_put (he_lru E)) (hs_received_nonce_map s) (map (\<lambda>(k, n, u). (k, n)) (exchanges E rs)),
        hs_generated_nonce_map :=
          put_all (lru_put (he_lru E)) (hs_generated_nonce_map s) (map (\<lambda>(k, n, u). (k, u)) (exchanges E rs)) \<rparr>"
proof (induction rs arbitrary: s)
  case Nil
  then show ?case by (simp add: exchanges_def put_all_def List.map_filter_def)
next
  case (Cons r rs)
  obtain rng req where r: "r = (rng, req)" by fastforce
  show ?case
    using handle_request_exchange [of E rng legacy req s]
    by (cases "exchange_of E rng req")
      (auto simp: r Let_def case_prod_beta Cons.IH exchanges_def put_all_def List.map_filter_def)
qed

lemma map_of_map_fst: "map_of (map (\<lambda>(k, n, u). (k, n)) xs) k = map_option fst (map_of xs k)"
  by (induction xs) auto

lemma map_of_map_snd: "map_of (map (\<lambda>(k, n, u). (k, u)) xs) k = map_option snd (map_of xs k)"
  by (induction xs) auto

lemma nonce_endpoint_cases:
  assumes "rq_has_state req" "rq_client_info req = Some c" "rq_method req = ''POST''"
    and "rq_path req = ''/api/localsend/v3/nonce''"
    and "handle_request E rng legacy req s = (response, s')"
  shows "(case exchange_of E rng req of
            Some (k, n, u) \<Rightarrow>
              k = client_identifier (he_x509 E) c \<and> u = generate_nonce rng \<and> 16 \<le> length n \<and> length n \<le> 128 \<and>
              response = json_into_response 200
                (ser_nonce_response (he_json E) \<lparr> res_nonce = encode (he_crypto E) u \<rparr>)
          | None \<Rightarrow> s' = s \<and> res_status response = (if rq_body req = None then 500 else 400))"
  using assms(5)
  by (cases "rq_body req")
    (auto simp: assms(1-4) handle_request_def handle_request_inner_def exchange_of_def nonce_exchange_def
      collect_to_json_def decode_cases Let_def app_error_to_response_def validate_nonce_def
      split: option.splits if_splits)

section \<open>Properties\<close>

text \<open>
  C29: after any sequence of requests to a fresh server, both nonce maps hold at most 200 entries,
  and what they hold for a client comes from one and the same exchange, its latest successful one:
  the received map the nonce the client sent, the generated map the nonce it was answered with.
\<close>

theorem nonce_maps_hold_latest_exchange:
  assumes "lru_ok (he_lru E) size_of capacity"
    and "snd (serve_all E legacy rs (http_state_new (he_lru E) info)) = s"
  shows "size_of (hs_received_nonce_map s) \<le> 200 \<and> size_of (hs_generated_nonce_map s) \<le> 200 \<and>
     (\<forall>k n u. fst (lru_get (he_lru E) (hs_received_nonce_map s) k) = Some n \<and>
              fst (lru_get (he_lru E) (hs_generated_nonce_map s) k) = Some u \<longrightarrow>
              latest_exchange (exchanges E rs) k = Some (n, u)) \<and>
     (exchanges E rs \<noteq> [] \<longrightarrow>
        (let (k, n, u) = last (exchanges E rs) in
          fst (lru_get (he_lru E) (hs_received_nonce_map s) k) = Some n \<and>
          fst (lru_get (he_lru E) (hs_generated_nonce_map s) k) = Some u))"
proof -
  let ?K = "he_lru E"
  let ?xs = "exchanges E rs"
  note laws = assms(1) [unfolded lru_ok_def]
  have r: "hs_received_nonce_map s = put_all (lru_put ?K) (lru_new ?K 200) (map (\<lambda>(k, n, u). (k, n)) ?xs)"
    and g: "hs_generated_nonce_map s = put_all (lru_put ?K) (lru_new ?K 200) (map (\<lambda>(k, n, u). (k, u)) ?xs)"
    using assms(2) by (auto simp: serve_all_state http_state_new_def)
  have new: "size_of (lru_new ?K 200) \<le> capacity (lru_new ?K 200)" "capacity (lru_new ?K 200) = 200"
    using nonce_cache.size_new [OF laws] nonce_cache.capacity_new [OF laws] by simp_all
  have "size_of (hs_received_nonce_map s) \<le> 200" "size_of (hs_generated_nonce_map s) \<le> 200"
    using nonce_cache.put_all_bounded [OF laws new(1)] new(2) by (simp_all add: r g)
  moreover have "latest_exchange ?xs k = Some (n, u)"
    if "fst (lru_get ?K (hs_received_nonce_map s) k) = Some n"
      "fst (lru_get ?K (hs_generated_nonce_map s) k) = Some u" for k n u
    using nonce_cache.put_all_latest [OF laws, of 200 "map (\<lambda>(k, n, u). (k, n)) ?xs" k n]
      nonce_cache.put_all_latest [OF laws, of 200 "map (\<lambda>(k, n, u). (k, u)) ?xs" k u] that
    by (auto simp: r g rev_map map_of_map_fst map_of_map_snd latest_exchange_def prod_eq_iff)
  moreover have "fst (lru_get ?K (hs_received_nonce_map s) k) = Some n"
    "fst (lru_get ?K (hs_generated_nonce_map s) k) = Some u" if "?xs = ys @ [(k, n, u)]" for ys k n u
    using nonce_cache.put_all_last [OF laws, of 200 "map (\<lambda>(k, n, u). (k, n)) ys" k n]
      nonce_cache.put_all_last [OF laws, of 200 "map (\<lambda>(k, n, u). (k, u)) ys" k u] that
    by (simp_all add: r g)
  ultimately show ?thesis
    by (cases ?xs rule: rev_cases) (auto simp: Let_def)
qed

theorem nonce_maps_hold_latest_exchange_witness:
  "let s = snd (serve_all demo_env True [(\<lambda>n. replicate n 2, demo_nonce_request [5]),
             (\<lambda>n. replicate n 3, demo_nonce_request [5])] (http_state_new list_lru demo_http_info))
   in fst (lc_get (hs_received_nonce_map s) (bytes_string [5])) = Some (replicate 32 1) \<and>
      fst (lc_get (hs_generated_nonce_map s) (bytes_string [5])) = Some (replicate 32 3)"
proof -
  let ?rs = "[(\<lambda>n. replicate n 2, demo_nonce_request [5]), (\<lambda>n. replicate n 3, demo_nonce_request [5])]"
  have x: "exchanges demo_env ?rs = [(bytes_string [5], replicate 32 1, replicate 32 2),
      (bytes_string [5], replicate 32 1, replicate 32 3)]"
    by code_simp
  have "lru_ok (he_lru demo_env) (\<lambda>(n, m). length m) fst" by (simp add: demo_env_def lru_ok_list)
  from nonce_maps_hold_latest_exchange [OF this refl, of True ?rs demo_http_info] x show ?thesis
    by (simp add: Let_def demo_env_def list_lru_def)
qed

text \<open>
  The nonce endpoint answers every attached client. A well-formed nonce of 16 to 128 bytes gets
  status 200 and the fresh server nonce in base64url; everything else gets 400, or 500 when the body
  could not be read, and leaves the state alone.
\<close>

theorem nonce_endpoint_answers:
  assumes "rq_has_state req" "rq_client_info req = Some c" "rq_method req = ''POST''"
    and "rq_path req = ''/api/localsend/v3/nonce''"
    and "handle_request E rng legacy req s = (response, s')"
  shows "(case exchange_of E rng req of
            Some (k, n, u) \<Rightarrow>
              k = client_identifier (he_x509 E) c \<and> u = generate_nonce rng \<and> 16 \<le> length n \<and> length n \<le> 128 \<and>
              response = json_into_response 200
                (ser_nonce_response (he_json E) \<lparr> res_nonce = encode (he_crypto E) u \<rparr>)
          | None \<Rightarrow> s' = s \<and> res_status response = (if rq_body req = None then 500 else 400))"
  using nonce_endpoint_cases [OF assms] .

theorem nonce_endpoint_answers_witness:
  "exchange_of demo_env (\<lambda>n. replicate n 2) (demo_nonce_request [5]) =
     Some (bytes_string [5], replicate 32 1, replicate 32 2) \<and>
   fst (handle_request demo_env (\<lambda>n. replicate n 2) True (demo_nonce_request [5]) (http_state_new list_lru demo_http_info)) =
     json_into_response 200 (Some (encode demo_crypto (replicate 32 2)))"
proof -
  have x: "exchange_of demo_env (\<lambda>n. replicate n 2) (demo_nonce_request [5]) =
     Some (bytes_string [5], replicate 32 1, replicate 32 2)" by code_simp
  obtain r s' where h: "handle_request demo_env (\<lambda>n. replicate n 2) True (demo_nonce_request [5])
      (http_state_new list_lru demo_http_info) = (r, s')" by fastforce
  have p: "rq_has_state (demo_nonce_request [5])"
    "rq_client_info (demo_nonce_request [5]) = Some \<lparr> rci_ip = V4 10 0 0 1, rci_cert = Some [5] \<rparr>"
    "rq_method (demo_nonce_request [5]) = ''POST''" "rq_path (demo_nonce_request [5]) = ''/api/localsend/v3/nonce''"
    by (simp_all add: demo_nonce_request_def)
  have "r = json_into_response 200 (ser_nonce_response (he_json demo_env)
      \<lparr> res_nonce = encode (he_crypto demo_env) (replicate 32 2) \<rparr>)"
    using nonce_endpoint_answers [OF p h] by (simp add: x)
  with x h show ?thesis by (simp add: demo_env_def demo_json_def)
qed

text \<open>
  With the legacy protocol disabled every v2 route is hidden; with it enabled, the routes for
  preparing, uploading and cancelling all run the register handler.
\<close>

theorem v2_routes_run_register:
  "list_all (\<lambda>path.
     res_status (fst (serve_request E rng False c ''POST'' path body s)) = 404 \<and>
     snd (serve_request E rng False c ''POST'' path body s) = s \<and>
     serve_request E rng True c ''POST'' path body s =
       serve_request E rng True c ''POST'' ''/api/localsend/v2/register'' body s)
   [''/api/localsend/v2/register'', ''/api/localsend/v2/prepare-upload'',
    ''/api/localsend/v2/upload'', ''/api/localsend/v2/cancel'']"
  by (simp add: serve_request_def handle_request_def handle_request_inner_def app_error_to_response_def)

text \<open>
  A client let in by the certificate verifier holds a valid certificate that is signed by its
  own key, and its nonces are filed under that key, wherever it connects from.
\<close>

theorem accepted_client_filed_under_its_key:
  assumes "verify_client_cert X der = Ok ()"
  shows "\<exists>cert. x509_from_der X der = Some cert \<and> validity_is_valid X cert \<and> cert_verify_signature X cert \<and>
     tls_client_info ip (Some (der # chain)) = Ok \<lparr> rci_ip = ip, rci_cert = Some der \<rparr> \<and>
     client_identifier X \<lparr> rci_ip = ip, rci_cert = Some der \<rparr> =
       pem_encode X ''PUBLIC KEY'' (spki_raw X (subject_pki X cert))"
  using assms
  by (auto simp: verify_client_cert_def verify_cert_from_der_def outcome_simps verify_cert_from_cert_Ok_iff
      client_identifier_def extract_public_key_def public_key_from_cert_der_def public_key_from_cert_def
      tls_client_info_def)

theorem accepted_client_filed_under_its_key_witness:
  "verify_client_cert demo_x509 [5] = Ok () \<and>
   client_identifier demo_x509 \<lparr> rci_ip = V4 10 0 0 1, rci_cert = Some [5] \<rparr> = bytes_string [5]"
proof -
  have v: "verify_client_cert demo_x509 [5] = Ok ()" by code_simp
  from accepted_client_filed_under_its_key [OF v, of "V4 10 0 0 1" "[]"] v show ?thesis
    by (auto simp: demo_x509_def)
qed

end
