(* ===== verification/Http_Client.thy ===== *)
theory Http_Client
  imports Http_Server
begin

text \<open>
  The HTTP client of \<open>core/src/http/client\<close>: URLs, the five calls, certificate checks on
  responses and the errors made of them.

  reqwest is the argument \<open>post\<close>: from a URL and a body to a response, on a state \<open>'n\<close> of
  the network, \<open>None\<close> when sending fails. A call takes the client's two nonce maps and returns
  them with its result.

  The facts: which URL each call uses and which of them cannot name an IPv6 host, what pinning a key
  checks, how a failed response becomes an error, and that an exchange with the server of theory
  \<open>Http_Server\<close> leaves both sides with the same pair of nonces.
\<close>

section \<open>URLs\<close>

datatype api_version = ApiV2 | ApiV3

record target_url =
  tu_version :: api_version
  tu_protocol :: protocol_type
  tu_host :: string
  tu_port :: u16
  tu_path :: string

definition target_url_to_string :: "target_url \<Rightarrow> string" where
  "target_url_to_string u =
     protocol_as_str (tu_protocol u) @ ''://'' @
     (if CHR '':'' \<in> set (tu_host u) then ''['' @ tu_host u @ '']'' else tu_host u) @ '':'' @
     format_radix 10 (unat (tu_port u)) @ ''/api/localsend/'' @
     (case tu_version u of ApiV2 \<Rightarrow> ''v2'' | ApiV3 \<Rightarrow> ''v3'') @ tu_path u"

definition BASE_PATH :: string where
  "BASE_PATH = ''/api/localsend/v3''"

text \<open>The \<open>format!\<close> calls of register, prepare_upload, upload and cancel.\<close>

definition base_url :: "protocol_type \<Rightarrow> string \<Rightarrow> u16 \<Rightarrow> string" where
  "base_url protocol ip port =
     protocol_as_str protocol @ ''://'' @ ip @ '':'' @ format_radix 10 (unat port) @ BASE_PATH"

definition register_url :: "protocol_type \<Rightarrow> string \<Rightarrow> u16 \<Rightarrow> string" where
  "register_url protocol ip port = base_url protocol ip port @ ''/register''"

definition prepare_upload_url :: "protocol_type \<Rightarrow> string \<Rightarrow> u16 \<Rightarrow> string" where
  "prepare_upload_url protocol ip port = base_url protocol ip port @ ''/prepare-upload''"

definition upload_url :: "protocol_type \<Rightarrow> string \<Rightarrow> u16 \<Rightarrow> string \<Rightarrow> string \<Rightarrow> string \<Rightarrow> string" where
  "upload_url protocol ip port session_id file_id token =
     base_url protocol ip port @ ''/upload?sessionId='' @ session_id @ ''&fileId='' @ file_id @
     ''&token='' @ token"

definition cancel_url :: "protocol_type \<Rightarrow> string \<Rightarrow> u16 \<Rightarrow> string \<Rightarrow> string" where
  "cancel_url protocol ip port session_id = base_url protocol ip port @ ''/cancel?sessionId='' @ session_id"

section \<open>Responses and errors\<close>

text \<open>
  \<open>cr_body\<close> is \<open>None\<close> when reading the body fails; \<open>cr_tls_info\<close> is the extension
  \<open>TlsInfo\<close> with its peer certificate. \<open>text()\<close> replaces ill-formed UTF-8; the model keeps
  the bytes.
\<close>

record client_response =
  cr_status :: u16
  cr_body :: "bytes option"
  cr_remote_addr :: "ip_addr option"
  cr_tls_info :: "bytes option option"

datatype http_client_error =
    ClientError error
  | StatusCodeError u16 "string option"
  | ClientPanic string

type_synonym 'a client_result = "http_client_error + 'a"

fun client_res :: "'a res \<Rightarrow> 'a client_result" where
  "client_res (Ok x) = Inr x"
| "client_res (Err e) = Inl (ClientError e)"
| "client_res (Panic p) = Inl (ClientPanic p)"

fun client_bind :: "'a client_result \<Rightarrow> ('a \<Rightarrow> 'b client_result) \<Rightarrow> 'b client_result" where
  "client_bind (Inr x) f = f x"
| "client_bind (Inl e) f = Inl e"

definition status_code_error_from_res :: "json_lib \<Rightarrow> client_response \<Rightarrow> http_client_error client_result" where
  "status_code_error_from_res J response =
     (case cr_body response of
        None \<Rightarrow> Inl (ClientError (Lib ''text''))
      | Some body \<Rightarrow>
          (let message = (case de_error_response J body of
                 Some e \<Rightarrow> err_message e | None \<Rightarrow> bytes_string body)
           in Inr (StatusCodeError (cr_status response) (if message = [] then None else Some message))))"

text \<open>\<open>return Err(status_code_error_from_res(res).await?)\<close>\<close>

definition fail_status :: "json_lib \<Rightarrow> client_response \<Rightarrow> 'a client_result" where
  "fail_status J response = client_bind (status_code_error_from_res J response) Inl"

definition response_json :: "(bytes \<Rightarrow> 'a option) \<Rightarrow> client_response \<Rightarrow> 'a client_result" where
  "response_json de response =
     client_res (of_option (Lib ''json'') (Option.bind (cr_body response) de))"

definition verify_cert_from_res ::
  "('cert, 'spki, 'pk) x509_lib \<Rightarrow> client_response \<Rightarrow> string option \<Rightarrow> string res" where
  "verify_cert_from_res X response public_key =
     (case cr_tls_info response of
        None \<Rightarrow> Err (Anyhow ''TLS info not found'')
      | Some None \<Rightarrow> Err (Anyhow ''Certificate not found'')
      | Some (Some cert) \<Rightarrow>
          res_bind (case public_key of Some k \<Rightarrow> Ok k | None \<Rightarrow> public_key_from_cert_der X cert) (\<lambda>k.
          res_bind (verify_cert_from_der X cert (Some k)) (\<lambda>u. Ok k)))"

definition to_identifier ::
  "('cert, 'spki, 'pk) x509_lib \<Rightarrow> client_response \<Rightarrow> bool \<Rightarrow> string option \<Rightarrow> string res" where
  "to_identifier X response require_cert public_key =
     (if require_cert then verify_cert_from_res X response public_key
      else of_option (Anyhow ''Remote address not found in response'')
        (map_option ip_to_string (cr_remote_addr response)))"

section \<open>The client\<close>

record 'c http_client =
  hc_received_nonce_map :: 'c
  hc_generated_nonce_map :: 'c

definition http_client_new :: "'c lru_lib \<Rightarrow> 'c http_client" where
  "http_client_new K = \<lparr> hc_received_nonce_map = lru_new K 200, hc_generated_nonce_map = lru_new K 200 \<rparr>"

text \<open>The identity of \<open>try_new\<close>: certificate and key in one PEM; both library calls may fail.\<close>

definition http_client_try_new ::
  "'c lru_lib \<Rightarrow> (bytes \<Rightarrow> 'id option) \<Rightarrow> ('id \<Rightarrow> 'client option) \<Rightarrow> string \<Rightarrow> string \<Rightarrow>
     ('client \<times> 'c http_client) client_result" where
  "http_client_try_new K identity_from_pem build private_key cert =
     client_res
       (res_bind (of_option (Lib ''from_pem'')
          (identity_from_pem (as_bytes cert @ as_bytes [CHR 0x0A] @ as_bytes private_key))) (\<lambda>identity.
        res_bind (of_option (Lib ''build'') (build identity)) (\<lambda>client.
        Ok (client, http_client_new K))))"

type_synonym 'n transport = "string \<Rightarrow> bytes \<Rightarrow> 'n \<Rightarrow> client_response option \<times> 'n"

text \<open>The debug output of \<open>nonce\<close> looks both nonces up again and unwraps them.\<close>

definition debug_maps :: "'c lru_lib \<Rightarrow> bool \<Rightarrow> string \<Rightarrow> 'c http_client \<Rightarrow> unit client_result \<times> 'c http_client" where
  "debug_maps K debug_enabled remote_key c =
     (if \<not> debug_enabled then (Inr (), c)
      else
        (let (r, received) = lru_get K (hc_received_nonce_map c) remote_key;
             c1 = c\<lparr> hc_received_nonce_map := received \<rparr>
         in case r of
              None \<Rightarrow> (Inl (ClientPanic ''called `Option::unwrap()` on a `None` value''), c1)
            | Some n \<Rightarrow>
                (let (g, generated) = lru_get K (hc_generated_nonce_map c1) remote_key;
                     c2 = c1\<lparr> hc_generated_nonce_map := generated \<rparr>
                 in case g of
                      None \<Rightarrow> (Inl (ClientPanic ''called `Option::unwrap()` on a `None` value''), c2)
                    | Some u \<Rightarrow> (Inr (), c2))))"

text \<open>What \<open>nonce\<close> does with a response: the key and nonce to store, and the returned string.\<close>

definition nonce_from_response ::
  "('sk, 'vk, 'rk, 'cert, 'spki, 'pk, 'c) http_env \<Rightarrow> protocol_type \<Rightarrow> client_response \<Rightarrow>
     (string \<times> bytes \<times> string) client_result" where
  "nonce_from_response E protocol res =
     (if cr_status res \<noteq> 200 then fail_status (he_json E) res
      else
        client_bind (client_res (to_identifier (he_x509 E) res (protocol = Https) None)) (\<lambda>remote_key.
        client_bind (response_json (de_nonce_response (he_json E)) res) (\<lambda>body.
        client_bind (client_res (decode (he_crypto E) (res_nonce body))) (\<lambda>response_nonce.
        Inr (remote_key, response_nonce, res_nonce body)))))"

definition client_nonce ::
  "('sk, 'vk, 'rk, 'cert, 'spki, 'pk, 'c) http_env \<Rightarrow> (nat \<Rightarrow> bytes) \<Rightarrow> bool \<Rightarrow> 'n transport \<Rightarrow>
     protocol_type \<Rightarrow> string \<Rightarrow> u16 \<Rightarrow> 'c http_client \<Rightarrow> 'n \<Rightarrow>
     string client_result \<times> 'c http_client \<times> 'n" where
  "client_nonce E rng debug_enabled post protocol ip port c net =
     (let generated_nonce = generate_nonce rng;
          url = target_url_to_string \<lparr> tu_version = ApiV3, tu_protocol = protocol, tu_host = ip,
                  tu_port = port, tu_path = ''/nonce'' \<rparr>;
          request_body = ser_nonce_request (he_json E) \<lparr> req_nonce = encode (he_crypto E) generated_nonce \<rparr>;
          (sent, net') = post url (as_bytes request_body) net
      in case sent of
           None \<Rightarrow> (Inl (ClientError (Lib ''send'')), c, net')
         | Some res \<Rightarrow>
             (case nonce_from_response E protocol res of
                Inl e \<Rightarrow> (Inl e, c, net')
              | Inr (remote_key, response_nonce, nonce) \<Rightarrow>
                  (let c1 = c\<lparr> hc_received_nonce_map :=
                               lru_put (he_lru E) (hc_received_nonce_map c) remote_key response_nonce,
                              hc_generated_nonce_map :=
                               lru_put (he_lru E) (hc_generated_nonce_map c) remote_key generated_nonce \<rparr>;
                       (d, c2) = debug_maps (he_lru E) debug_enabled remote_key c1
                   in (client_bind d (\<lambda>u. Inr nonce), c2, net'))))"

record register_result =
  rres_public_key :: "string option"
  rres_body :: register_response_dto

definition client_register ::
  "('sk, 'vk, 'rk, 'cert, 'spki, 'pk, 'c) http_env \<Rightarrow> 'n transport \<Rightarrow> protocol_type \<Rightarrow> string \<Rightarrow> u16 \<Rightarrow>
     register_dto \<Rightarrow> 'n \<Rightarrow> register_result client_result \<times> 'n" where
  "client_register E post protocol ip port payload net =
     (let (sent, net') = post (register_url protocol ip port) (as_bytes (ser_register_dto (he_json E) payload)) net
      in (client_bind (client_res (of_option (Lib ''send'') sent)) (\<lambda>res.
          client_bind (case protocol of
              Https \<Rightarrow> client_bind (client_res (verify_cert_from_res (he_x509 E) res None)) (\<lambda>k. Inr (Some k))
            | Http \<Rightarrow> Inr None) (\<lambda>public_key.
          client_bind (response_json (de_register_response (he_json E)) res) (\<lambda>body.
          Inr \<lparr> rres_public_key = public_key, rres_body = body \<rparr>))), net'))"

definition client_prepare_upload ::
  "('sk, 'vk, 'rk, 'cert, 'spki, 'pk, 'c) http_env \<Rightarrow> 'n transport \<Rightarrow> protocol_type \<Rightarrow> string \<Rightarrow> u16 \<Rightarrow>
     string option \<Rightarrow> prepare_upload_request_dto \<Rightarrow> 'n \<Rightarrow> prepare_upload_response_dto client_result \<times> 'n" where
  "client_prepare_upload E post protocol ip port public_key payload net =
     (let (sent, net') = post (prepare_upload_url protocol ip port)
                           (as_bytes (ser_prepare_upload (he_json E) payload)) net
      in (client_bind (client_res (of_option (Lib ''send'') sent)) (\<lambda>res.
          client_bind (case public_key of
              Some k \<Rightarrow> client_res (verify_cert_from_res (he_x509 E) res (Some k))
            | None \<Rightarrow> Inr []) (\<lambda>checked.
          if cr_status res \<noteq> 200 then fail_status (he_json E) res
          else response_json (de_prepare_upload_response (he_json E)) res)), net'))"

definition client_upload ::
  "('sk, 'vk, 'rk, 'cert, 'spki, 'pk, 'c) http_env \<Rightarrow> 'n transport \<Rightarrow> protocol_type \<Rightarrow> string \<Rightarrow> u16 \<Rightarrow>
     string \<Rightarrow> string \<Rightarrow> string \<Rightarrow> bytes list \<Rightarrow> 'n \<Rightarrow> unit client_result \<times> 'n" where
  "client_upload E post protocol ip port session_id file_id token binary net =
     (let (sent, net') = post (upload_url protocol ip port session_id file_id token) (concat binary) net
      in (client_bind (client_res (of_option (Lib ''send'') sent)) (\<lambda>res.
          if cr_status res \<noteq> 200 then fail_status (he_json E) res else Inr ()), net'))"

definition client_cancel ::
  "('sk, 'vk, 'rk, 'cert, 'spki, 'pk, 'c) http_env \<Rightarrow> 'n transport \<Rightarrow> protocol_type \<Rightarrow> string \<Rightarrow> u16 \<Rightarrow>
     string \<Rightarrow> 'n \<Rightarrow> unit client_result \<times> 'n" where
  "client_cancel E post protocol ip port session_id net =
     (let (sent, net') = post (cancel_url protocol ip port session_id) [] net
      in (client_bind (client_res (of_option (Lib ''send'') sent)) (\<lambda>res. Inr ()), net'))"

section \<open>Specification vocabulary\<close>

text \<open>
  The network that leads to the server: \<open>client\<close> is how the server sees the caller,
  \<open>address\<close> and \<open>tls\<close> how the caller sees the server. A client that posts to a path of
  the server is answered by \<open>serve_request\<close>.
\<close>

definition url_path :: "string \<Rightarrow> string" where
  "url_path url = dropWhile (\<lambda>c. c \<noteq> CHR ''/'') (drop (length ''https://'') url)"

definition to_server ::
  "('sk, 'vk, 'rk, 'cert, 'spki, 'pk, 'c) http_env \<Rightarrow> (nat \<Rightarrow> bytes) \<Rightarrow> request_client_info \<Rightarrow>
     ip_addr \<Rightarrow> bytes option option \<Rightarrow> 'c http_state transport" where
  "to_server E rng client address tls url body s =
     (let (response, s') = serve_request E rng True client ''POST'' (url_path url) (Some body) s
      in (Some \<lparr> cr_status = of_nat (res_status response), cr_body = Some (res_body response),
                 cr_remote_addr = Some address, cr_tls_info = tls \<rparr>, s'))"

text \<open>What the exchange relies on in serde_json: nonce messages are read back.\<close>

definition nonce_json_ok :: "json_lib \<Rightarrow> bool" where
  "nonce_json_ok J \<longleftrightarrow>
     (\<forall>x. de_nonce_request J (as_bytes (ser_nonce_request J x)) = Some x) \<and>
     (\<forall>x s. ser_nonce_response J x = Some s \<longrightarrow> de_nonce_response J (as_bytes s) = Some x) \<and>
     (\<forall>x. ser_nonce_response J x \<noteq> None)"

definition demo_register_dto :: register_dto where
  "demo_register_dto =
     \<lparr> reg_alias = ''phone'', reg_version = ''2.1'', reg_device_model = None, reg_device_type = Some Mobile,
       reg_token = [], reg_port = 53317, reg_protocol = Https, reg_has_web_interface = False \<rparr>"

text \<open>A network on which every request gets the same response.\<close>

definition answer_with :: "client_response \<Rightarrow> unit transport" where
  "answer_with res url body net = (Some res, net)"

section \<open>Facts\<close>

lemma client_bind_eq_Inr: "client_bind r f = Inr y \<longleftrightarrow> (\<exists>x. r = Inr x \<and> f x = Inr y)"
  by (cases r) simp_all

lemma client_res_eq_Inr: "client_res r = Inr x \<longleftrightarrow> r = Ok x"
  by (cases r) simp_all

lemma client_bind_eq_Inl: "client_bind r f = Inl e \<longleftrightarrow> r = Inl e \<or> (\<exists>x. r = Inr x \<and> f x = Inl e)"
  by (cases r) simp_all

lemma client_res_eq_panic: "client_res r = Inl (ClientPanic q) \<longleftrightarrow> r = Panic q"
  by (cases r) simp_all

lemma decode_not_Panic [simp]: "decode L s \<noteq> Panic q"
  by (simp add: decode_def)

lemma fail_status_not_panic [simp]: "fail_status J res \<noteq> Inl (ClientPanic q)"
  by (simp add: fail_status_def status_code_error_from_res_def Let_def split: option.splits)

lemma lru_new_list [simp]: "lru_new list_lru n = (n, [])"
  by (simp add: list_lru_def)

lemma fail_status_not_Inr [simp]: "fail_status J res \<noteq> Inr x"
  by (simp add: fail_status_def status_code_error_from_res_def Let_def split: option.splits)

lemma digit_no_slash: "d < 16 \<Longrightarrow> CHR ''/'' \<noteq> digit d"
proof -
  have "\<forall>d < 16. CHR ''/'' \<noteq> digit d" by (simp add: digit_def numeral_eq_Suc less_Suc_eq)
  then show "d < 16 \<Longrightarrow> CHR ''/'' \<noteq> digit d" by simp
qed

lemma format_radix_no_slash: "2 \<le> b \<Longrightarrow> b \<le> 16 \<Longrightarrow> CHR ''/'' \<notin> set (format_radix b n)"
proof (induction b n rule: format_radix.induct)
  case (1 b n)
  have lt: "n < b \<Longrightarrow> n < 16" "n mod b < 16"
    using 1 mod_less_divisor [of b n] by linarith+
  show ?case
    using 1 lt digit_no_slash [of n] digit_no_slash [of "n mod b"]
    by (subst format_radix.simps) auto
qed

lemma url_path_nonce:
  assumes "ip \<noteq> []" "CHR ''/'' \<notin> set ip"
  shows "url_path (target_url_to_string \<lparr> tu_version = ApiV3, tu_protocol = protocol, tu_host = ip,
       tu_port = port, tu_path = ''/nonce'' \<rparr>) = ''/api/localsend/v3/nonce''"
proof -
  let ?p = "format_radix 10 (unat port)"
  have skip: "dropWhile (\<lambda>c. c \<noteq> CHR ''/'') (a @ CHR ''/'' # r) = CHR ''/'' # r"
    if "CHR ''/'' \<notin> set a" for a r :: string
    using that by (subst dropWhile_append2) auto
  obtain h hs where ip: "ip = h # hs" using assms(1) by (cases ip) auto
  define host where "host = (if CHR '':'' \<in> set ip then ''['' @ ip @ '']'' else ip)"
  have host: "CHR ''/'' \<notin> set host" "host \<noteq> []" using assms(2) by (auto simp: host_def ip)
  define rest where "rest = tl host @ '':'' @ ?p"
  have "CHR ''/'' \<notin> set rest" "CHR ''/'' \<notin> set (hd host # rest)"
    using host format_radix_no_slash [of 10 "unat port"] by (cases host; auto simp: rest_def)+
  moreover have "host @ '':'' @ ?p = hd host # rest" using host(2) by (simp add: rest_def)
  moreover have "target_url_to_string \<lparr> tu_version = ApiV3, tu_protocol = protocol, tu_host = ip,
       tu_port = port, tu_path = ''/nonce'' \<rparr> =
     protocol_as_str protocol @ ''://'' @ (host @ '':'' @ ?p) @ ''/api/localsend/v3/nonce''"
    by (simp add: target_url_to_string_def host_def)
  ultimately show ?thesis
    by (cases protocol) (simp_all add: url_path_def skip [of rest] skip [of "hd host # rest", simplified])
qed

lemma verify_cert_not_Panic [simp]: "verify_cert_from_der X der k \<noteq> Panic p"
  by (auto simp: verify_cert_from_der_def verify_cert_from_cert_def res_bind_eq_Panic map_err_eq_Panic
      split: option.splits if_splits)

lemma public_key_not_Panic [simp]: "public_key_from_cert_der X der \<noteq> Panic p"
  by (auto simp: public_key_from_cert_der_def public_key_from_cert_def res_bind_eq_Panic)

lemma to_identifier_not_Panic [simp]: "to_identifier X res b k \<noteq> Panic p"
  by (auto simp: to_identifier_def verify_cert_from_res_def res_bind_eq_Panic split: option.splits)

lemma debug_maps_keeps:
  assumes "lru_ok K size_of capacity"
    and "fst (lru_get K (hc_received_nonce_map c) k) = Some n"
    and "fst (lru_get K (hc_generated_nonce_map c) k) = Some u"
  shows "\<exists>c2. debug_maps K d k c = (Inr (), c2) \<and>
     (\<forall>j. fst (lru_get K (hc_received_nonce_map c2) j) = fst (lru_get K (hc_received_nonce_map c) j) \<and>
          fst (lru_get K (hc_generated_nonce_map c2) j) = fst (lru_get K (hc_generated_nonce_map c) j))"
  using assms(2,3) nonce_cache.get_get [OF assms(1) [unfolded lru_ok_def]]
  by (auto simp: debug_maps_def Let_def case_prod_beta split: option.splits)

text \<open>A successful call of \<open>nonce\<close>: what was posted, answered and stored.\<close>

lemma client_nonce_stores:
  assumes K: "lru_ok (he_lru E) size_of capacity"
    and cap: "0 < capacity (hc_received_nonce_map c)" "0 < capacity (hc_generated_nonce_map c)"
    and sent: "post (target_url_to_string \<lparr> tu_version = ApiV3, tu_protocol = protocol, tu_host = ip,
                  tu_port = port, tu_path = ''/nonce'' \<rparr>)
          (as_bytes (ser_nonce_request (he_json E) \<lparr> req_nonce = encode (he_crypto E) (generate_nonce rng) \<rparr>)) net =
        (Some res, net')"
    and "nonce_from_response E protocol res = Inr (k, n, answer)"
  shows "\<exists>c'. client_nonce E rng d post protocol ip port c net = (Inr answer, c', net') \<and>
     fst (lru_get (he_lru E) (hc_received_nonce_map c') k) = Some n \<and>
     fst (lru_get (he_lru E) (hc_generated_nonce_map c') k) = Some (generate_nonce rng)"
proof -
  let ?c1 = "c\<lparr> hc_received_nonce_map := lru_put (he_lru E) (hc_received_nonce_map c) k n,
                hc_generated_nonce_map := lru_put (he_lru E) (hc_generated_nonce_map c) k (generate_nonce rng) \<rparr>"
  note put = nonce_cache.get_put_same [OF K [unfolded lru_ok_def]]
  have g: "fst (lru_get (he_lru E) (hc_received_nonce_map ?c1) k) = Some n"
    "fst (lru_get (he_lru E) (hc_generated_nonce_map ?c1) k) = Some (generate_nonce rng)"
    using put cap by simp_all
  from debug_maps_keeps [OF K g, of d] obtain c2 where "debug_maps (he_lru E) d k ?c1 = (Inr (), c2)"
    "fst (lru_get (he_lru E) (hc_received_nonce_map c2) k) = Some n"
    "fst (lru_get (he_lru E) (hc_generated_nonce_map c2) k) = Some (generate_nonce rng)"
    using g by auto
  then show ?thesis using sent assms(5) by (simp add: client_nonce_def Let_def)
qed

text \<open>The server of this crate answers a nonce request: what comes back, and what it has stored.\<close>

lemma nonce_answered:
  assumes "base64_engine (base64_encode (he_crypto E)) (base64_decode (he_crypto E))"
    and "nonce_json_ok (he_json E)" "ip \<noteq> []" "CHR ''/'' \<notin> set ip" "validate_nonce (generate_nonce rng_c)"
    and "to_identifier (he_x509 E)
           \<lparr> cr_status = 200, cr_body = None, cr_remote_addr = Some address, cr_tls_info = tls \<rparr>
           (protocol = Https) None = Ok k"
    and "i = client_identifier (he_x509 E) client"
  shows "\<exists>res. to_server E rng_s client address tls
       (target_url_to_string \<lparr> tu_version = ApiV3, tu_protocol = protocol, tu_host = ip, tu_port = port, tu_path = ''/nonce'' \<rparr>)
       (as_bytes (ser_nonce_request (he_json E) \<lparr> req_nonce = encode (he_crypto E) (generate_nonce rng_c) \<rparr>)) s =
     (Some res, s\<lparr> hs_received_nonce_map := lru_put (he_lru E) (hs_received_nonce_map s) i (generate_nonce rng_c),
                  hs_generated_nonce_map := lru_put (he_lru E) (hs_generated_nonce_map s) i (generate_nonce rng_s) \<rparr>) \<and>
     nonce_from_response E protocol res = Inr (k, generate_nonce rng_s, encode (he_crypto E) (generate_nonce rng_s))"
proof -
  let ?J = "he_json E"
  let ?u = "generate_nonce rng_s"
  let ?body = "as_bytes (ser_nonce_request ?J \<lparr> req_nonce = encode (he_crypto E) (generate_nonce rng_c) \<rparr>)"
  let ?req = "\<lparr> rq_method = ''POST'', rq_path = ''/api/localsend/v3/nonce'', rq_body = Some ?body,
      rq_has_state = True, rq_client_info = Some client \<rparr>"
  note dec = base64_engine.dec_enc [OF assms(1)]
  obtain response s1 where h: "handle_request E rng_s True ?req s = (response, s1)" by fastforce
  have x: "exchange_of E rng_s ?req = Some (i, generate_nonce rng_c, ?u)"
    using assms(2,5,7) dec by (simp add: exchange_of_def nonce_json_ok_def encode_def)
  obtain t where t: "ser_nonce_response ?J \<lparr> res_nonce = encode (he_crypto E) ?u \<rparr> = Some t"
    "de_nonce_response ?J (as_bytes t) = Some \<lparr> res_nonce = encode (he_crypto E) ?u \<rparr>"
    using assms(2) unfolding nonce_json_ok_def by blast
  have resp: "response = json_into_response 200 (Some t)"
    using nonce_endpoint_cases [OF _ _ _ _ h, of client] x t(1) by simp
  let ?res = "\<lparr> cr_status = 200, cr_body = Some (as_bytes t), cr_remote_addr = Some address, cr_tls_info = tls \<rparr>"
  have "to_identifier (he_x509 E) ?res (protocol = Https) None = Ok k"
    using assms(6) by (cases protocol) (simp_all add: to_identifier_def verify_cert_from_res_def)
  then have "nonce_from_response E protocol ?res = Inr (k, ?u, encode (he_crypto E) ?u)"
    using t(2) dec by (simp add: nonce_from_response_def response_json_def decode_def encode_def)
  then show ?thesis
    using h resp handle_request_exchange [of E rng_s True ?req s] x
    by (intro exI [of _ ?res]) (simp add: to_server_def serve_request_def url_path_nonce [OF assms(3,4)])
qed

section \<open>Properties\<close>

text \<open>
  C28: an exchange between this client and this server, when the client can name the server (its
  certificate is valid, or its address is known): the call returns the server's nonce, and both
  sides hold the same pair of nonces with the roles swapped, each under its name for the other.
\<close>

theorem nonce_exchange_agrees:
  assumes "lru_ok (he_lru E) size_of capacity" "base64_engine (base64_encode (he_crypto E)) (base64_decode (he_crypto E))"
    and "nonce_json_ok (he_json E)" "ip \<noteq> []" "CHR ''/'' \<notin> set ip"
    and "0 < capacity (hc_received_nonce_map c)" "0 < capacity (hc_generated_nonce_map c)"
    and "0 < capacity (hs_received_nonce_map s)" "0 < capacity (hs_generated_nonce_map s)"
    and "validate_nonce (generate_nonce rng_c)"
    and "to_identifier (he_x509 E)
           \<lparr> cr_status = 200, cr_body = None, cr_remote_addr = Some address, cr_tls_info = tls \<rparr>
           (protocol = Https) None = Ok k"
  shows "\<exists>c' s'. client_nonce E rng_c d (to_server E rng_s client address tls) protocol ip port c s =
       (Inr (encode (he_crypto E) (generate_nonce rng_s)), c', s') \<and>
     fst (lru_get (he_lru E) (hc_received_nonce_map c') k) = Some (generate_nonce rng_s) \<and>
     fst (lru_get (he_lru E) (hc_generated_nonce_map c') k) = Some (generate_nonce rng_c) \<and>
     fst (lru_get (he_lru E) (hs_received_nonce_map s') (client_identifier (he_x509 E) client)) = Some (generate_nonce rng_c) \<and>
     fst (lru_get (he_lru E) (hs_generated_nonce_map s') (client_identifier (he_x509 E) client)) = Some (generate_nonce rng_s)"
proof -
  let ?id = "client_identifier (he_x509 E) client"
  from nonce_answered [OF assms(2-5,10,11) refl, of rng_s client port s] obtain res where
    post: "to_server E rng_s client address tls
        (target_url_to_string \<lparr> tu_version = ApiV3, tu_protocol = protocol, tu_host = ip, tu_port = port, tu_path = ''/nonce'' \<rparr>)
        (as_bytes (ser_nonce_request (he_json E) \<lparr> req_nonce = encode (he_crypto E) (generate_nonce rng_c) \<rparr>)) s =
      (Some res, s\<lparr> hs_received_nonce_map := lru_put (he_lru E) (hs_received_nonce_map s) ?id (generate_nonce rng_c),
                  hs_generated_nonce_map := lru_put (he_lru E) (hs_generated_nonce_map s) ?id (generate_nonce rng_s) \<rparr>)"
    and r: "nonce_from_response E protocol res = Inr (k, generate_nonce rng_s, encode (he_crypto E) (generate_nonce rng_s))"
    by blast
  have put: "fst (lru_get (he_lru E) (lru_put (he_lru E) m i v) i) = Some v" if "0 < capacity m" for m i v
    by (rule nonce_cache.get_put_same [OF assms(1) [unfolded lru_ok_def] that])
  from client_nonce_stores [where post = "to_server E rng_s client address tls" and rng = rng_c and net = s and d = d,
      OF assms(1,6,7) post r]
  show ?thesis using put [OF assms(8)] put [OF assms(9)] by (elim exE conjE) simp
qed

theorem nonce_exchange_agrees_witness:
  "\<exists>c s. client_nonce demo_env (\<lambda>n. replicate n 1) True
       (to_server demo_env (\<lambda>n. replicate n 2) \<lparr> rci_ip = V4 10 0 0 1, rci_cert = Some [5] \<rparr>
         (V4 10 0 0 2) (Some (Some [6]))) Https ''fe80::1'' 53317
       (http_client_new list_lru) (http_state_new list_lru demo_http_info) =
       (Inr (encode demo_crypto (replicate 32 2)), c, s) \<and>
     fst (lc_get (hc_received_nonce_map c) (bytes_string [6])) = Some (replicate 32 2) \<and>
     fst (lc_get (hs_received_nonce_map s) (bytes_string [5])) = Some (replicate 32 1)"
proof -
  have K: "lru_ok (he_lru demo_env) (\<lambda>(n, m). length m) fst"
    "base64_engine (base64_encode (he_crypto demo_env)) (base64_decode (he_crypto demo_env))"
    "nonce_json_ok (he_json demo_env)"
    by (simp_all add: demo_env_def lru_ok_list demo_base64 nonce_json_ok_def demo_json_def)
  have v: "validate_nonce (generate_nonce (\<lambda>n. replicate n 1))"
    by (simp add: validate_nonce_def generate_nonce_def)
  have i: "to_identifier (he_x509 demo_env)
           \<lparr> cr_status = 200, cr_body = None, cr_remote_addr = Some (V4 10 0 0 2), cr_tls_info = Some (Some [6]) \<rparr>
           (Https = Https) None = Ok (bytes_string [6])"
    "client_identifier demo_x509 \<lparr> rci_ip = V4 10 0 0 1, rci_cert = Some [5] \<rparr> = bytes_string [5]"
    by code_simp+
  have new: "0 < fst (hc_received_nonce_map (http_client_new list_lru))"
    "0 < fst (hc_generated_nonce_map (http_client_new list_lru))"
    "0 < fst (hs_received_nonce_map (http_state_new list_lru demo_http_info))"
    "0 < fst (hs_generated_nonce_map (http_state_new list_lru demo_http_info))"
    by (simp_all add: http_client_new_def http_state_new_def)
  from nonce_exchange_agrees [OF K _ _ new v i(1), of "''fe80::1''" True
      "\<lambda>n. replicate n 2" "\<lparr> rci_ip = V4 10 0 0 1, rci_cert = Some [5] \<rparr>" 53317]
  show ?thesis
    by (auto simp: i(2) demo_env_def generate_nonce_def list_lru_def)
qed

text \<open>
  The call \<open>nonce\<close> never panics, whatever the network answers: the two look-ups of its debug
  output follow stores under the same key into caches of positive capacity.
\<close>

theorem client_nonce_never_panics:
  assumes "lru_ok (he_lru E) size_of capacity"
    and "0 < capacity (hc_received_nonce_map c)" "0 < capacity (hc_generated_nonce_map c)"
  shows "fst (client_nonce E rng d post protocol ip port c net) \<noteq> Inl (ClientPanic p)"
proof -
  obtain sent net' where sent: "post (target_url_to_string \<lparr> tu_version = ApiV3, tu_protocol = protocol, tu_host = ip,
                  tu_port = port, tu_path = ''/nonce'' \<rparr>)
          (as_bytes (ser_nonce_request (he_json E) \<lparr> req_nonce = encode (he_crypto E) (generate_nonce rng) \<rparr>)) net =
        (sent, net')" by fastforce
  show ?thesis
  proof (cases "\<exists>res k n a. sent = Some res \<and> nonce_from_response E protocol res = Inr (k, n, a)")
    case True
    then obtain res k n a where "sent = Some res" and r: "nonce_from_response E protocol res = Inr (k, n, a)" by blast
    from client_nonce_stores [where post = post and rng = rng and net = net and d = d, OF assms _ r] sent this(1)
    show ?thesis by fastforce
  next
    case False
    have no_panic: "nonce_from_response E protocol res \<noteq> Inl (ClientPanic q)" for res q
      by (simp add: nonce_from_response_def client_bind_eq_Inl client_res_eq_panic response_json_def)
    show ?thesis
      using False sent no_panic by (auto simp: client_nonce_def Let_def split: option.splits sum.splits)
  qed
qed

theorem client_nonce_never_panics_witness:
  "\<forall>p. fst (client_nonce demo_env (\<lambda>n. replicate n 1) True
       (to_server demo_env (\<lambda>n. replicate n 2) \<lparr> rci_ip = V4 10 0 0 1, rci_cert = None \<rparr> (V4 10 0 0 2) None)
       Http ''10.0.0.2'' 53317
     (http_client_new list_lru) (http_state_new list_lru demo_http_info)) \<noteq> Inl (ClientPanic p)"
  by (intro allI, rule client_nonce_never_panics [where capacity = fst and size_of = "\<lambda>(n, m). length m"])
    (simp_all add: demo_env_def lru_ok_list http_client_new_def)

text \<open>
  C36: with a pinned key, \<open>prepare_upload\<close> succeeds only on a response with status 200 whose
  certificate is valid, self-signed and holds that key. The request, and with it the list of file
  names, has left before the certificate is looked at.
\<close>

theorem prepare_upload_checks_pinned_key:
  assumes "client_prepare_upload E post protocol ip port (Some key) payload net = (Inr body, net')"
  shows "\<exists>res der cert contents spki k.
     post (prepare_upload_url protocol ip port) (as_bytes (ser_prepare_upload (he_json E) payload)) net = (Some res, net') \<and>
     cr_status res = 200 \<and> cr_tls_info res = Some (Some der) \<and>
     x509_from_der (he_x509 E) der = Some cert \<and> validity_is_valid (he_x509 E) cert \<and>
     cert_verify_signature (he_x509 E) cert \<and>
     pem_read (he_x509 E) key = Some contents \<and> spki_from_der (he_x509 E) contents = Some spki \<and>
     spki_parsed (he_x509 E) spki = Some k \<and> spki_parsed (he_x509 E) (subject_pki (he_x509 E) cert) = Some k"
proof -
  obtain sent where post: "post (prepare_upload_url protocol ip port)
      (as_bytes (ser_prepare_upload (he_json E) payload)) net = (sent, net')"
    using assms by (auto simp: client_prepare_upload_def Let_def split: prod.splits)
  with assms obtain res where "sent = Some res" "cr_status res = 200"
    "verify_cert_from_res (he_x509 E) res (Some key) \<noteq> Err e" "\<exists>k. verify_cert_from_res (he_x509 E) res (Some key) = Ok k" for e
    by (auto simp: client_prepare_upload_def Let_def client_bind_eq_Inr client_res_eq_Inr of_option_eq_Ok
        split: if_splits)
  with post show ?thesis
    by (auto simp: verify_cert_from_res_def verify_cert_from_der_def outcome_simps verify_cert_from_cert_Ok_iff
        split: option.splits)
qed

theorem prepare_upload_checks_pinned_key_witness:
  "\<exists>cert. x509_from_der demo_x509 [6] = Some cert \<and> validity_is_valid demo_x509 cert \<and>
     client_prepare_upload demo_env (answer_with \<lparr> cr_status = 200, cr_body = Some (as_bytes ''s1''),
         cr_remote_addr = None, cr_tls_info = Some (Some [6]) \<rparr>) Https ''10.0.0.2'' 53317
       (Some (bytes_string [6])) \<lparr> pu_info = demo_register_dto, pu_files = [] \<rparr> () =
     (Inr \<lparr> pu_session_id = ''s1'', pu_tokens = [] \<rparr>, ())"
proof -
  have run: "client_prepare_upload demo_env (answer_with \<lparr> cr_status = 200, cr_body = Some (as_bytes ''s1''),
         cr_remote_addr = None, cr_tls_info = Some (Some [6]) \<rparr>) Https ''10.0.0.2'' 53317
       (Some (bytes_string [6])) \<lparr> pu_info = demo_register_dto, pu_files = [] \<rparr> () =
     (Inr \<lparr> pu_session_id = ''s1'', pu_tokens = [] \<rparr>, ())"
    by (simp add: client_prepare_upload_def answer_with_def demo_env_def demo_json_def demo_x509_def
        verify_cert_from_res_def verify_cert_from_der_def verify_cert_from_cert_def response_json_def Let_def)
  from prepare_upload_checks_pinned_key [OF run] run show ?thesis
    by (auto simp: answer_with_def demo_env_def)
qed

text \<open>
  A response whose status is not 200 makes \<open>upload\<close> and an unpinned
  \<open>prepare_upload\<close> fail with that status and the message of the JSON error, or the raw body, or no
  message when it is empty. \<open>register\<close> and \<open>cancel\<close> do not look at the status.
\<close>

theorem client_status_handling:
  assumes "post (upload_url protocol ip port sid fid tok) (concat binary) net = (Some res, net')"
    and "post (prepare_upload_url protocol ip port) (as_bytes (ser_prepare_upload (he_json E) payload)) net = (Some res, net')"
    and "cr_status res \<noteq> 200" "cr_body res = Some body"
    and "message = (case de_error_response (he_json E) body of Some e \<Rightarrow> err_message e | None \<Rightarrow> bytes_string body)"
    and "failure = StatusCodeError (cr_status res) (if message = [] then None else Some message)"
  shows "client_upload E post protocol ip port sid fid tok binary net = (Inl failure, net') \<and>
     client_prepare_upload E post protocol ip port None payload net = (Inl failure, net') \<and>
     client_register E (\<lambda>u b n. (Some (res\<lparr> cr_status := st \<rparr>), n)) protocol ip port dto net =
       client_register E (\<lambda>u b n. (Some res, n)) protocol ip port dto net \<and>
     fst (client_cancel E (\<lambda>u b n. (Some res, n)) protocol ip port sid net) = Inr ()"
proof -
  have "verify_cert_from_res (he_x509 E) (res\<lparr> cr_status := st \<rparr>) None = verify_cert_from_res (he_x509 E) res None"
    by (simp add: verify_cert_from_res_def)
  with assms show ?thesis
    by (cases protocol) (simp_all add: client_upload_def client_prepare_upload_def client_register_def client_cancel_def
        fail_status_def status_code_error_from_res_def response_json_def Let_def)
qed

theorem client_status_handling_witness:
  "client_upload demo_env (answer_with \<lparr> cr_status = 403, cr_body = Some (as_bytes ''no''),
       cr_remote_addr = None, cr_tls_info = None \<rparr>) Http ''10.0.0.2'' 53317 ''s'' ''f'' ''t'' [] () =
     (Inl (StatusCodeError 403 (Some ''no'')), ())"
  using client_status_handling [where E = demo_env and post = "answer_with \<lparr> cr_status = 403, cr_body = Some (as_bytes ''no''),
       cr_remote_addr = None, cr_tls_info = None \<rparr>" and protocol = Http and ip = "''10.0.0.2''" and port = 53317
     and sid = "''s''" and fid = "''f''" and tok = "''t''" and binary = "[]" and net = "()" and net' = "()"
     and message = "''no''", OF answer_with_def answer_with_def _ _ _ refl]
  by (simp add: demo_env_def demo_json_def)

end
