(* ===== verification/Http_Listener.thy ===== *)
theory Http_Listener
  imports Http_Server
begin

text \<open>
  The life of the HTTP server: \<open>start_with_port\<close>, \<open>start_server_with_addr\<close>,
  \<open>create_tls_config\<close> of \<open>core/src/http/server/mod.rs\<close> and \<open>CustomClientCertVerifier\<close>.

  The spawned task selects between the IPv4 listener, the IPv6 listener (whose failure never
  completes its branch) and the stop signal; every accepted connection is a task of its own that
  outlives the select. With TLS that task first awaits the handshake, a step of its own. The
  interleaving of these tasks is the step function \<open>listener_step\<close> over a world of the two
  listeners, the handshakes in flight, the open connections and the shared state. Sockets, TLS and
  hyper are outside: an event carries what they deliver. rustls calls the verifier for the
  certificate of a client and refuses a client without one when the verifier says it is mandatory.

  The facts: when the server runs, which certificates its clients hold, and what stopping does to
  connections that are open.
\<close>

section \<open>TLS configuration\<close>

record tls_config =
  tls_cert :: string
  tls_private_key :: string

text \<open>
  The calls into rustls: reading PEM, adding a root, building the inner verifier, and pairing the
  certificate with its key.
\<close>

record ('der, 'key) tls_lib =
  cert_from_pem :: "bytes \<Rightarrow> 'der option"
  key_from_pem :: "bytes \<Rightarrow> 'key option"
  root_store_add :: "'der \<Rightarrow> bool"
  client_verifier_build :: "'der \<Rightarrow> bool"
  single_cert :: "'der \<Rightarrow> 'key \<Rightarrow> bool"

definition verifier_try_new :: "('der, 'key) tls_lib \<Rightarrow> string \<Rightarrow> unit res" where
  "verifier_try_new T cert =
     res_bind (of_option (Lib ''from_pem_slice'') (cert_from_pem T (as_bytes cert))) (\<lambda>der.
       if \<not> root_store_add T der then Err (Lib ''RootCertStore::add'')
       else if \<not> client_verifier_build T der then Err (Lib ''WebPkiClientVerifier'')
       else Ok ())"

definition create_tls_config :: "('der, 'key) tls_lib \<Rightarrow> tls_config \<Rightarrow> unit res" where
  "create_tls_config T cfg =
     res_bind (of_option (Lib ''from_pem_slice'') (cert_from_pem T (as_bytes (tls_cert cfg)))) (\<lambda>cert.
     res_bind (of_option (Lib ''from_pem_slice'') (key_from_pem T (as_bytes (tls_private_key cfg)))) (\<lambda>key.
     res_bind (verifier_try_new T (tls_cert cfg)) (\<lambda>_.
       if single_cert T cert key then Ok () else Err (Lib ''with_single_cert''))))"

section \<open>The tasks\<close>

datatype address_family = Ipv4 | Ipv6

datatype listener_phase = Starting | Listening | ListenerFailed

text \<open>
  What a server is started with; \<open>ln_bind\<close> says whether the address of the family can be bound.
\<close>

record ('der, 'key) listener_env =
  ln_tls_lib :: "('der, 'key) tls_lib"
  ln_bind :: "address_family \<Rightarrow> bool"
  ln_tls :: "tls_config option"
  ln_legacy :: bool

record 'c listener_world =
  lw_phase :: "address_family \<Rightarrow> listener_phase"
  lw_running :: bool
  lw_handshakes :: "(nat, ip_addr) hash_map"
  lw_connections :: "(nat, request_client_info) hash_map"
  lw_state :: "'c http_state"
  lw_responses :: "(nat \<times> http_response) list"

text \<open>
  \<open>EvAccept\<close> carries \<open>None\<close> when \<open>accept\<close> of the TCP listener fails, and otherwise a number for
  the connection and the remote address. \<open>EvHandshake\<close> is the end of the TLS handshake that the
  task of that connection awaits: whether the handshake itself succeeds, and the certificates the
  client presents.
\<close>

datatype listener_event =
    EvStart address_family
  | EvAccept address_family "(nat \<times> ip_addr) option"
  | EvHandshake nat bool "bytes list option"
  | EvStop
  | EvRequest nat "nat \<Rightarrow> bytes" string string "bytes option"
  | EvHangUp nat

definition start_server_ok :: "('der, 'key) listener_env \<Rightarrow> address_family \<Rightarrow> bool" where
  "start_server_ok N f \<longleftrightarrow>
     ln_bind N f \<and> (case ln_tls N of None \<Rightarrow> True | Some cfg \<Rightarrow> create_tls_config (ln_tls_lib N) cfg = Ok ())"

text \<open>\<open>tls_acceptor.accept\<close>: the verifier decides on the first certificate.\<close>

definition tls_accept :: "('cert, 'spki, 'pk) x509_lib \<Rightarrow> bool \<Rightarrow> bytes list option \<Rightarrow> bool" where
  "tls_accept X handshake certificates \<longleftrightarrow>
     handshake \<and>
     (case certificates of
        Some (cert # chain) \<Rightarrow> verify_client_cert X cert = Ok ()
      | _ \<Rightarrow> \<not> (offer_client_auth \<and> client_auth_mandatory))"

text \<open>The client information after the handshake, if the connection gets as far as serving requests.\<close>

definition connection_info ::
  "('cert, 'spki, 'pk) x509_lib \<Rightarrow> ip_addr \<Rightarrow> bool \<Rightarrow> bytes list option \<Rightarrow> request_client_info option" where
  "connection_info X ip handshake certificates =
     (if \<not> tls_accept X handshake certificates then None
      else case tls_client_info ip certificates of Ok c \<Rightarrow> Some c | _ \<Rightarrow> None)"

text \<open>
  A listener ends with its error; only that of IPv4 completes its branch of the select, the branch
  of IPv6 sleeps for ever.
\<close>

definition fail_listener :: "address_family \<Rightarrow> 'c listener_world \<Rightarrow> 'c listener_world" where
  "fail_listener f w =
     w\<lparr> lw_phase := (lw_phase w)(f := ListenerFailed), lw_running := (lw_running w \<and> f \<noteq> Ipv4) \<rparr>"

fun listener_step ::
  "('sk, 'vk, 'rk, 'cert, 'spki, 'pk, 'c) http_env \<Rightarrow> ('der, 'key) listener_env \<Rightarrow> listener_event \<Rightarrow>
     'c listener_world \<Rightarrow> 'c listener_world option" where
  "listener_step E N (EvStart f) w =
     (if \<not> lw_running w \<or> lw_phase w f \<noteq> Starting then None
      else Some (if start_server_ok N f then w\<lparr> lw_phase := (lw_phase w)(f := Listening) \<rparr>
                 else fail_listener f w))"
| "listener_step E N (EvAccept f accepted) w =
     (if \<not> lw_running w \<or> lw_phase w f \<noteq> Listening then None
      else case accepted of
          None \<Rightarrow> Some (fail_listener f w)
        | Some (i, ip) \<Rightarrow>
            if map_of (lw_connections w) i \<noteq> None \<or> map_of (lw_handshakes w) i \<noteq> None then None
            else Some (case ln_tls N of
                Some cfg \<Rightarrow> w\<lparr> lw_handshakes := AList.update i ip (lw_handshakes w) \<rparr>
              | None \<Rightarrow> w\<lparr> lw_connections := AList.update i \<lparr> rci_ip = ip, rci_cert = None \<rparr> (lw_connections w) \<rparr>))"
| "listener_step E N (EvHandshake i handshake certificates) w =
     (case map_of (lw_handshakes w) i of
        None \<Rightarrow> None
      | Some ip \<Rightarrow>
          let served = w\<lparr> lw_handshakes := AList.delete i (lw_handshakes w) \<rparr>
          in Some (case connection_info (he_x509 E) ip handshake certificates of
              None \<Rightarrow> served
            | Some c \<Rightarrow> served\<lparr> lw_connections := AList.update i c (lw_connections w) \<rparr>))"
| "listener_step E N EvStop w = (if lw_running w then Some (w\<lparr> lw_running := False \<rparr>) else None)"
| "listener_step E N (EvRequest i rng method path body) w =
     (case map_of (lw_connections w) i of
        None \<Rightarrow> None
      | Some c \<Rightarrow>
          (let (response, state) = serve_request E rng (ln_legacy N) c method path body (lw_state w)
           in Some (w\<lparr> lw_state := state, lw_responses := lw_responses w @ [(i, response)] \<rparr>)))"
| "listener_step E N (EvHangUp i) w =
     (if map_of (lw_connections w) i = None then None
      else Some (w\<lparr> lw_connections := AList.delete i (lw_connections w) \<rparr>))"

text \<open>\<open>start_with_port\<close> spawns the task and returns; nothing is bound yet.\<close>

definition start_with_port ::
  "('sk, 'vk, 'rk, 'cert, 'spki, 'pk, 'c) http_env \<Rightarrow> http_client_info \<Rightarrow> unit res \<times> 'c listener_world" where
  "start_with_port E info =
     (Ok (), \<lparr> lw_phase = (\<lambda>f. Starting), lw_running = True, lw_handshakes = [], lw_connections = [],
               lw_state = http_state_new (he_lru E) info, lw_responses = [] \<rparr>)"

section \<open>Specification vocabulary\<close>

text \<open>What ends the select: the stop signal, or IPv4 failing to start or to accept.\<close>

definition ends_server :: "('der, 'key) listener_env \<Rightarrow> listener_event \<Rightarrow> bool" where
  "ends_server N e \<longleftrightarrow>
     e = EvStop \<or> e = EvAccept Ipv4 None \<or> (e = EvStart Ipv4 \<and> \<not> start_server_ok N Ipv4)"

text \<open>A client known by the public key of a certificate that is valid now and signed by itself.\<close>

definition keyed_client :: "('cert, 'spki, 'pk) x509_lib \<Rightarrow> request_client_info \<Rightarrow> bool" where
  "keyed_client X c \<longleftrightarrow>
     (\<exists>der cert. rci_cert c = Some der \<and> x509_from_der X der = Some cert \<and> validity_is_valid X cert \<and>
        cert_verify_signature X cert \<and>
        client_identifier X c = pem_encode X ''PUBLIC KEY'' (spki_raw X (subject_pki X cert)))"

definition keyed_world :: "('cert, 'spki, 'pk) x509_lib \<Rightarrow> 'c listener_world \<Rightarrow> bool" where
  "keyed_world X w \<longleftrightarrow> list_all (\<lambda>(i, c). keyed_client X c) (lw_connections w)"

text \<open>
  The task of a connection serves it: whatever request comes is answered to that client, and
  changes the shared state, as \<open>serve_request\<close> says.
\<close>

definition serves ::
  "('sk, 'vk, 'rk, 'cert, 'spki, 'pk, 'c) http_env \<Rightarrow> ('der, 'key) listener_env \<Rightarrow> nat \<Rightarrow> request_client_info \<Rightarrow>
     'c listener_world \<Rightarrow> bool" where
  "serves E N i c w \<longleftrightarrow>
     (\<forall>rng method path body. \<exists>v.
        listener_step E N (EvRequest i rng method path body) w = Some v \<and>
        (let (response, state) = serve_request E rng (ln_legacy N) c method path body (lw_state w)
         in lw_responses v = lw_responses w @ [(i, response)] \<and> lw_state v = state))"

text \<open>A connection is either in its handshake or served.\<close>

definition separate_world :: "'c listener_world \<Rightarrow> bool" where
  "separate_world w \<longleftrightarrow> (\<forall>i c. map_of (lw_connections w) i = Some c \<longrightarrow> map_of (lw_handshakes w) i = None)"

section \<open>Facts\<close>

lemma map_of_alist [simp]:
  "map_of (AList.update k v m) i = (if i = k then Some v else map_of m i)"
  "map_of (AList.delete k m) i = (if i = k then None else map_of m i)"
  by (simp_all add: update_conv' delete_conv')

lemma keyed_connection:
  assumes "connection_info X ip handshake certificates = Some c"
  shows "keyed_client X c"
proof -
  obtain der chain where c: "certificates = Some (der # chain)" "verify_client_cert X der = Ok ()"
      "c = \<lparr> rci_ip = ip, rci_cert = Some der \<rparr>"
    using assms
    by (auto simp: connection_info_def tls_accept_def tls_client_info_def offer_client_auth_def client_auth_mandatory_def
        split: option.splits list.splits if_splits)
  then show ?thesis
    by (auto simp: keyed_client_def verify_client_cert_def verify_cert_from_der_def outcome_simps verify_cert_from_cert_Ok_iff
        client_identifier_def extract_public_key_def public_key_from_cert_der_def public_key_from_cert_def)
qed

lemma keyed_step:
  assumes "keyed_world (he_x509 E) w" "listener_step E N e w = Some w'" "ln_tls N \<noteq> None"
  shows "keyed_world (he_x509 E) w'"
  using assms
  by (cases e) (auto simp: keyed_world_def fail_listener_def keyed_connection list_all_update list_all_delete Let_def
      split: if_splits option.splits prod.splits)

lemma separate_step:
  assumes "separate_world w" "listener_step E N e w = Some w'"
  shows "separate_world w'"
  using assms
  by (cases e) (auto simp: separate_world_def fail_listener_def Let_def split: if_splits option.splits prod.splits)

interpretation listener: event_system "listener_step E N" "snd (start_with_port E info)"
    "\<lambda>w. separate_world w \<and> (ln_tls N \<noteq> None \<longrightarrow> keyed_world (he_x509 E) w)" for E N info
proof unfold_locales
  show "separate_world (snd (start_with_port E info)) \<and>
      (ln_tls N \<noteq> None \<longrightarrow> keyed_world (he_x509 E) (snd (start_with_port E info)))"
    by (simp add: start_with_port_def keyed_world_def separate_world_def)
qed (use keyed_step separate_step in blast)

lemma serves_open: "map_of (lw_connections w) i = Some c \<Longrightarrow> serves E N i c w"
  by (simp add: serves_def case_prod_unfold Let_def)

lemma running_step:
  "listener_step E N e w = Some w' \<Longrightarrow> lw_running w' \<longleftrightarrow> lw_running w \<and> \<not> ends_server N e"
  by (cases e) (auto simp: ends_server_def fail_listener_def Let_def split: if_splits option.splits prod.splits)

text \<open>
  What every step keeps: a connection stays open unless it hangs up, a handshake stays in flight
  until it ends, and once the server has ended the clients are those that had come before.
\<close>

definition kept_connections :: "listener_event list \<Rightarrow> 'c listener_world \<Rightarrow> 'c listener_world \<Rightarrow> bool" where
  "kept_connections es w w' \<longleftrightarrow>
     (\<forall>i c. map_of (lw_connections w) i = Some c \<longrightarrow> EvHangUp i \<notin> set es \<longrightarrow> map_of (lw_connections w') i = Some c) \<and>
     (\<forall>i ip. map_of (lw_handshakes w) i = Some ip \<longrightarrow> (\<forall>h cs. EvHandshake i h cs \<notin> set es) \<longrightarrow>
        map_of (lw_handshakes w') i = Some ip)"

definition no_new_connections :: "'c listener_world \<Rightarrow> 'c listener_world \<Rightarrow> bool" where
  "no_new_connections w w' \<longleftrightarrow>
     (\<forall>i c. map_of (lw_connections w') i = Some c \<longrightarrow>
        map_of (lw_connections w) i = Some c \<or> map_of (lw_handshakes w) i = Some (rci_ip c)) \<and>
     (\<forall>i ip. map_of (lw_handshakes w') i = Some ip \<longrightarrow> map_of (lw_handshakes w) i = Some ip)"

lemma rci_ip_connection: "connection_info X ip h cs = Some c \<Longrightarrow> rci_ip c = ip"
  by (auto simp: connection_info_def tls_client_info_def split: if_splits option.splits list.splits)

lemma kept_step:
  assumes "separate_world w" "listener_step E N e w = Some w'"
  shows "kept_connections [e] w w'"
  using assms
  by (cases e) (auto simp: kept_connections_def separate_world_def fail_listener_def Let_def
      split: if_splits option.splits prod.splits)

lemma no_new_step:
  assumes "listener_step E N e w = Some w'" "\<not> lw_running w"
  shows "no_new_connections w w'"
  using assms
  by (cases e) (auto simp: no_new_connections_def Let_def rci_ip_connection
      split: if_splits option.splits prod.splits)

lemma kept_run:
  "run_events (listener_step E N) es w = Some w' \<Longrightarrow> separate_world w \<Longrightarrow> kept_connections es w w'"
proof (induction es arbitrary: w)
  case (Cons e es)
  then obtain v where v: "listener_step E N e w = Some v" "run_events (listener_step E N) es v = Some w'"
    by (auto simp: bind_eq_Some_conv)
  with Cons have "kept_connections [e] w v" "kept_connections es v w'"
    using kept_step separate_step by blast+
  then show ?case by (simp add: kept_connections_def)
qed (simp add: kept_connections_def)

lemma no_new_run:
  "run_events (listener_step E N) es w = Some w' \<Longrightarrow> \<not> lw_running w \<Longrightarrow> no_new_connections w w'"
proof (induction es arbitrary: w)
  case (Cons e es)
  then obtain v where v: "listener_step E N e w = Some v" "run_events (listener_step E N) es v = Some w'"
    by (auto simp: bind_eq_Some_conv)
  with Cons have "no_new_connections w v" "no_new_connections v w'"
    using no_new_step running_step by blast+
  then show ?case unfolding no_new_connections_def by blast
qed (simp add: no_new_connections_def)

text \<open>The event that ends the server touches no connection and no handshake.\<close>

lemma ending_step:
  "listener_step E N e w = Some v \<Longrightarrow> ends_server N e \<Longrightarrow>
   lw_connections v = lw_connections w \<and> lw_handshakes v = lw_handshakes w \<and> \<not> lw_running v"
  by (auto simp: ends_server_def fail_listener_def split: if_splits)

lemma running_run:
  "run_events (listener_step E N) es w = Some w' \<Longrightarrow>
   lw_running w' \<longleftrightarrow> lw_running w \<and> list_all (\<lambda>e. \<not> ends_server N e) es"
proof (induction es arbitrary: w)
  case (Cons e es)
  then show ?case by (auto simp: bind_eq_Some_conv dest!: running_step)
qed simp

text \<open>A server without TLS that accepts one client over IPv4 while IPv6 is not available.\<close>

definition demo_listener :: "(bytes, bytes) listener_env" where
  "demo_listener =
     \<lparr> ln_tls_lib = \<lparr> cert_from_pem = Some, key_from_pem = Some, root_store_add = (\<lambda>c. True),
         client_verifier_build = (\<lambda>c. True), single_cert = (=) \<rparr>,
       ln_bind = (\<lambda>f. f = Ipv4), ln_tls = None, ln_legacy = True \<rparr>"

definition demo_tls_listener :: "(bytes, bytes) listener_env" where
  "demo_tls_listener = demo_listener\<lparr> ln_tls := Some \<lparr> tls_cert = ''c'', tls_private_key = ''c'' \<rparr> \<rparr>"

definition demo_schedule :: "listener_event list" where
  "demo_schedule = [EvStart Ipv6, EvStart Ipv4, EvAccept Ipv4 (Some (1, V4 10 0 0 1))]"

section \<open>Properties\<close>

text \<open>
  C16: the server runs exactly until the stop signal or until IPv4 fails to start or to accept. A
  failure on IPv6, whatever its cause, leaves it running.
\<close>

theorem server_runs_until:
  assumes "run_events (listener_step E N) es (snd (start_with_port E info)) = Some w"
  shows "lw_running w \<longleftrightarrow>
     EvStop \<notin> set es \<and> EvAccept Ipv4 None \<notin> set es \<and> (EvStart Ipv4 \<in> set es \<longrightarrow> start_server_ok N Ipv4)"
  using running_run [OF assms] by (auto simp: start_with_port_def list_all_iff ends_server_def)

theorem server_runs_until_witness:
  "\<exists>w. run_events (listener_step demo_env demo_listener) demo_schedule (snd (start_with_port demo_env demo_http_info)) = Some w \<and>
     lw_phase w Ipv6 = ListenerFailed \<and> lw_running w"
proof -
  let ?r = "run_events (listener_step demo_env demo_listener) demo_schedule (snd (start_with_port demo_env demo_http_info))"
  have run: "?r \<noteq> None" "lw_phase (the ?r) Ipv6 = ListenerFailed"
    by (simp_all add: demo_schedule_def start_with_port_def demo_listener_def start_server_ok_def fail_listener_def
        connection_info_def)
  then have "?r = Some (the ?r)" by simp
  from server_runs_until [OF this] have "lw_running (the ?r)"
    by (simp add: demo_schedule_def demo_listener_def start_server_ok_def)
  with run show ?thesis by (metis option.collapse)
qed

text \<open>
  C14: with TLS, however connections, requests and failures interleave, every client that is being
  served is known by the public key of a certificate that is valid at the time and signed by itself;
  none is known by its address.
\<close>

theorem tls_clients_known_by_key:
  assumes "run_events (listener_step E N) es (snd (start_with_port E info)) = Some w" "ln_tls N \<noteq> None"
    and "map_of (lw_connections w) i = Some c"
  shows "keyed_client (he_x509 E) c"
  using listener.Inv_run_start [OF assms(1)] assms(2,3) map_of_SomeD [OF assms(3)]
  by (auto simp: keyed_world_def list_all_iff)

lemma demo_tls_run:
  "run_events (listener_step demo_env demo_tls_listener)
     (demo_schedule @ [EvHandshake 1 True (Some [[5]]), EvAccept Ipv4 (Some (2, V4 10 0 0 2))])
     (snd (start_with_port demo_env demo_http_info)) =
   Some \<lparr> lw_phase = (\<lambda>f. Starting)(Ipv6 := ListenerFailed, Ipv4 := Listening), lw_running = True,
          lw_handshakes = [(2, V4 10 0 0 2)],
          lw_connections = [(1, \<lparr> rci_ip = V4 10 0 0 1, rci_cert = Some [5] \<rparr>)],
          lw_state = http_state_new (he_lru demo_env) demo_http_info, lw_responses = [] \<rparr>"
proof -
  have "verify_client_cert demo_x509 [5] = Ok ()" by code_simp
  then have c: "connection_info (he_x509 demo_env) ip True (Some [[5]]) = Some \<lparr> rci_ip = ip, rci_cert = Some [5] \<rparr>" for ip
    by (simp add: connection_info_def tls_accept_def demo_env_def tls_client_info_def)
  have "start_server_ok demo_tls_listener Ipv4" "\<not> start_server_ok demo_tls_listener Ipv6" by code_simp+
  moreover have "ln_tls demo_tls_listener = Some \<lparr> tls_cert = ''c'', tls_private_key = ''c'' \<rparr>"
    by (simp add: demo_tls_listener_def)
  ultimately show ?thesis
    by (simp add: demo_schedule_def start_with_port_def fail_listener_def c Let_def)
qed

theorem tls_clients_known_by_key_witness:
  "\<exists>es w. run_events (listener_step demo_env demo_tls_listener) es (snd (start_with_port demo_env demo_http_info)) = Some w \<and>
     map_of (lw_connections w) 1 = Some \<lparr> rci_ip = V4 10 0 0 1, rci_cert = Some [5] \<rparr> \<and>
     keyed_client (he_x509 demo_env) \<lparr> rci_ip = V4 10 0 0 1, rci_cert = Some [5] \<rparr>"
proof (intro exI conjI)
  show "keyed_client (he_x509 demo_env) \<lparr> rci_ip = V4 10 0 0 1, rci_cert = Some [5] \<rparr>"
    by (rule tls_clients_known_by_key [OF demo_tls_run, where i = 1]) (simp_all add: demo_tls_listener_def)
qed (rule demo_tls_run, simp)

text \<open>
  C15: neither the stop signal nor the failure of the IPv4 listener touches what was accepted
  before: every connection open at that moment stays open until its client hangs up and is served,
  with effect on the shared state; a TLS handshake in flight at that moment goes on, and when it
  ends with an acceptable certificate its client is served too. Nobody else is served: every later
  connection was open, or in its handshake with the same address, at the stop.
\<close>

theorem stop_keeps_connections:
  assumes run: "run_events (listener_step E N) es (snd (start_with_port E info)) = Some w"
    and stop: "listener_step E N e w = Some v" "ends_server N e"
    and after: "run_events (listener_step E N) es' v = Some w'"
  shows "\<not> lw_running w' \<and>
     (\<forall>i c. map_of (lw_connections w) i = Some c \<longrightarrow> EvHangUp i \<notin> set es' \<longrightarrow>
        map_of (lw_connections w') i = Some c \<and> serves E N i c w') \<and>
     (\<forall>i ip. map_of (lw_handshakes w) i = Some ip \<longrightarrow> (\<forall>h cs. EvHandshake i h cs \<notin> set es') \<longrightarrow>
        (\<forall>h cs c. connection_info (he_x509 E) ip h cs = Some c \<longrightarrow>
           (\<exists>u. listener_step E N (EvHandshake i h cs) w' = Some u \<and> serves E N i c u))) \<and>
     (\<forall>i c. map_of (lw_connections w') i = Some c \<longrightarrow>
        map_of (lw_connections w) i = Some c \<or> map_of (lw_handshakes w) i = Some (rci_ip c))"
proof -
  note v = ending_step [OF stop]
  have "separate_world v"
    using listener.Inv_run_start [OF run] v by (simp add: separate_world_def)
  then have kept: "kept_connections es' v w'" and new: "no_new_connections v w'"
    using kept_run [OF after] no_new_run [OF after] v by blast+
  have "\<not> lw_running w'" using running_run [OF after] v by blast
  moreover have "\<exists>u. listener_step E N (EvHandshake i h cs) w' = Some u \<and> serves E N i c u"
    if "map_of (lw_handshakes w) i = Some ip" "\<forall>h cs. EvHandshake i h cs \<notin> set es'"
      "connection_info (he_x509 E) ip h cs = Some c" for i ip h cs c
    using that kept v by (simp add: kept_connections_def Let_def serves_open)
  moreover have "map_of (lw_connections w') i = Some c \<and> serves E N i c w'"
    if "map_of (lw_connections w) i = Some c" "EvHangUp i \<notin> set es'" for i c
    using that kept v by (simp add: kept_connections_def serves_open)
  moreover have "map_of (lw_connections w) i = Some c \<or> map_of (lw_handshakes w) i = Some (rci_ip c)"
    if "map_of (lw_connections w') i = Some c" for i c
    using that new v by (simp add: no_new_connections_def)
  ultimately show ?thesis by blast
qed

theorem stop_keeps_connections_witness:
  "\<exists>es w v w' u. run_events (listener_step demo_env demo_tls_listener) es (snd (start_with_port demo_env demo_http_info)) = Some w \<and>
     listener_step demo_env demo_tls_listener EvStop w = Some v \<and>
     run_events (listener_step demo_env demo_tls_listener) [EvRequest 1 (\<lambda>n. []) ''GET'' ''/'' None] v = Some w' \<and>
     map res_status (map snd (lw_responses w')) = [404] \<and>
     serves demo_env demo_tls_listener 1 \<lparr> rci_ip = V4 10 0 0 1, rci_cert = Some [5] \<rparr> w' \<and>
     listener_step demo_env demo_tls_listener (EvHandshake 2 True (Some [[5]])) w' = Some u \<and>
     serves demo_env demo_tls_listener 2 \<lparr> rci_ip = V4 10 0 0 2, rci_cert = Some [5] \<rparr> u"
proof -
  let ?c = "\<lparr> rci_ip = V4 10 0 0 1, rci_cert = Some [5] \<rparr>"
  obtain es w where run: "run_events (listener_step demo_env demo_tls_listener) es
        (snd (start_with_port demo_env demo_http_info)) = Some w"
      and w: "lw_running w" "map_of (lw_connections w) 1 = Some ?c" "map_of (lw_handshakes w) 2 = Some (V4 10 0 0 2)"
        "lw_responses w = []"
    using demo_tls_run by fastforce
  let ?v = "w\<lparr> lw_running := False \<rparr>"
  have stop: "listener_step demo_env demo_tls_listener EvStop w = Some ?v" "ends_server demo_tls_listener EvStop"
    using w by (simp_all add: ends_server_def)
  obtain w' where after: "run_events (listener_step demo_env demo_tls_listener)
        [EvRequest 1 (\<lambda>n. []) ''GET'' ''/'' None] ?v = Some w'"
      and r: "map res_status (map snd (lw_responses w')) = [404]"
    using w by (simp add: case_prod_unfold Let_def serve_request_def handle_request_def handle_request_inner_def
        response_new_def)
  have "verify_client_cert demo_x509 [5] = Ok ()" by code_simp
  then have c: "connection_info (he_x509 demo_env) (V4 10 0 0 2) True (Some [[5]]) =
      Some \<lparr> rci_ip = V4 10 0 0 2, rci_cert = Some [5] \<rparr>"
    by (simp add: connection_info_def tls_accept_def demo_env_def tls_client_info_def)
  note kept = stop_keeps_connections [OF run stop after]
  have "serves demo_env demo_tls_listener 1 ?c w'"
    using kept [THEN conjunct2, THEN conjunct1, rule_format, OF w(2)] by (simp only: list.set) blast
  moreover obtain u where "listener_step demo_env demo_tls_listener (EvHandshake 2 True (Some [[5]])) w' = Some u"
      "serves demo_env demo_tls_listener 2 \<lparr> rci_ip = V4 10 0 0 2, rci_cert = Some [5] \<rparr> u"
    using kept [THEN conjunct2, THEN conjunct2, THEN conjunct1, rule_format, OF w(3) _ c] by (simp only: list.set) blast
  ultimately show ?thesis by (intro exI conjI) (rule run, rule stop(1), rule after, rule r, assumption+)
qed

end
