(* ===== verification/Signaling_Server.thy ===== *)
theory Signaling_Server
  imports Wire Ip_Groups
begin

text \<open>
  The public signaling server (\<open>server/src\<close>): shared state (\<open>config/state.rs\<close>), the
  request limit and its hourly reset (\<open>config/scheduler.rs\<close>), and the websocket controller
  (\<open>controller/ws_controller.rs\<close>).

  Every section of the controller that holds the \<open>tx_map\<close> lock is one function from state to
  state and the list of sends it causes; the sends themselves happen after the lock is released. A
  connection is a task with the sends it still has to make; \<open>exec\<close> runs one event of one task,
  so a list of events is one interleaving of the tasks. Sends go to bounded channels: a send that
  waits for space is a task that is not scheduled. HashMap iteration order is the list order.
  \<open>Uuid::new_v4\<close> and the fresh channel are arguments of the connect event and required to be
  new.

  The theorems: an invariant of all reachable states (limits, one entry per connection, registry and
  tasks agree), confinement of every message to the sender's room, authenticity of the sender id,
  what Hello, Join, Update and Left carry, a refinement of the registry to plain sets of members, and
  executions that show two flaws.
\<close>

section \<open>State\<close>

record client_state =
  cs_client :: client_info_without_id
  cs_tx :: nat

type_synonym local_map = "(uuid, client_state) hash_map"

record app_state =
  tx_map :: "(string, local_map) hash_map"
  request_count_map :: "(string, u32) hash_map"

definition app_state_new :: app_state where
  "app_state_new = \<lparr> tx_map = [], request_count_map = [] \<rparr>"

text \<open>The two environment variables with their defaults 10 and 1000.\<close>

record ws_config =
  max_connections :: nat
  max_requests :: u32

definition default_config :: ws_config where
  "default_config = \<lparr> max_connections = 10, max_requests = 1000 \<rparr>"

section \<open>Errors of config/error.rs\<close>

record app_error =
  ae_status :: nat
  ae_message :: "string option"

definition app_error_status :: "nat \<Rightarrow> string option \<Rightarrow> app_error" where
  "app_error_status status message = \<lparr> ae_status = status, ae_message = message \<rparr>"

definition app_error_from :: app_error where
  "app_error_from = \<lparr> ae_status = 500, ae_message = None \<rparr>"

definition app_error_into_response :: "app_error \<Rightarrow> nat \<times> string" where
  "app_error_into_response e =
     (case ae_message e of Some message \<Rightarrow> (ae_status e, message) | None \<Rightarrow> (ae_status e, []))"

section \<open>Request limit\<close>

definition protect_ddos_request_count ::
  "ws_config \<Rightarrow> (string, u32) hash_map \<Rightarrow> string \<Rightarrow> (app_error + unit) \<times> (string, u32) hash_map" where
  "protect_ddos_request_count cfg counts ip_group =
     (let count = (case map_of counts ip_group of Some c \<Rightarrow> c | None \<Rightarrow> 0);
          counts' = AList.update ip_group count counts
      in if count \<ge> max_requests cfg then (Inl (app_error_status 429 None), counts')
         else (Inr (), AList.update ip_group (count + 1) counts'))"

text \<open>The cron job \<open>0 0 * * * *\<close>.\<close>

definition hourly_reset :: "app_state \<Rightarrow> app_state" where
  "hourly_reset s = s\<lparr> request_count_map := [] \<rparr>"

section \<open>The controller\<close>

subsection \<open>ws_handler\<close>

text \<open>
  The base64 engine and the JSON reader are arguments. The result is the room and the peer with
  which \<open>handle_socket\<close> is started after the websocket upgrade.
\<close>

definition ws_handler ::
  "(string \<Rightarrow> bytes option) \<Rightarrow> (string \<Rightarrow> client_info_without_id option) \<Rightarrow> uuid \<Rightarrow>
     string \<Rightarrow> string option \<Rightarrow> ip_addr \<Rightarrow> app_error + (string \<times> client_info)" where
  "ws_handler base64_dec from_json new_uuid d forwarded addr =
     (case base64_dec d of
        None \<Rightarrow> Inl (app_error_status 400 None)
      | Some decoded \<Rightarrow>
          (case from_utf8 decoded of
             None \<Rightarrow> Inl (app_error_status 400 None)
           | Some text \<Rightarrow>
               (case from_json text of
                  None \<Rightarrow> Inl (app_error_status 400 None)
                | Some register_dto \<Rightarrow>
                    Inr (get_ip_group (client_ip forwarded addr),
                         client_info_from register_dto new_uuid))))"

subsection \<open>handle_socket: joining a room\<close>

definition local_map_of :: "app_state \<Rightarrow> string \<Rightarrow> local_map" where
  "local_map_of s ip_group = (case map_of (tx_map s) ip_group of Some m \<Rightarrow> m | None \<Rightarrow> [])"

text \<open>
  The block under the lock: \<open>None\<close> is \<open>limit_reached\<close>. \<open>entry().or_insert_with()\<close>
  has stored an empty room before either limit is checked.
\<close>

definition connect_locked ::
  "ws_config \<Rightarrow> app_state \<Rightarrow> string \<Rightarrow> client_info \<Rightarrow> nat \<Rightarrow>
     app_state \<times> (nat list \<times> client_info list) option" where
  "connect_locked cfg s ip_group peer tx =
     (let tx_local_map = local_map_of s ip_group;
          s1 = s\<lparr> tx_map := AList.update ip_group tx_local_map (tx_map s) \<rparr>
      in if length tx_local_map \<ge> max_connections cfg then (s1, None)
         else case protect_ddos_request_count cfg (request_count_map s1) ip_group of
             (Inl e, counts) \<Rightarrow> (s1\<lparr> request_count_map := counts \<rparr>, None)
           | (Inr u, counts) \<Rightarrow>
               (let peers_tx = map (\<lambda>(k, v). cs_tx v) tx_local_map;
                    peers = map (\<lambda>(k, v). client_info_from (cs_client v) k) tx_local_map;
                    tx_local_map' =
                      AList.update (ci_id peer) \<lparr> cs_client = without_id peer, cs_tx = tx \<rparr> tx_local_map
                in (s1\<lparr> tx_map := AList.update ip_group tx_local_map' (tx_map s1),
                        request_count_map := counts \<rparr>,
                    Some (peers_tx, peers))))"

text \<open>The sends after the lock: Join to everyone who was there, then Hello to the new peer.\<close>

definition connect_sends ::
  "client_info \<Rightarrow> nat \<Rightarrow> nat list \<Rightarrow> client_info list \<Rightarrow> (nat \<times> ws_server_message) list" where
  "connect_sends peer tx peers_tx peers =
     map (\<lambda>peer_tx. (peer_tx, Join peer)) peers_tx @ [(tx, Hello peer peers)]"

subsection \<open>handle_socket: messages of a connected peer\<close>

definition send_update_to_other_peers_with_lock ::
  "app_state \<Rightarrow> string \<Rightarrow> uuid \<Rightarrow> client_info_without_id \<Rightarrow>
     app_state \<times> (nat \<times> ws_server_message) list" where
  "send_update_to_other_peers_with_lock s ip_group peer_id info =
     (case map_of (tx_map s) ip_group of
        None \<Rightarrow> (s, [])
      | Some tx_local_map \<Rightarrow>
          (case map_of tx_local_map peer_id of
             None \<Rightarrow> (s, [])
           | Some peer_state \<Rightarrow>
               (let tx_local_map' =
                      AList.update peer_id (peer_state\<lparr> cs_client := info \<rparr>) tx_local_map;
                    peers_tx = map (\<lambda>(k, v). cs_tx v) (filter (\<lambda>(k, v). k \<noteq> peer_id) tx_local_map')
                in (s\<lparr> tx_map := AList.update ip_group tx_local_map' (tx_map s) \<rparr>,
                    map (\<lambda>peer_tx. (peer_tx, Update (client_info_from info peer_id))) peers_tx))))"

datatype ws_client_sdp_message_wrapper =
    WrapOffer ws_client_sdp_message
  | WrapAnswer ws_client_sdp_message

fun wrapper_target :: "ws_client_sdp_message_wrapper \<Rightarrow> uuid" where
  "wrapper_target (WrapOffer inner) = csdp_target inner"
| "wrapper_target (WrapAnswer inner) = csdp_target inner"

fun wrapper_message :: "client_info \<Rightarrow> ws_client_sdp_message_wrapper \<Rightarrow> ws_server_message" where
  "wrapper_message origin_peer (WrapOffer inner) =
     Offer \<lparr> sdp_peer = origin_peer, sdp_session_id = csdp_session_id inner, sdp_sdp = csdp_sdp inner \<rparr>"
| "wrapper_message origin_peer (WrapAnswer inner) =
     Answer \<lparr> sdp_peer = origin_peer, sdp_session_id = csdp_session_id inner, sdp_sdp = csdp_sdp inner \<rparr>"

definition send_to_peer_with_lock ::
  "app_state \<Rightarrow> string \<Rightarrow> client_info \<Rightarrow> ws_client_sdp_message_wrapper \<Rightarrow>
     (nat \<times> ws_server_message) list" where
  "send_to_peer_with_lock s ip_group origin_peer message =
     (case map_of (tx_map s) ip_group of
        None \<Rightarrow> []
      | Some tx_local_map \<Rightarrow>
          (case map_of tx_local_map (wrapper_target message) of
             None \<Rightarrow> []
           | Some peer_state \<Rightarrow> [(cs_tx peer_state, wrapper_message origin_peer message)]))"

text \<open>
  One text frame of \<open>recv_task\<close>, already read by the JSON reader (\<open>None\<close>: not a
  client message, skipped and not counted). The flag says whether the receive loop goes on.
\<close>

definition handle_text ::
  "ws_config \<Rightarrow> app_state \<Rightarrow> string \<Rightarrow> client_info \<Rightarrow> nat \<Rightarrow> ws_client_message option \<Rightarrow>
     app_state \<times> (nat \<times> ws_server_message) list \<times> bool" where
  "handle_text cfg s ip_group peer tx parsed =
     (case parsed of
        None \<Rightarrow> (s, [], True)
      | Some msg \<Rightarrow>
          (case protect_ddos_request_count cfg (request_count_map s) ip_group of
             (Inl e, counts) \<Rightarrow> (s\<lparr> request_count_map := counts \<rparr>, [(tx, Error 429)], False)
           | (Inr u, counts) \<Rightarrow>
               (let s' = s\<lparr> request_count_map := counts \<rparr> in
                case msg of
                  ClientUpdate info \<Rightarrow>
                    (let (s'', sends) = send_update_to_other_peers_with_lock s' ip_group (ci_id peer) info
                     in (s'', sends, True))
                | ClientOffer sdp \<Rightarrow> (s', send_to_peer_with_lock s' ip_group peer (WrapOffer sdp), True)
                | ClientAnswer sdp \<Rightarrow> (s', send_to_peer_with_lock s' ip_group peer (WrapAnswer sdp), True))))"

subsection \<open>handle_socket: leaving\<close>

definition disconnect_locked ::
  "app_state \<Rightarrow> string \<Rightarrow> uuid \<Rightarrow> app_state \<times> (nat \<times> ws_server_message) list" where
  "disconnect_locked s ip_group peer_id =
     (case map_of (tx_map s) ip_group of
        None \<Rightarrow> (s, [])
      | Some tx_local_map \<Rightarrow>
          (let tx_local_map' = AList.delete peer_id tx_local_map in
           if tx_local_map' = [] then (s\<lparr> tx_map := AList.delete ip_group (tx_map s) \<rparr>, [])
           else (s\<lparr> tx_map := AList.update ip_group tx_local_map' (tx_map s) \<rparr>,
                 map (\<lambda>(k, v). (cs_tx v, Left peer_id)) tx_local_map')))"

section \<open>Interleavings\<close>

text \<open>
  The phases of one \<open>handle_socket\<close> task: sending the greetings, serving the socket,
  receive loop ended, and sending the goodbyes after the entry is removed. \<open>chan_group\<close> and
  \<open>log\<close> are history: the room each channel was opened for, and every send with its sender;
  \<open>refused\<close> holds the text frame written straight to the socket of a refused connection.
\<close>

datatype phase = Greeting | Serving | Stopping | Leaving

record conn_task =
  ct_group :: string
  ct_peer :: client_info
  ct_tx :: nat
  ct_phase :: phase
  ct_pending :: "(nat \<times> ws_server_message) list"

record ws_world =
  w_app :: app_state
  w_tasks :: "(uuid, conn_task) hash_map"
  w_chan_group :: "(nat, string) hash_map"
  w_log :: "(uuid \<times> string \<times> nat \<times> ws_server_message) list"
  w_refused :: "(uuid \<times> string) list"

definition ws_init :: ws_world where
  "ws_init = \<lparr> w_app = app_state_new, w_tasks = [], w_chan_group = [], w_log = [], w_refused = [] \<rparr>"

datatype ws_event =
    EvConnect string client_info_without_id uuid nat
  | EvSend uuid
  | EvServe uuid
  | EvText uuid "ws_client_message option"
  | EvClose uuid
  | EvDone uuid
  | EvHour

definition put_task :: "uuid \<Rightarrow> conn_task \<Rightarrow> ws_world \<Rightarrow> ws_world" where
  "put_task i t w = w\<lparr> w_tasks := AList.update i t (w_tasks w) \<rparr>"

text \<open>
  \<open>select!\<close> ends the serving phase at any await point, so \<open>EvClose\<close> may drop pending
  sends of the receive loop; the greetings are sent before the tasks are spawned and are never
  dropped.
\<close>

fun exec :: "ws_config \<Rightarrow> ws_event \<Rightarrow> ws_world \<Rightarrow> ws_world option" where
  "exec cfg (EvConnect g info i tx) w =
     (if map_of (w_tasks w) i \<noteq> None \<or> map_of (w_chan_group w) tx \<noteq> None then None
      else
        (let peer = client_info_from info i in
         case connect_locked cfg (w_app w) g peer tx of
           (s, None) \<Rightarrow>
             Some (w\<lparr> w_app := s, w_refused := w_refused w @ [(i, ''Limit reached'')] \<rparr>)
         | (s, Some (peers_tx, peers)) \<Rightarrow>
             Some (put_task i
               \<lparr> ct_group = g, ct_peer = peer, ct_tx = tx, ct_phase = Greeting,
                 ct_pending = connect_sends peer tx peers_tx peers \<rparr>
               (w\<lparr> w_app := s, w_chan_group := AList.update tx g (w_chan_group w) \<rparr>))))"
| "exec cfg (EvSend i) w =
     (case map_of (w_tasks w) i of
        None \<Rightarrow> None
      | Some t \<Rightarrow>
          (case ct_pending t of
             [] \<Rightarrow> None
           | (tx, m) # rest \<Rightarrow>
               Some (put_task i (t\<lparr> ct_pending := rest \<rparr>)
                 (w\<lparr> w_log := w_log w @ [(i, ct_group t, tx, m)] \<rparr>))))"
| "exec cfg (EvServe i) w =
     (case map_of (w_tasks w) i of
        None \<Rightarrow> None
      | Some t \<Rightarrow>
          if ct_phase t = Greeting \<and> ct_pending t = [] then Some (put_task i (t\<lparr> ct_phase := Serving \<rparr>) w)
          else None)"
| "exec cfg (EvText i parsed) w =
     (case map_of (w_tasks w) i of
        None \<Rightarrow> None
      | Some t \<Rightarrow>
          if ct_phase t = Serving \<and> ct_pending t = [] then
            (case handle_text cfg (w_app w) (ct_group t) (ct_peer t) (ct_tx t) parsed of
               (s, sends, go) \<Rightarrow>
                 Some (put_task i
                   (t\<lparr> ct_pending := sends, ct_phase := (if go then Serving else Stopping) \<rparr>)
                   (w\<lparr> w_app := s \<rparr>)))
          else None)"
| "exec cfg (EvClose i) w =
     (case map_of (w_tasks w) i of
        None \<Rightarrow> None
      | Some t \<Rightarrow>
          if ct_phase t = Serving \<or> ct_phase t = Stopping then
            (case disconnect_locked (w_app w) (ct_group t) i of
               (s, sends) \<Rightarrow>
                 Some (put_task i (t\<lparr> ct_pending := sends, ct_phase := Leaving \<rparr>) (w\<lparr> w_app := s \<rparr>)))
          else None)"
| "exec cfg (EvDone i) w =
     (case map_of (w_tasks w) i of
        None \<Rightarrow> None
      | Some t \<Rightarrow>
          if ct_phase t = Leaving \<and> ct_pending t = []
          then Some (w\<lparr> w_tasks := AList.delete i (w_tasks w) \<rparr>) else None)"
| "exec cfg EvHour w = Some (w\<lparr> w_app := hourly_reset (w_app w) \<rparr>)"

inductive reachable :: "ws_config \<Rightarrow> ws_world \<Rightarrow> bool" for cfg where
  init: "reachable cfg ws_init"
| step: "reachable cfg w \<Longrightarrow> exec cfg e w = Some w' \<Longrightarrow> reachable cfg w'"

section \<open>Specification vocabulary\<close>

definition entry :: "app_state \<Rightarrow> string \<Rightarrow> uuid \<Rightarrow> client_state option" where
  "entry s g i = map_of (local_map_of s g) i"

definition limits_ok :: "ws_config \<Rightarrow> app_state \<Rightarrow> bool" where
  "limits_ok cfg s \<longleftrightarrow>
     (\<forall>g. distinct (map fst (local_map_of s g)) \<and> length (local_map_of s g) \<le> max_connections cfg) \<and>
     distinct (map fst (tx_map s)) \<and>
     (\<forall>g c. map_of (request_count_map s) g = Some c \<longrightarrow> c \<le> max_requests cfg)"

text \<open>Whom a message is about; \<open>Error\<close> only goes to the peer that caused it.\<close>

fun authentic :: "uuid \<Rightarrow> ws_server_message \<Rightarrow> bool" where
  "authentic i (Hello c peers) = (ci_id c = i)"
| "authentic i (Join p) = (ci_id p = i)"
| "authentic i (Update p) = (ci_id p = i)"
| "authentic i (Left j) = (j = i)"
| "authentic i (Offer m) = (ci_id (sdp_peer m) = i)"
| "authentic i (Answer m) = (ci_id (sdp_peer m) = i)"
| "authentic i (Error code) = True"

text \<open>Where the sends of an operation of peer \<open>i\<close> in room \<open>g\<close> may go.\<close>

definition sends_ok ::
  "app_state \<Rightarrow> string \<Rightarrow> uuid \<Rightarrow> nat \<Rightarrow> (nat \<times> ws_server_message) list \<Rightarrow> bool" where
  "sends_ok s g i tx sends \<longleftrightarrow>
     (\<forall>(tx', m) \<in> set sends. authentic i m \<and>
        (tx' = tx \<or> (\<exists>j c. entry s g j = Some c \<and> cs_tx c = tx')))"

definition task_ok ::
  "app_state \<Rightarrow> (nat, string) hash_map \<Rightarrow> uuid \<Rightarrow> conn_task \<Rightarrow> bool" where
  "task_ok s chans i t \<longleftrightarrow>
     ci_id (ct_peer t) = i \<and> map_of chans (ct_tx t) = Some (ct_group t) \<and>
     (ct_phase t \<noteq> Leaving \<longrightarrow> (\<exists>c. entry s (ct_group t) i = Some c \<and> cs_tx c = ct_tx t)) \<and>
     (\<forall>(tx, m) \<in> set (ct_pending t). map_of chans tx = Some (ct_group t) \<and> authentic i m)"

definition world_ok :: "ws_config \<Rightarrow> ws_world \<Rightarrow> bool" where
  "world_ok cfg w \<longleftrightarrow>
     limits_ok cfg (w_app w) \<and>
     (\<forall>i t. map_of (w_tasks w) i = Some t \<longrightarrow> task_ok (w_app w) (w_chan_group w) i t) \<and>
     (\<forall>g i c. entry (w_app w) g i = Some c \<longrightarrow>
        (\<exists>t. map_of (w_tasks w) i = Some t \<and> ct_group t = g \<and> ct_phase t \<noteq> Leaving \<and> ct_tx t = cs_tx c)) \<and>
     (\<forall>(i, g, tx, m) \<in> set (w_log w). map_of (w_chan_group w) tx = Some g \<and> authentic i m)"

text \<open>The messages a channel carried, and the peer list a client builds from them.\<close>

definition chan_messages :: "ws_world \<Rightarrow> nat \<Rightarrow> ws_server_message list" where
  "chan_messages w tx = [m. (i, g, tx', m) \<leftarrow> w_log w, tx' = tx]"

fun view_step :: "uuid list \<Rightarrow> ws_server_message \<Rightarrow> uuid list" where
  "view_step v (Hello c peers) = map ci_id peers"
| "view_step v (Join p) = List.insert (ci_id p) v"
| "view_step v (Left j) = removeAll j v"
| "view_step v m = v"

definition peer_view :: "ws_world \<Rightarrow> nat \<Rightarrow> uuid list" where
  "peer_view w tx = foldl view_step [] (chan_messages w tx)"

text \<open>The rooms as the specification sees them: a set of member ids per room.\<close>

definition members :: "app_state \<Rightarrow> string \<Rightarrow> uuid set" where
  "members s g = fst ` set (local_map_of s g)"

datatype room_op = RoomJoin string uuid | RoomLeave string uuid | RoomStay

fun room_spec :: "room_op \<Rightarrow> (string \<Rightarrow> uuid set) \<Rightarrow> string \<Rightarrow> uuid set" where
  "room_spec (RoomJoin g i) r = r(g := insert i (r g))"
| "room_spec (RoomLeave g i) r = r(g := r g - {i})"
| "room_spec RoomStay r = r"

text \<open>The specification step an event of the server amounts to.\<close>

fun event_room_op :: "ws_config \<Rightarrow> ws_event \<Rightarrow> ws_world \<Rightarrow> room_op" where
  "event_room_op cfg (EvConnect g info i tx) w =
     (case connect_locked cfg (w_app w) g (client_info_from info i) tx of
        (s, None) \<Rightarrow> RoomStay | (s, Some r) \<Rightarrow> RoomJoin g i)"
| "event_room_op cfg (EvClose i) w =
     (case map_of (w_tasks w) i of None \<Rightarrow> RoomStay | Some t \<Rightarrow> RoomLeave (ct_group t) i)"
| "event_room_op cfg e w = RoomStay"

definition demo_info :: "string \<Rightarrow> client_info_without_id" where
  "demo_info a = \<lparr> cw_alias = a, cw_version = ''2.3'', cw_device_model = None, cw_device_type = None,
     cw_token = ''t'' \<rparr>"

definition demo_schedule :: "ws_event list" where
  "demo_schedule =
       [EvConnect ''10.0.0.7'' (demo_info ''A'') 1 11, EvSend 1, EvServe 1,
        EvConnect ''10.0.0.7'' (demo_info ''B'') 2 12, EvSend 2, EvSend 2, EvServe 2,
        EvText 1 (Some (ClientOffer \<lparr> csdp_session_id = ''s'', csdp_target = 2, csdp_sdp = ''x'' \<rparr>)),
        EvSend 1]"

definition demo_world :: ws_world where
  "demo_world = the (run_events (exec default_config) demo_schedule ws_init)"

text \<open>
  Two schedules used below: a peer leaves between the moment a newcomer read the room and the
  moment the newcomer's greeting is sent; and a peer changes its alias before it sends an offer.
\<close>

definition race_schedule :: "ws_event list" where
  "race_schedule =
     [EvConnect ''10.0.0.7'' (demo_info ''B'') 2 12, EvSend 2, EvServe 2,
      EvConnect ''10.0.0.7'' (demo_info ''A'') 1 11,
      EvClose 2, EvSend 2, EvDone 2,
      EvSend 1, EvSend 1, EvServe 1]"

definition rename_schedule :: "ws_event list" where
  "rename_schedule =
     [EvConnect ''10.0.0.7'' (demo_info ''A'') 1 11, EvSend 1, EvServe 1,
      EvConnect ''10.0.0.7'' (demo_info ''B'') 2 12, EvSend 2, EvSend 2, EvServe 2,
      EvText 1 (Some (ClientUpdate (demo_info ''A2''))), EvSend 1,
      EvText 1 (Some (ClientOffer \<lparr> csdp_session_id = ''s'', csdp_target = 2, csdp_sdp = ''x'' \<rparr>)),
      EvSend 1]"

section \<open>The registry\<close>

lemma local_map_of_update [simp]:
  "local_map_of (s\<lparr> tx_map := AList.update g m (tx_map s') \<rparr>) g' =
     (if g' = g then m else local_map_of s' g')"
  by (simp add: local_map_of_def alist_simps)

lemma local_map_of_update_counts [simp]:
  "local_map_of (s\<lparr> tx_map := AList.update g m (tx_map s'), request_count_map := c \<rparr>) g' =
     (if g' = g then m else local_map_of s' g')"
  by (simp add: local_map_of_def alist_simps)

lemma local_map_of_counts [simp]: "local_map_of (s\<lparr> request_count_map := c \<rparr>) g = local_map_of s g"
  by (simp add: local_map_of_def)

lemma local_map_of_delete [simp]:
  "local_map_of (s\<lparr> tx_map := AList.delete g (tx_map s') \<rparr>) g' =
     (if g' = g then [] else local_map_of s' g')"
  by (simp add: local_map_of_def alist_simps)

lemma local_map_of_reset [simp]: "local_map_of (hourly_reset s) g = local_map_of s g"
  by (simp add: hourly_reset_def)

lemma local_map_of_SomeD: "map_of (tx_map s) g = Some m \<Longrightarrow> local_map_of s g = m"
  by (simp add: local_map_of_def)

text \<open>The request limit: what each outcome does to the counter of a room.\<close>

lemma protect_ddos_cases:
  obtains (limited) counts' where
      "protect_ddos_request_count cfg counts g = (Inl (app_error_status 429 None), counts')"
      "\<exists>c. map_of counts' g = Some c \<and> max_requests cfg \<le> c"
      "\<And>g' c. map_of counts' g' = Some c \<Longrightarrow> map_of counts g' = Some c \<or> c = 0"
  | (counted) counts' c where
      "protect_ddos_request_count cfg counts g = (Inr (), counts')"
      "c < max_requests cfg" "unat (c + 1) = Suc (unat c)"
      "c = (case map_of counts g of Some c \<Rightarrow> c | None \<Rightarrow> 0)"
      "map_of counts' = (map_of counts)(g \<mapsto> c + 1)"
proof (cases "(case map_of counts g of Some c \<Rightarrow> c | None \<Rightarrow> 0) \<ge> max_requests cfg")
  case True
  then show thesis
    by (intro limited [of "AList.update g (case map_of counts g of Some c \<Rightarrow> c | None \<Rightarrow> 0) counts"])
      (auto simp: protect_ddos_request_count_def Let_def alist_simps split: option.splits if_splits)
next
  case False
  define c where "c = (case map_of counts g of Some c \<Rightarrow> c | None \<Rightarrow> 0)"
  with False have lt: "c < max_requests cfg" by (simp add: not_le)
  then have "unat (c + 1) = Suc (unat c)"
    by (rule unat_Suc_if_less)
  with lt show thesis
    by (intro counted [of "AList.update g (c + 1) (AList.update g c counts)" c])
      (auto simp: protect_ddos_request_count_def Let_def c_def alist_simps fun_eq_iff)
qed

text \<open>Joining: refused with the rooms unchanged, or the peer is stored and told who was there.\<close>

lemma connect_locked_cases:
  obtains (refused) s' where
      "connect_locked cfg s g p tx = (s', None)"
      "local_map_of s' = local_map_of s"
      "max_connections cfg \<le> length (local_map_of s g) \<or>
       (\<exists>c. map_of (request_count_map s') g = Some c \<and> max_requests cfg \<le> c)"
  | (joined) s' where
      "connect_locked cfg s g p tx =
         (s', Some (map (\<lambda>(k, v). cs_tx v) (local_map_of s g),
                    map (\<lambda>(k, v). client_info_from (cs_client v) k) (local_map_of s g)))"
      "length (local_map_of s g) < max_connections cfg"
      "local_map_of s' = (local_map_of s)
         (g := AList.update (ci_id p) \<lparr> cs_client = without_id p, cs_tx = tx \<rparr> (local_map_of s g))"
proof (cases "max_connections cfg \<le> length (local_map_of s g)")
  case True
  then show thesis
    by (intro refused) (auto simp: connect_locked_def Let_def fun_eq_iff)
next
  case False
  show thesis
  proof (rule protect_ddos_cases [of cfg "request_count_map s" g])
    fix counts'
    assume "protect_ddos_request_count cfg (request_count_map s) g = (Inl (app_error_status 429 None), counts')"
      and "\<exists>c. map_of counts' g = Some c \<and> max_requests cfg \<le> c"
    with False show thesis
      by (intro refused) (auto simp: connect_locked_def Let_def fun_eq_iff)
  next
    fix counts' c
    assume "protect_ddos_request_count cfg (request_count_map s) g = (Inr (), counts')"
    with False show thesis
      by (intro joined) (auto simp: connect_locked_def Let_def fun_eq_iff)
  qed
qed

lemma protect_ddos_bound:
  assumes "\<forall>g c. map_of counts g = Some c \<longrightarrow> c \<le> max_requests cfg"
    and "protect_ddos_request_count cfg counts g = (r, counts')"
  shows "\<forall>g c. map_of counts' g = Some c \<longrightarrow> c \<le> max_requests cfg"
proof (rule protect_ddos_cases [of cfg counts g])
  fix counts'' assume "protect_ddos_request_count cfg counts g = (Inl (app_error_status 429 None), counts'')"
    and "\<And>g' c. map_of counts'' g' = Some c \<Longrightarrow> map_of counts g' = Some c \<or> c = 0"
  with assms show ?thesis by fastforce
next
  fix counts'' c
  assume eq: "protect_ddos_request_count cfg counts g = (Inr (), counts'')"
    and c: "c < max_requests cfg" "unat (c + 1) = Suc (unat c)"
    and upd: "map_of counts'' = (map_of counts)(g \<mapsto> c + 1)"
  from c have "c + 1 \<le> max_requests cfg"
    by (simp add: word_le_nat_alt word_less_nat_alt)
  with assms eq upd show ?thesis by auto
qed

lemma distinct_keys_update:
  "distinct (map fst m) \<Longrightarrow> distinct (map fst (AList.update k v m))"
  by (rule AList.distinct_update)

lemma limits_ok_new: "limits_ok cfg app_state_new"
  by (simp add: limits_ok_def app_state_new_def local_map_of_def)

lemma limits_ok_hourly_reset: "limits_ok cfg s \<Longrightarrow> limits_ok cfg (hourly_reset s)"
  by (simp add: limits_ok_def) (simp add: hourly_reset_def)

lemma connect_locked_counts:
  assumes "connect_locked cfg s g p tx = (s', r)"
  shows "request_count_map s' = request_count_map s \<or>
         (\<exists>o'. protect_ddos_request_count cfg (request_count_map s) g = (o', request_count_map s'))"
  using assms
  by (auto simp: connect_locked_def Let_def split: if_splits prod.splits sum.splits)

lemma connect_locked_tx_map_distinct:
  assumes "distinct (map fst (tx_map s))" "connect_locked cfg s g p tx = (s', r)"
  shows "distinct (map fst (tx_map s'))"
  using assms
  by (auto simp: connect_locked_def Let_def distinct_keys_update split: if_splits prod.splits sum.splits)

lemma limits_ok_connect:
  assumes ok: "limits_ok cfg s" and con: "connect_locked cfg s g p tx = (s', r)"
  shows "limits_ok cfg s'"
proof -
  have "\<forall>g c. map_of (request_count_map s') g = Some c \<longrightarrow> c \<le> max_requests cfg"
    using ok connect_locked_counts [OF con] protect_ddos_bound
    unfolding limits_ok_def by metis
  moreover have "distinct (map fst (tx_map s'))"
    using ok con connect_locked_tx_map_distinct unfolding limits_ok_def by blast
  moreover have "distinct (map fst (local_map_of s' g')) \<and> length (local_map_of s' g') \<le> max_connections cfg"
    for g'
  proof (rule connect_locked_cases [of cfg s g p tx])
    fix s'' assume "connect_locked cfg s g p tx = (s'', None)" "local_map_of s'' = local_map_of s"
    with con ok show ?thesis by (simp add: limits_ok_def)
  next
    fix s'' assume eq: "connect_locked cfg s g p tx =
        (s'', Some (map (\<lambda>(k, v). cs_tx v) (local_map_of s g),
                    map (\<lambda>(k, v). client_info_from (cs_client v) k) (local_map_of s g)))"
      and len: "length (local_map_of s g) < max_connections cfg"
      and upd: "local_map_of s'' = (local_map_of s)
         (g := AList.update (ci_id p) \<lparr> cs_client = without_id p, cs_tx = tx \<rparr> (local_map_of s g))"
    have "s'' = s'" using eq con by simp
    with upd len ok show ?thesis
      by (auto simp: limits_ok_def distinct_keys_update intro: order_trans [OF length_update_le])
  qed
  ultimately show ?thesis by (simp add: limits_ok_def)
qed

text \<open>Updating: the entry of the peer gets the new description and keeps its channel.\<close>

lemma send_update_cases:
  obtains (absent) "send_update_to_other_peers_with_lock s g i info = (s, [])"
      "entry s g i = None"
  | (present) c where
      "entry s g i = Some c"
      "send_update_to_other_peers_with_lock s g i info =
         (s\<lparr> tx_map := AList.update g (AList.update i (c\<lparr> cs_client := info \<rparr>) (local_map_of s g)) (tx_map s) \<rparr>,
          map (\<lambda>(k, v). (cs_tx v, Update (client_info_from info i)))
            (filter (\<lambda>(k, v). k \<noteq> i) (AList.update i (c\<lparr> cs_client := info \<rparr>) (local_map_of s g))))"
proof (cases "map_of (tx_map s) g")
  case None
  then show thesis
    by (intro absent) (simp_all add: send_update_to_other_peers_with_lock_def entry_def local_map_of_def)
next
  case (Some m)
  then have m: "local_map_of s g = m" by (rule local_map_of_SomeD)
  show thesis
  proof (cases "map_of m i")
    case None
    then show thesis
      by (intro absent) (simp_all add: send_update_to_other_peers_with_lock_def entry_def m Some)
  next
    case (Some c)
    with \<open>map_of (tx_map s) g = Some m\<close> show thesis
      by (intro present [of c])
        (simp_all add: send_update_to_other_peers_with_lock_def entry_def m Let_def o_def case_prod_unfold)
  qed
qed

text \<open>Leaving: the entry is gone, the rest of the room is told.\<close>

lemma disconnect_locked_facts:
  assumes "disconnect_locked s g i = (s', sends)"
  shows "local_map_of s' = (local_map_of s)(g := AList.delete i (local_map_of s g))"
    and "sends = map (\<lambda>(k, v). (cs_tx v, Left i)) (AList.delete i (local_map_of s g))"
    and "request_count_map s' = request_count_map s"
    and "distinct (map fst (tx_map s)) \<Longrightarrow> distinct (map fst (tx_map s'))"
  using assms
  by (auto simp: disconnect_locked_def Let_def fun_eq_iff local_map_of_def alist_simps
      AList.distinct_delete distinct_keys_update split: option.splits if_splits)

lemma limits_ok_disconnect:
  assumes "limits_ok cfg s" "disconnect_locked s g i = (s', sends)"
  shows "limits_ok cfg s'"
  using assms(1) disconnect_locked_facts [OF assms(2)]
  by (auto simp: limits_ok_def AList.distinct_delete intro: order_trans [OF AList.length_delete_le])

lemma limits_ok_update:
  assumes ok: "limits_ok cfg s" and upd: "send_update_to_other_peers_with_lock s g i info = (s', sends)"
  shows "limits_ok cfg s'"
proof (cases rule: send_update_cases [of s g i info])
  case absent
  with ok upd show ?thesis by simp
next
  case (present c)
  then have "length (AList.update i (c\<lparr> cs_client := info \<rparr>) (local_map_of s g)) = length (local_map_of s g)"
    by (simp add: entry_def length_update_mem)
  with present ok upd show ?thesis
    by (auto simp: limits_ok_def distinct_keys_update)
qed

lemma limits_ok_counts:
  assumes "limits_ok cfg s" "protect_ddos_request_count cfg (request_count_map s) g = (r, counts)"
  shows "limits_ok cfg (s\<lparr> request_count_map := counts \<rparr>)"
  using assms protect_ddos_bound [OF _ assms(2)] by (simp add: limits_ok_def)

lemma handle_text_cases:
  assumes "handle_text cfg s g p tx parsed = (s', sends, go)"
  obtains (skipped) "parsed = None" "s' = s" "sends = []" "go"
  | (limited) counts e where
      "protect_ddos_request_count cfg (request_count_map s) g = (Inl e, counts)"
      "s' = s\<lparr> request_count_map := counts \<rparr>" "sends = [(tx, Error 429)]" "\<not> go"
  | (updated) counts info where
      "protect_ddos_request_count cfg (request_count_map s) g = (Inr (), counts)"
      "parsed = Some (ClientUpdate info)"
      "send_update_to_other_peers_with_lock (s\<lparr> request_count_map := counts \<rparr>) g (ci_id p) info = (s', sends)"
      "go"
  | (relayed) counts wrapped where
      "protect_ddos_request_count cfg (request_count_map s) g = (Inr (), counts)"
      "s' = s\<lparr> request_count_map := counts \<rparr>"
      "parsed = Some (case wrapped of WrapOffer x \<Rightarrow> ClientOffer x | WrapAnswer x \<Rightarrow> ClientAnswer x)"
      "sends = send_to_peer_with_lock (s\<lparr> request_count_map := counts \<rparr>) g p wrapped" "go"
proof (cases parsed)
  case None
  with assms show thesis by (intro skipped) (auto simp: handle_text_def)
next
  case (Some msg)
  obtain r counts where pd: "protect_ddos_request_count cfg (request_count_map s) g = (r, counts)"
    by (cases "protect_ddos_request_count cfg (request_count_map s) g")
  show thesis
  proof (cases r)
    case (Inl e)
    with assms Some pd show thesis by (intro limited) (auto simp: handle_text_def)
  next
    case (Inr u)
    with assms Some pd show thesis
      by (cases msg)
        (auto simp: handle_text_def Let_def split: prod.splits
          intro: updated relayed [of counts "WrapOffer _"] relayed [of counts "WrapAnswer _"])
  qed
qed

lemma limits_ok_handle_text:
  assumes ok: "limits_ok cfg s" and ht: "handle_text cfg s g p tx parsed = (s', sends, go)"
  shows "limits_ok cfg s'"
  using ht
proof (cases rule: handle_text_cases)
  case skipped
  with ok show ?thesis by simp
next
  case limited
  with ok limits_ok_counts show ?thesis by blast
next
  case updated
  with ok limits_ok_counts limits_ok_update show ?thesis by blast
next
  case relayed
  with ok limits_ok_counts show ?thesis by blast
qed

section \<open>All interleavings\<close>

lemma entry_member:
  "limits_ok cfg s \<Longrightarrow> (k, v) \<in> set (local_map_of s g) \<Longrightarrow> entry s g k = Some v"
  by (simp add: limits_ok_def entry_def)

lemma sends_ok_connect:
  assumes "limits_ok cfg s"
  shows "sends_ok s g (ci_id p) tx
    (connect_sends p tx (map (\<lambda>(k, v). cs_tx v) (local_map_of s g)) peers)"
  using entry_member [OF assms] by (fastforce simp: sends_ok_def connect_sends_def)

lemma sends_ok_disconnect:
  assumes "limits_ok cfg s" "disconnect_locked s g i = (s', sends)"
  shows "sends_ok s g i tx sends"
  using entry_member [OF assms(1)] disconnect_locked_facts(2) [OF assms(2)]
  by (fastforce simp: sends_ok_def AList.delete_eq)

lemma update_member_other:
  "(k, v) \<in> set (AList.update i x m) \<Longrightarrow> k \<noteq> i \<Longrightarrow> (k, v) \<in> set m"
  by (induction m) (auto split: if_splits)

lemma sends_ok_update:
  assumes ok: "limits_ok cfg s" and upd: "send_update_to_other_peers_with_lock s g i info = (s', sends)"
  shows "sends_ok s g i tx sends"
proof (cases rule: send_update_cases [of s g i info])
  case absent
  with upd show ?thesis by (simp add: sends_ok_def)
next
  case (present c)
  with upd entry_member [OF ok] show ?thesis
    by (fastforce simp: sends_ok_def dest: update_member_other)
qed

lemma sends_ok_relay: "ci_id p = i \<Longrightarrow> sends_ok s g i tx (send_to_peer_with_lock s g p wrapped)"
  by (cases wrapped)
    (auto simp: sends_ok_def send_to_peer_with_lock_def entry_def local_map_of_def dest: sym
      split: option.splits)

lemma entry_counts [simp]: "entry (s\<lparr> request_count_map := c \<rparr>) = entry s"
  by (simp add: entry_def fun_eq_iff)

lemma sends_ok_counts [simp]: "sends_ok (s\<lparr> request_count_map := c \<rparr>) = sends_ok s"
  by (simp add: sends_ok_def fun_eq_iff)

lemma sends_ok_handle_text:
  assumes ok: "limits_ok cfg s" and i: "ci_id p = i"
    and ht: "handle_text cfg s g p tx parsed = (s', sends, go)"
  shows "sends_ok s g i tx sends"
  using ht
proof (cases rule: handle_text_cases)
  case (updated counts info)
  with i sends_ok_update [OF limits_ok_counts [OF ok updated(1)]] show ?thesis by fastforce
next
  case (relayed counts wrapped)
  with sends_ok_relay [OF i] show ?thesis by (metis sends_ok_counts)
qed (auto simp: sends_ok_def)

text \<open>No message of a served peer changes who is registered, or under which channel.\<close>

lemma entry_handle_text:
  assumes "handle_text cfg s g p tx parsed = (s', sends, go)"
  shows "map_option cs_tx (entry s' g' j) = map_option cs_tx (entry s g' j)"
  using assms
proof (cases rule: handle_text_cases)
  case (updated counts info)
  show ?thesis
  proof (cases rule: send_update_cases [of "s\<lparr> request_count_map := counts \<rparr>" g "ci_id p" info])
    case absent
    with updated show ?thesis by auto
  next
    case (present c)
    with updated show ?thesis
      by (auto simp: entry_def alist_simps)
  qed
qed auto

lemma entry_connect_joined:
  assumes "local_map_of s' = (local_map_of s)
     (g := AList.update i \<lparr> cs_client = c, cs_tx = tx \<rparr> (local_map_of s g))"
  shows "entry s' g' j =
     (if g' = g \<and> j = i then Some \<lparr> cs_client = c, cs_tx = tx \<rparr> else entry s g' j)"
  by (simp add: entry_def assms alist_simps)

lemma entry_disconnect:
  assumes "disconnect_locked s g i = (s', sends)"
  shows "entry s' g' j = (if g' = g \<and> j = i then None else entry s g' j)"
  by (simp add: entry_def disconnect_locked_facts(1) [OF assms] alist_simps)

lemma chan_of_entry:
  assumes "world_ok cfg w" "entry (w_app w) g j = Some c"
  shows "map_of (w_chan_group w) (cs_tx c) = Some g"
  using assms unfolding world_ok_def task_ok_def by metis

text \<open>Sends that stay in the room become pending sends that do.\<close>

lemma pending_ok:
  assumes "world_ok cfg w" "sends_ok (w_app w) g i tx sends" "map_of (w_chan_group w) tx = Some g"
  shows "\<forall>(tx', m) \<in> set sends. map_of (w_chan_group w) tx' = Some g \<and> authentic i m"
  using assms chan_of_entry [OF assms(1)] by (fastforce simp: sends_ok_def)

lemma world_ok_init: "world_ok cfg ws_init"
  using limits_ok_new
  by (simp add: world_ok_def ws_init_def entry_def local_map_of_def app_state_new_def)

lemma world_okI:
  assumes "limits_ok cfg (w_app w)"
    and "\<And>i t. map_of (w_tasks w) i = Some t \<Longrightarrow> task_ok (w_app w) (w_chan_group w) i t"
    and "\<And>g i c. entry (w_app w) g i = Some c \<Longrightarrow>
      \<exists>t. map_of (w_tasks w) i = Some t \<and> ct_group t = g \<and> ct_phase t \<noteq> Leaving \<and> ct_tx t = cs_tx c"
    and "\<And>i g tx m. (i, g, tx, m) \<in> set (w_log w) \<Longrightarrow>
      map_of (w_chan_group w) tx = Some g \<and> authentic i m"
  shows "world_ok cfg w"
  using assms unfolding world_ok_def by blast

lemma world_ok_logD:
  "world_ok cfg w \<Longrightarrow> (i, g, tx, m) \<in> set (w_log w) \<Longrightarrow>
   map_of (w_chan_group w) tx = Some g \<and> authentic i m"
  unfolding world_ok_def by blast

lemma world_ok_entryD:
  "world_ok cfg w \<Longrightarrow> entry (w_app w) g i = Some c \<Longrightarrow>
   \<exists>t. map_of (w_tasks w) i = Some t \<and> ct_group t = g \<and> ct_phase t \<noteq> Leaving \<and> ct_tx t = cs_tx c"
  unfolding world_ok_def by blast

lemma world_ok_limitsD: "world_ok cfg w \<Longrightarrow> limits_ok cfg (w_app w)"
  unfolding world_ok_def by blast

lemma world_ok_taskD:
  "world_ok cfg w \<Longrightarrow> map_of (w_tasks w) i = Some t \<Longrightarrow> task_ok (w_app w) (w_chan_group w) i t"
  by (simp add: world_ok_def)

text \<open>
  Replacing the task of a peer that stays registered, with a state in which the same peers hold
  the same channels, keeps the invariant.
\<close>

lemma world_ok_put_task:
  assumes ok: "world_ok cfg w" and t: "map_of (w_tasks w) i = Some t"
    and lim: "limits_ok cfg s" and same: "\<And>g j. map_option cs_tx (entry s g j) = map_option cs_tx (entry (w_app w) g j)"
    and t': "ct_group t' = ct_group t" "ct_peer t' = ct_peer t" "ct_tx t' = ct_tx t"
    and ph: "ct_phase t' \<noteq> Leaving \<longleftrightarrow> ct_phase t \<noteq> Leaving"
    and pend: "\<forall>(tx, m) \<in> set (ct_pending t'). map_of (w_chan_group w) tx = Some (ct_group t) \<and> authentic i m"
    and log: "\<forall>(j, g, tx, m) \<in> set l. map_of (w_chan_group w) tx = Some g \<and> authentic j m"
  shows "world_ok cfg (put_task i t' (w\<lparr> w_app := s, w_log := w_log w @ l \<rparr>))"
proof -
  have tr: "entry s g j = Some c \<Longrightarrow> \<exists>c'. entry (w_app w) g j = Some c' \<and> cs_tx c' = cs_tx c"
    "entry (w_app w) g j = Some c \<Longrightarrow> \<exists>c'. entry s g j = Some c' \<and> cs_tx c' = cs_tx c" for g j c
    using same [of g j] by (auto simp: map_option_case split: option.splits)
  have task: "task_ok s (w_chan_group w) j u" if "task_ok (w_app w) (w_chan_group w) j u" for j u
    using that tr(2) unfolding task_ok_def by fastforce
  have "task_ok s (w_chan_group w) i t'"
    using task [OF world_ok_taskD [OF ok t]] t' ph pend unfolding task_ok_def by auto
  show ?thesis
  proof (rule world_okI)
    fix j u assume "map_of (w_tasks (put_task i t' (w\<lparr> w_app := s, w_log := w_log w @ l \<rparr>))) j = Some u"
    then have "u = t' \<and> j = i \<or> map_of (w_tasks w) j = Some u"
      by (auto simp: put_task_def alist_simps split: if_splits)
    then show "task_ok (w_app (put_task i t' (w\<lparr> w_app := s, w_log := w_log w @ l \<rparr>)))
        (w_chan_group (put_task i t' (w\<lparr> w_app := s, w_log := w_log w @ l \<rparr>))) j u"
      using \<open>task_ok s (w_chan_group w) i t'\<close> task world_ok_taskD [OF ok] by (auto simp: put_task_def)
  next
    fix g j c assume "entry (w_app (put_task i t' (w\<lparr> w_app := s, w_log := w_log w @ l \<rparr>))) g j = Some c"
    then obtain c' where "entry (w_app w) g j = Some c'" "cs_tx c' = cs_tx c"
      using tr(1) [of g j c] by (auto simp: put_task_def)
    with world_ok_entryD [OF ok] t t' ph
    show "\<exists>u. map_of (w_tasks (put_task i t' (w\<lparr> w_app := s, w_log := w_log w @ l \<rparr>))) j = Some u \<and>
        ct_group u = g \<and> ct_phase u \<noteq> Leaving \<and> ct_tx u = cs_tx c"
      by (fastforce simp: put_task_def alist_simps)
  next
    fix j g tx m assume "(j, g, tx, m) \<in> set (w_log (put_task i t' (w\<lparr> w_app := s, w_log := w_log w @ l \<rparr>)))"
    then show "map_of (w_chan_group (put_task i t' (w\<lparr> w_app := s, w_log := w_log w @ l \<rparr>))) tx = Some g \<and>
        authentic j m"
      using log world_ok_logD [OF ok] by (auto simp: put_task_def)
  qed (simp add: put_task_def lim)
qed

lemma task_ok_cong: "entry s = entry s' \<Longrightarrow> task_ok s = task_ok s'"
  by (simp add: task_ok_def fun_eq_iff)

lemma world_ok_same_entries:
  assumes ok: "world_ok cfg w" and "limits_ok cfg s" and e: "entry s = entry (w_app w)"
  shows "world_ok cfg (w\<lparr> w_app := s, w_refused := r \<rparr>)"
  using assms task_ok_cong [OF e] by (intro world_okI)
    (auto dest: world_ok_taskD [OF ok] world_ok_entryD [OF ok] world_ok_logD [OF ok])

lemma world_ok_connect:
  assumes ok: "world_ok cfg w" and ex: "exec cfg (EvConnect g info i tx) w = Some w'"
  shows "world_ok cfg w'"
proof -
  let ?p = "client_info_from info i"
  from ex have i: "map_of (w_tasks w) i = None" and tx: "map_of (w_chan_group w) tx = None"
    by (auto split: if_splits)
  have fresh: "entry (w_app w) g' i = None" for g'
    using world_ok_entryD [OF ok, of g' i] i by fastforce
  show ?thesis
  proof (cases rule: connect_locked_cases [of cfg "w_app w" g ?p tx])
    case (refused s)
    then have lim: "limits_ok cfg s" and "entry s = entry (w_app w)"
      using limits_ok_connect [OF world_ok_limitsD [OF ok]] by (auto simp: entry_def fun_eq_iff)
    with ex refused i tx world_ok_same_entries [OF ok] show ?thesis
      by (auto simp: Let_def)
  next
    case (joined s)
    define t where "t = \<lparr> ct_group = g, ct_peer = ?p, ct_tx = tx, ct_phase = Greeting,
      ct_pending = connect_sends ?p tx (map (\<lambda>(k, v). cs_tx v) (local_map_of (w_app w) g))
        (map (\<lambda>(k, v). client_info_from (cs_client v) k) (local_map_of (w_app w) g)) \<rparr>"
    define chans where "chans = AList.update tx g (w_chan_group w)"
    have w': "w' = put_task i t (w\<lparr> w_app := s, w_chan_group := chans \<rparr>)"
      using ex i tx joined(1) by (simp add: t_def chans_def Let_def)
    note es = entry_connect_joined [OF joined(3)]
    have old: "map_of (w_chan_group w) c = Some g' \<Longrightarrow> map_of chans c = Some g'" for c g'
      using tx by (auto simp: chans_def alist_simps)
    have task: "task_ok s chans j u" if "map_of (w_tasks w) j = Some u" for j u
    proof -
      have "j \<noteq> i" using that i by auto
      then show ?thesis
        using world_ok_taskD [OF ok that] es old unfolding task_ok_def by fastforce
    qed
    have "\<forall>(tx', m) \<in> set (ct_pending t). map_of chans tx' = Some g \<and> authentic i m"
      using sends_ok_connect [OF world_ok_limitsD [OF ok], of g ?p tx] chan_of_entry [OF ok] old
      by (fastforce simp: sends_ok_def t_def chans_def alist_simps)
    then have "task_ok s chans i t"
      by (auto simp: task_ok_def es t_def chans_def alist_simps)
    moreover have "limits_ok cfg s"
      using limits_ok_connect [OF world_ok_limitsD [OF ok] joined(1)] .
    ultimately show ?thesis
      unfolding w'
    proof (intro world_okI, goal_cases)
      case (2 j u)
      then show ?case using task by (auto simp: put_task_def alist_simps split: if_splits)
    next
      case (3 g' j c)
      then show ?case
        using world_ok_entryD [OF ok] fresh es
        by (fastforce simp: put_task_def alist_simps t_def split: if_splits)
    next
      case (4 j g' c m)
      then show ?case using world_ok_logD [OF ok] old by (fastforce simp: put_task_def)
    qed (simp add: put_task_def)
  qed
qed

lemma world_ok_close:
  assumes ok: "world_ok cfg w" and ex: "exec cfg (EvClose i) w = Some w'"
  shows "world_ok cfg w'"
proof -
  from ex obtain t where t: "map_of (w_tasks w) i = Some t"
    by (auto split: option.splits)
  obtain s sends where d: "disconnect_locked (w_app w) (ct_group t) i = (s, sends)"
    by (cases "disconnect_locked (w_app w) (ct_group t) i")
  define t' where "t' = t\<lparr> ct_pending := sends, ct_phase := Leaving \<rparr>"
  have w': "w' = put_task i t' (w\<lparr> w_app := s \<rparr>)"
    using ex t d by (auto simp: t'_def split: if_splits)
  note es = entry_disconnect [OF d] and tok = world_ok_taskD [OF ok t]
  have gone: "entry s g i = None" for g
    using es world_ok_entryD [OF ok, of g i] t by (cases "entry (w_app w) g i") auto
  have "\<forall>(tx, m) \<in> set sends. map_of (w_chan_group w) tx = Some (ct_group t) \<and> authentic i m"
    using pending_ok [OF ok sends_ok_disconnect [OF world_ok_limitsD [OF ok] d]] tok
    unfolding task_ok_def by blast
  then have t'ok: "task_ok s (w_chan_group w) i t'"
    using tok by (auto simp: task_ok_def t'_def)
  have task: "task_ok s (w_chan_group w) j u" if "map_of (w_tasks w) j = Some u" "j \<noteq> i" for j u
    using world_ok_taskD [OF ok that(1)] es that(2) unfolding task_ok_def by fastforce
  show ?thesis
    unfolding w'
  proof (intro world_okI, goal_cases)
    case 1
    show ?case using limits_ok_disconnect [OF world_ok_limitsD [OF ok] d] by (simp add: put_task_def)
  next
    case (2 j u)
    then show ?case using task t'ok by (auto simp: put_task_def alist_simps split: if_splits)
  next
    case (3 g j c)
    then have "j \<noteq> i" using gone [of g] by (auto simp: put_task_def)
    with 3 have "entry (w_app w) g j = Some c" using es by (simp add: put_task_def)
    with \<open>j \<noteq> i\<close> show ?case using world_ok_entryD [OF ok] by (fastforce simp: put_task_def alist_simps)
  next
    case (4 j g c m)
    then show ?case using world_ok_logD [OF ok] by (fastforce simp: put_task_def)
  qed
qed

lemma world_ok_exec:
  assumes ok: "world_ok cfg w" and ex: "exec cfg e w = Some w'"
  shows "world_ok cfg w'"
proof (cases e)
  case (EvConnect g info i tx)
  with ok ex world_ok_connect show ?thesis by blast
next
  case (EvSend i)
  with ex obtain t tx m rest where t: "map_of (w_tasks w) i = Some t"
    and p: "ct_pending t = (tx, m) # rest"
    and w': "w' = put_task i (t\<lparr> ct_pending := rest \<rparr>) (w\<lparr> w_app := w_app w, w_log := w_log w @ [(i, ct_group t, tx, m)] \<rparr>)"
    by (auto split: option.splits list.splits)
  have "\<forall>(tx, m) \<in> set (ct_pending t). map_of (w_chan_group w) tx = Some (ct_group t) \<and> authentic i m"
    using world_ok_taskD [OF ok t] by (simp add: task_ok_def)
  with p show ?thesis
    unfolding w' by (intro world_ok_put_task [OF ok t world_ok_limitsD [OF ok]]) auto
next
  case (EvServe i)
  with ex obtain t where t: "map_of (w_tasks w) i = Some t" and p: "ct_phase t = Greeting" "ct_pending t = []"
    and w': "w' = put_task i (t\<lparr> ct_phase := Serving \<rparr>) (w\<lparr> w_app := w_app w, w_log := w_log w @ [] \<rparr>)"
    by (auto split: option.splits if_splits)
  with p show ?thesis
    unfolding w' by (intro world_ok_put_task [OF ok t world_ok_limitsD [OF ok]]) auto
next
  case (EvText i parsed)
  with ex obtain t where t: "map_of (w_tasks w) i = Some t" and p: "ct_phase t = Serving" "ct_pending t = []"
    by (auto split: option.splits if_splits)
  obtain s sends go where h: "handle_text cfg (w_app w) (ct_group t) (ct_peer t) (ct_tx t) parsed = (s, sends, go)"
    by (cases "handle_text cfg (w_app w) (ct_group t) (ct_peer t) (ct_tx t) parsed") auto
  have w': "w' = put_task i (t\<lparr> ct_pending := sends, ct_phase := (if go then Serving else Stopping) \<rparr>)
      (w\<lparr> w_app := s, w_log := w_log w @ [] \<rparr>)"
    using ex EvText t p h by simp
  have tok: "ci_id (ct_peer t) = i" "map_of (w_chan_group w) (ct_tx t) = Some (ct_group t)"
    using world_ok_taskD [OF ok t] by (simp_all add: task_ok_def)
  have pend: "\<forall>(tx, m) \<in> set sends. map_of (w_chan_group w) tx = Some (ct_group t) \<and> authentic i m"
    using pending_ok [OF ok sends_ok_handle_text [OF world_ok_limitsD [OF ok] tok(1) h] tok(2)] .
  show ?thesis
    unfolding w'
    using p pend entry_handle_text [OF h]
    by (intro world_ok_put_task [OF ok t limits_ok_handle_text [OF world_ok_limitsD [OF ok] h]]) auto
next
  case (EvClose i)
  with ok ex world_ok_close show ?thesis by blast
next
  case (EvDone i)
  with ex obtain t where t: "map_of (w_tasks w) i = Some t" "ct_phase t = Leaving"
    and w': "w' = w\<lparr> w_tasks := AList.delete i (w_tasks w) \<rparr>"
    by (auto split: option.splits if_splits)
  with world_ok_entryD [OF ok] world_ok_taskD [OF ok] world_ok_logD [OF ok] world_ok_limitsD [OF ok]
  show ?thesis
    unfolding w' by (intro world_okI) (fastforce simp: alist_simps split: if_splits)+
next
  case EvHour
  have "entry (hourly_reset (w_app w)) = entry (w_app w)" by (simp add: entry_def fun_eq_iff)
  from world_ok_same_entries [OF ok limits_ok_hourly_reset [OF world_ok_limitsD [OF ok]] this, of "w_refused w"]
  show ?thesis using EvHour ex by simp
qed

interpretation ws: event_system "exec cfg" ws_init "world_ok cfg" for cfg
  by unfold_locales (auto intro: world_ok_init world_ok_exec)

lemma reachable_iff_run: "reachable cfg w \<longleftrightarrow> (\<exists>es. run_events (exec cfg) es ws_init = Some w)"
proof
  show "\<exists>es. run_events (exec cfg) es ws_init = Some w" if "reachable cfg w"
    using that
  proof induction
    case init
    then show ?case by (intro exI [of _ "[]"]) simp
  next
    case (step w e w')
    then obtain es where "run_events (exec cfg) es ws_init = Some w" by blast
    with step have "run_events (exec cfg) (es @ [e]) ws_init = Some w'"
      by (simp add: run_events_append)
    then show ?case by blast
  qed
  have run: "reachable cfg w" if "reachable cfg w0" "run_events (exec cfg) es w0 = Some w" for es w0
    using that by (induction es arbitrary: w0) (auto simp: bind_eq_Some_conv intro: reachable.step)
  show "reachable cfg w" if "\<exists>es. run_events (exec cfg) es ws_init = Some w"
    using that run reachable.init by blast
qed

lemma reachable_world_ok: "reachable cfg w \<Longrightarrow> world_ok cfg w"
  using ws.Inv_run_start by (auto simp: reachable_iff_run)

section \<open>What a peer sees\<close>

lemma members_entry: "i \<in> members s g \<longleftrightarrow> entry s g i \<noteq> None"
  by (simp add: members_def entry_def map_of_eq_None_iff)

lemma reachable_runI:
  "run_events (exec cfg) es ws_init = Some w \<Longrightarrow> reachable cfg w"
  by (auto simp: reachable_iff_run)

lemma demo_run: "run_events (exec default_config) demo_schedule ws_init = Some demo_world"
  unfolding demo_world_def
  by (rule option.collapse [symmetric]) code_simp

lemma demo_reachable: "reachable default_config demo_world"
  using demo_run by (rule reachable_runI)

lemma members_connect:
  "connect_locked cfg s g p tx = (s', None) \<Longrightarrow> members s' = members s"
  "connect_locked cfg s g p tx = (s', Some r) \<Longrightarrow>
     members s' = (members s)(g := insert (ci_id p) (members s g))"
  by (cases rule: connect_locked_cases [of cfg s g p tx];
      auto simp: members_def fun_eq_iff alist_simps)+

lemma members_disconnect:
  "disconnect_locked s g i = (s', sends) \<Longrightarrow> members s' = (members s)(g := members s g - {i})"
  by (auto simp: members_def fun_eq_iff disconnect_locked_facts(1) alist_simps)

lemma members_handle_text:
  assumes "handle_text cfg s g p tx parsed = (s', sends, go)"
  shows "members s' = members s"
proof -
  have "entry s' g' i = None \<longleftrightarrow> entry s g' i = None" for g' i
    using entry_handle_text [OF assms, of g' i] by (metis option.map_disc_iff)
  then show ?thesis by (auto simp: members_entry fun_eq_iff set_eq_iff)
qed

section \<open>Properties\<close>

text \<open>
  C5: in every reachable state of every interleaving, no room holds more connections than
  \<open>MAX_CONNECTIONS_PER_IP\<close>, no room has more counted requests than
  \<open>MAX_REQUESTS_PER_IP_PER_HOUR\<close>, and no room lists a peer twice.
\<close>

theorem server_limits_hold:
  assumes "reachable cfg w"
  shows "length (local_map_of (w_app w) g) \<le> max_connections cfg \<and>
         distinct (map fst (local_map_of (w_app w) g)) \<and>
         (\<forall>c. map_of (request_count_map (w_app w)) g = Some c \<longrightarrow> c \<le> max_requests cfg)"
  using world_ok_limitsD [OF reachable_world_ok [OF assms]] by (auto simp: limits_ok_def)

theorem server_limits_hold_witness:
  "length (local_map_of (w_app demo_world) ''10.0.0.7'') \<le> 10"
  using server_limits_hold [OF demo_reachable, of "''10.0.0.7''"] by (simp add: default_config_def)

text \<open>
  C4: every message the server ever sends stays in the room of the connection that caused it (the
  channel it goes to was opened for that room) and names that connection as its origin: no peer can
  reach another room or speak in another peer's name.
\<close>

theorem messages_confined_and_authentic:
  assumes "reachable cfg w" "(i, g, tx, m) \<in> set (w_log w)"
  shows "map_of (w_chan_group w) tx = Some g \<and> authentic i m"
  using world_ok_logD [OF reachable_world_ok [OF assms(1)] assms(2)] .

theorem messages_confined_and_authentic_witness:
  "map_of (w_chan_group demo_world) 12 = Some ''10.0.0.7'' \<and>
   authentic 1 (Offer \<lparr> sdp_peer = client_info_from (demo_info ''A'') 1, sdp_session_id = ''s'', sdp_sdp = ''x'' \<rparr>)"
  by (rule messages_confined_and_authentic [OF demo_reachable]) code_simp

text \<open>
  The registry and the live connections agree in every reachable state: a peer is listed in a
  room exactly when its connection belongs to that room and has not been removed, and it is listed
  with the channel of that connection.
\<close>

theorem registry_matches_connections:
  assumes "reachable cfg w"
  shows "(\<exists>c. entry (w_app w) g i = Some c \<and> cs_tx c = tx) \<longleftrightarrow>
         (\<exists>t. map_of (w_tasks w) i = Some t \<and> ct_group t = g \<and> ct_phase t \<noteq> Leaving \<and> ct_tx t = tx)"
  using reachable_world_ok [OF assms] unfolding world_ok_def task_ok_def by blast

theorem registry_matches_connections_witness:
  "\<exists>c. entry (w_app demo_world) ''10.0.0.7'' 2 = Some c \<and> cs_tx c = 12"
proof -
  have "case map_of (w_tasks demo_world) 2 of
      Some t \<Rightarrow> ct_group t = ''10.0.0.7'' \<and> ct_phase t \<noteq> Leaving \<and> ct_tx t = 12 | None \<Rightarrow> False"
    by code_simp
  then show ?thesis
    unfolding registry_matches_connections [OF demo_reachable] by (auto split: option.splits)
qed

text \<open>
  C13: the registry refines the specification that keeps only a set of member ids per room: every
  event changes the sets as a join, a leave or nothing.
\<close>

theorem registry_refines_rooms:
  assumes "exec cfg e w = Some w'"
  shows "members (w_app w') = room_spec (event_room_op cfg e w) (members (w_app w))"
proof (cases e)
  case (EvConnect g info i tx)
  with assms show ?thesis
    by (auto simp: put_task_def Let_def members_connect split: if_splits prod.splits option.splits)
next
  case (EvText i parsed)
  with assms show ?thesis
    by (auto simp: put_task_def members_handle_text split: option.splits if_splits prod.splits)
next
  case (EvClose i)
  with assms show ?thesis
    by (auto simp: put_task_def members_disconnect split: option.splits if_splits prod.splits)
next
  case EvHour
  with assms show ?thesis by (auto simp: members_def fun_eq_iff)
qed (use assms in \<open>auto simp: put_task_def split: option.splits list.splits if_splits\<close>)

theorem registry_refines_rooms_witness:
  "members (w_app (the (exec default_config (EvConnect ''g'' (demo_info ''A'') 1 11) ws_init))) =
   room_spec (RoomJoin ''g'' 1) (members (w_app ws_init))"
proof -
  have ex: "exec default_config (EvConnect ''g'' (demo_info ''A'') 1 11) ws_init =
      Some (the (exec default_config (EvConnect ''g'' (demo_info ''A'') 1 11) ws_init))"
    by (rule option.collapse [symmetric]) code_simp
  have "event_room_op default_config (EvConnect ''g'' (demo_info ''A'') 1 11) ws_init = RoomJoin ''g'' 1"
    by code_simp
  with registry_refines_rooms [OF ex] show ?thesis by simp
qed

text \<open>
  A peer that joins is told exactly who was in the room before, each of them is told once
  about the newcomer, and the greeting is the last of these sends; a refused peer changes nothing
  about who is in which room.
\<close>

theorem join_announcements:
  assumes "limits_ok cfg s" "connect_locked cfg s g p tx = (s', r)"
  shows "case r of
      None \<Rightarrow> members s' = members s
    | Some (peers_tx, peers) \<Rightarrow>
        set (map ci_id peers) = members s g \<and> distinct (map ci_id peers) \<and>
        length peers_tx = card (members s g) \<and>
        connect_sends p tx peers_tx peers =
          map (\<lambda>(k, v). (cs_tx v, Join p)) (local_map_of s g) @ [(tx, Hello p peers)] \<and>
        entry s' g (ci_id p) = Some \<lparr> cs_client = without_id p, cs_tx = tx \<rparr>"
proof (cases rule: connect_locked_cases [of cfg s g p tx])
  case (refused s'')
  with assms(2) members_connect(1) [OF refused(1)] show ?thesis by simp
next
  case (joined s'')
  let ?peers = "map (\<lambda>(k, v). client_info_from (cs_client v) k) (local_map_of s g)"
  have ids: "map ci_id ?peers = map fst (local_map_of s g)"
    by (simp add: case_prod_unfold o_def)
  have d: "distinct (map fst (local_map_of s g))" using assms(1) by (simp add: limits_ok_def)
  then have "length (local_map_of s g) = card (members s g)"
    by (metis members_def distinct_card length_map list.set_map)
  moreover have "set (map ci_id ?peers) = members s g" "distinct (map ci_id ?peers)"
    unfolding ids using d by (simp_all add: members_def)
  moreover have "s'' = s'" "r = Some (map (\<lambda>(k, v). cs_tx v) (local_map_of s g), ?peers)"
    using joined(1) assms(2) by simp_all
  moreover have "entry s'' g (ci_id p) = Some \<lparr> cs_client = without_id p, cs_tx = tx \<rparr>"
    using entry_connect_joined [OF joined(3)] by simp
  moreover have "connect_sends p tx (map (\<lambda>(k, v). cs_tx v) (local_map_of s g)) ?peers =
      map (\<lambda>(k, v). (cs_tx v, Join p)) (local_map_of s g) @ [(tx, Hello p ?peers)]"
    by (simp add: connect_sends_def case_prod_unfold)
  ultimately show ?thesis by (simp del: set_map map_map)
qed

theorem join_announcements_witness:
  "case connect_locked default_config (w_app demo_world) ''10.0.0.7'' (client_info_from (demo_info ''C'') 3) 13 of
     (s', None) \<Rightarrow> False
   | (s', Some (peers_tx, peers)) \<Rightarrow> set (map ci_id peers) = members (w_app demo_world) ''10.0.0.7''"
proof -
  obtain s' r where con: "connect_locked default_config (w_app demo_world) ''10.0.0.7''
      (client_info_from (demo_info ''C'') 3) 13 = (s', r)" by fastforce
  have "snd (connect_locked default_config (w_app demo_world) ''10.0.0.7''
      (client_info_from (demo_info ''C'') 3) 13) \<noteq> None" by code_simp
  with con join_announcements [OF world_ok_limitsD [OF reachable_world_ok [OF demo_reachable]] con]
  show ?thesis by (auto split: option.splits)
qed

text \<open>
  The request counter of a room is a \<open>u32\<close> that never wraps: a call is refused exactly
  when the counter has reached the maximum, otherwise it grows by one, and no other room is touched.
\<close>

theorem request_limit_exact:
  "case protect_ddos_request_count cfg counts g of (r, counts') \<Rightarrow>
     (let c = (case map_of counts g of Some c \<Rightarrow> c | None \<Rightarrow> 0) in
      (r = Inr () \<longleftrightarrow> c < max_requests cfg) \<and>
      map_option unat (map_of counts' g) = Some (if c < max_requests cfg then unat c + 1 else unat c) \<and>
      (\<forall>g'. g' \<noteq> g \<longrightarrow> map_of counts' g' = map_of counts g'))"
  by (auto simp: protect_ddos_request_count_def Let_def alist_simps unat_Suc_if_less not_le
      split: option.splits)

theorem request_limit_exact_witness:
  "fst (protect_ddos_request_count default_config [(''g'', 999)] ''g'') = Inr () \<and>
   fst (protect_ddos_request_count default_config [(''g'', 1000)] ''g'') \<noteq> Inr ()"
  using request_limit_exact [where cfg = default_config and counts = "[(''g'', 999)]" and g = "''g''"]
    request_limit_exact [where cfg = default_config and counts = "[(''g'', 1000)]" and g = "''g''"]
  by (simp add: Let_def case_prod_unfold) (simp add: default_config_def)

text \<open>
  A race between leaving and greeting: there is an interleaving after which a connected peer,
  with nothing left to send anywhere, still shows a peer that is in no room.
\<close>

theorem stale_peer_race:
  "\<exists>w. reachable default_config w \<and>
     list_all (\<lambda>(i, t). ct_phase t = Serving \<and> ct_pending t = []) (w_tasks w) \<and>
     2 \<in> set (peer_view w 11) \<and> members (w_app w) ''10.0.0.7'' = {1}"
proof -
  define w where "w = the (run_events (exec default_config) race_schedule ws_init)"
  have "run_events (exec default_config) race_schedule ws_init = Some w"
    unfolding w_def by (rule option.collapse [symmetric]) code_simp
  moreover have "list_all (\<lambda>(i, t). ct_phase t = Serving \<and> ct_pending t = []) (w_tasks w)"
    unfolding w_def by code_simp
  moreover have "2 \<in> set (peer_view w 11)" "members (w_app w) ''10.0.0.7'' = {1}"
    unfolding w_def by code_simp+
  ultimately show ?thesis
    by (blast intro: reachable_runI)
qed

text \<open>
  An offer carries the description its sender connected with, not the one it announced since:
  there is an execution in which the registry holds the new alias and a later offer the old one.
\<close>

theorem offer_carries_stale_info:
  "\<exists>w m. reachable default_config w \<and>
     map_option cs_client (entry (w_app w) ''10.0.0.7'' 1) = Some (demo_info ''A2'') \<and>
     last (w_log w) = (1, ''10.0.0.7'', 12, Offer m) \<and> sdp_peer m = client_info_from (demo_info ''A'') 1"
proof -
  define w where "w = the (run_events (exec default_config) rename_schedule ws_init)"
  have "run_events (exec default_config) rename_schedule ws_init = Some w"
    unfolding w_def by (rule option.collapse [symmetric]) code_simp
  moreover have "map_option cs_client (entry (w_app w) ''10.0.0.7'' 1) = Some (demo_info ''A2'')"
    unfolding w_def by code_simp
  moreover have "last (w_log w) = (1, ''10.0.0.7'', 12,
      Offer \<lparr> sdp_peer = client_info_from (demo_info ''A'') 1, sdp_session_id = ''s'', sdp_sdp = ''x'' \<rparr>)"
    unfolding w_def by code_simp
  ultimately show ?thesis by (fastforce intro: reachable_runI)
qed

text \<open>
  A connection refused by the request limit in an unused room leaves an empty room behind in
  \<open>tx_map\<close>, although nobody is in it.
\<close>

theorem refused_connect_leaks_room:
  assumes "map_of (tx_map s) g = None" "0 < max_connections cfg"
    and "map_of (request_count_map s) g = Some (max_requests cfg)"
  shows "\<exists>s'. connect_locked cfg s g p tx = (s', None) \<and>
           map_of (tx_map s') g = Some [] \<and> length (tx_map s') = Suc (length (tx_map s))"
  using assms
  by (auto simp: connect_locked_def Let_def local_map_of_def protect_ddos_request_count_def alist_simps
      length_update_new)

theorem refused_connect_leaks_room_witness:
  "\<exists>s'. connect_locked default_config \<lparr> tx_map = [], request_count_map = [(''g'', 1000)] \<rparr> ''g''
       (client_info_from (demo_info ''A'') 1) 11 = (s', None) \<and>
     map_of (tx_map s') ''g'' = Some []"
  using refused_connect_leaks_room [of "\<lparr> tx_map = [], request_count_map = [(''g'', 1000)] \<rparr>" "''g''"
      default_config "client_info_from (demo_info ''A'') 1" 11]
  by (auto simp: default_config_def)

text \<open>
  The websocket endpoint answers 400 exactly when the query is not base64, not UTF-8 or not a
  client description; otherwise the connection is placed in the room of the client address with the
  fresh id.
\<close>

theorem ws_handler_outcomes:
  "ws_handler base64_dec from_json new_uuid d forwarded addr =
     (case Option.bind (Option.bind (base64_dec d) from_utf8) from_json of
        None \<Rightarrow> Inl (app_error_status 400 None)
      | Some info \<Rightarrow> Inr (get_ip_group (client_ip forwarded addr), client_info_from info new_uuid))"
  by (auto simp: ws_handler_def split: option.splits)

end
