(* ===== verification/Signaling_Client.thy ===== *)
theory Signaling_Client
  imports Crypto Wire
begin

text \<open>
  The signaling client of \<open>core/src/webrtc/signaling.rs\<close>: connecting, the writing and the reading
  task, and the listener that hands answers to the callbacks registered for their session.

  The socket is the list of frames it delivers and whether it ends after them or stays open without
  another one. JSON reading and writing are arguments. The listener is a step function on its state:
  the callbacks, the channel of sixteen places to the application, and whether the application still
  holds the receiving end. The facts: when \<open>connect\<close> returns, panics or waits for ever; which
  callback gets which answer; where the messages are, and what happens to the task when the
  application stops receiving.
\<close>

section \<open>Connecting\<close>

datatype ws_frame = TextFrame string | OtherFrame | FrameError

text \<open>What the socket delivers, and whether it ends then; an open one stays silent.\<close>

record ws_socket =
  ws_frames :: "ws_frame list"
  ws_closed :: bool

definition signaling_uri :: "('sk, 'vk, 'rk) crypto_lib \<Rightarrow> string \<Rightarrow> string \<Rightarrow> string" where
  "signaling_uri L json uri = uri @ ''?d='' @ encode L (as_bytes json)"

text \<open>
  The reading task on one frame: what it sends to \<open>client_tx\<close> and what it forwards.
  \<open>client_rx_open\<close> says whether \<open>connect\<close> still holds the receiver of the first channel; once it
  has returned, a further Hello is not forwarded.
\<close>

definition reader_step ::
  "(string \<Rightarrow> ws_server_message option) \<Rightarrow> bool \<Rightarrow> ws_frame \<Rightarrow> client_info option \<times> ws_server_message option" where
  "reader_step from_json client_rx_open frame =
     (case frame of
        TextFrame text \<Rightarrow>
          (case from_json text of
             None \<Rightarrow> (None, None)
           | Some (Hello client peers) \<Rightarrow>
               if client_rx_open then (Some client, Some (Hello client peers)) else (None, None)
           | Some message \<Rightarrow> (None, Some message))
      | _ \<Rightarrow> (None, None))"

text \<open>Everything the reading task forwards once somebody receives.\<close>

fun reader_messages :: "(string \<Rightarrow> ws_server_message option) \<Rightarrow> bool \<Rightarrow> ws_frame list \<Rightarrow> ws_server_message list" where
  "reader_messages from_json client_rx_open [] = []"
| "reader_messages from_json client_rx_open (frame # frames) =
     (case reader_step from_json client_rx_open frame of
        (client, m) \<Rightarrow>
          (case m of None \<Rightarrow> [] | Some message \<Rightarrow> [message]) @
          reader_messages from_json (client_rx_open \<and> client = None) frames)"

text \<open>
  \<open>client_rx.recv().await.unwrap()\<close>: the first client the reading task reports. When the socket
  ends before, the channel is closed and the \<open>unwrap\<close> panics; when it stays open without a Hello,
  \<open>recv\<close> waits. Nobody takes messages out of \<open>receive_rx\<close> until \<open>connect\<close> has returned, so the
  reading task stops for good, and does not see the end of the socket either, at the first message
  for which its buffer, with \<open>free\<close> places left, has no room.
\<close>

datatype hello_wait = GotClient client_info | SocketEnded | SocketSilent | ReaderBlocked

fun first_client :: "(string \<Rightarrow> ws_server_message option) \<Rightarrow> nat \<Rightarrow> bool \<Rightarrow> ws_frame list \<Rightarrow> hello_wait" where
  "first_client from_json free closed [] = (if closed then SocketEnded else SocketSilent)"
| "first_client from_json free closed (frame # frames) =
     (case reader_step from_json True frame of
        (Some client, m) \<Rightarrow> GotClient client
      | (None, None) \<Rightarrow> first_client from_json free closed frames
      | (None, Some m) \<Rightarrow>
          if free = 0 then ReaderBlocked else first_client from_json (free - 1) closed frames)"

text \<open>\<open>mpsc::channel(1)\<close> for \<open>receive_tx\<close>. The result is \<open>None\<close> when \<open>connect\<close> waits for ever.\<close>

definition RECEIVE_CAPACITY :: nat where
  "RECEIVE_CAPACITY = 1"

definition signaling_connect ::
  "('sk, 'vk, 'rk) crypto_lib \<Rightarrow> (client_info_without_id \<Rightarrow> string option) \<Rightarrow>
     (string \<Rightarrow> ws_server_message option) \<Rightarrow> (string \<Rightarrow> ws_socket option) \<Rightarrow>
     string \<Rightarrow> client_info_without_id \<Rightarrow> client_info res option" where
  "signaling_connect L to_json from_json connect_async uri info =
     (case to_json info of
        None \<Rightarrow> Some (Err (Lib ''serde_json''))
      | Some json \<Rightarrow>
          (case connect_async (signaling_uri L json uri) of
             None \<Rightarrow> Some (Err (Lib ''connect_async''))
           | Some socket \<Rightarrow>
               (case first_client from_json RECEIVE_CAPACITY (ws_closed socket) (ws_frames socket) of
                  GotClient client \<Rightarrow> Some (Ok client)
                | SocketEnded \<Rightarrow> Some (Panic ''called `Option::unwrap()` on a `None` value'')
                | SocketSilent \<Rightarrow> None
                | ReaderBlocked \<Rightarrow> None)))"

text \<open>
  The writing task: a message to send, the end of the channel, or 120 seconds without a message,
  each with whether the socket still accepts a frame. It returns the frames written and whether the
  task goes on.
\<close>

datatype writer_event =
    SendMessage ws_client_message bool
  | SendersGone
  | Timeout bool

datatype written_frame = WrittenText string | WrittenPing

fun writer_task :: "(ws_client_message \<Rightarrow> string) \<Rightarrow> writer_event list \<Rightarrow> written_frame list \<times> bool" where
  "writer_task to_json [] = ([], True)"
| "writer_task to_json (SendMessage m accepted # es) =
     (if accepted then (let (fs, on) = writer_task to_json es in (WrittenText (to_json m) # fs, on))
      else ([], False))"
| "writer_task to_json (SendersGone # es) = ([], False)"
| "writer_task to_json (Timeout accepted # es) =
     (if accepted then (let (fs, on) = writer_task to_json es in (WrittenPing # fs, on))
      else ([], False))"

section \<open>Sending\<close>

text \<open>\<open>tx.send\<close> on the channel to the writing task: the messages queued so far, unless it is gone.\<close>

definition queue_message :: "bool \<Rightarrow> ws_client_message \<Rightarrow> ws_client_message list \<Rightarrow> unit res \<times> ws_client_message list" where
  "queue_message writer_gone m queued =
     (if writer_gone then (Err (Lib ''tx.send''), queued) else (Ok (), queued @ [m]))"

definition send_update where
  "send_update writer_gone info = queue_message writer_gone (ClientUpdate info)"

definition send_offer where
  "send_offer writer_gone session_id target sdp =
     queue_message writer_gone
       (ClientOffer \<lparr> csdp_session_id = session_id, csdp_target = target, csdp_sdp = sdp \<rparr>)"

definition send_answer where
  "send_answer writer_gone session_id target sdp =
     queue_message writer_gone
       (ClientAnswer \<lparr> csdp_session_id = session_id, csdp_target = target, csdp_sdp = sdp \<rparr>)"

section \<open>The listener\<close>

text \<open>
  The task of \<open>start_listener\<close> runs, waits for a free place with the message it sends, has returned
  because the signaling connection ended, or has panicked on a message it could not send.
\<close>

datatype listener_state =
    ListenerRuns | ListenerSends ws_server_message | ListenerReturned | ListenerPanicked ws_server_message

text \<open>
  \<open>on_answer\<close> maps sessions to callbacks; \<open>called\<close> records the calls. \<open>queued_messages\<close> is what is in
  the channel to the application, \<open>taken_messages\<close> what it has received, and \<open>rx_gone\<close> says that it has
  dropped its end. Inserting replaces an earlier callback of the session.
\<close>

record 'cb listener =
  callbacks :: "(string, 'cb) hash_map"
  called :: "('cb \<times> ws_server_sdp_message) list"
  queued_messages :: "ws_server_message list"
  taken_messages :: "ws_server_message list"
  rx_gone :: bool
  listener_state :: listener_state

definition LISTENER_CAPACITY :: nat where
  "LISTENER_CAPACITY = 16"

definition start_listener :: "'cb listener" where
  "start_listener =
     \<lparr> callbacks = [], called = [], queued_messages = [], taken_messages = [], rx_gone = False,
       listener_state = ListenerRuns \<rparr>"

definition on_answer :: "string \<Rightarrow> 'cb \<Rightarrow> 'cb listener \<Rightarrow> 'cb listener" where
  "on_answer session_id callback l = l\<lparr> callbacks := AList.update session_id callback (callbacks l) \<rparr>"

text \<open>The callback of an answer is removed and called before the message is sent on.\<close>

definition run_callback :: "ws_server_message \<Rightarrow> 'cb listener \<Rightarrow> 'cb listener" where
  "run_callback message l =
     (case message of
        Answer sdp \<Rightarrow>
          (case map_of (callbacks l) (sdp_session_id sdp) of
             None \<Rightarrow> l
           | Some callback \<Rightarrow>
               l\<lparr> callbacks := AList.delete (sdp_session_id sdp) (callbacks l),
                  called := called l @ [(callback, sdp)] \<rparr>)
      | _ \<Rightarrow> l)"

text \<open>
  \<open>tx.send(message).await.unwrap()\<close>: a place in the channel, a wait for one, or the panic that ends
  the task when the receiving end is gone.
\<close>

definition send_on :: "ws_server_message \<Rightarrow> 'cb listener \<Rightarrow> 'cb listener" where
  "send_on message l =
     (if rx_gone l then l\<lparr> listener_state := ListenerPanicked message \<rparr>
      else if length (queued_messages l) < LISTENER_CAPACITY
      then l\<lparr> queued_messages := queued_messages l @ [message] \<rparr>
      else l\<lparr> listener_state := ListenerSends message \<rparr>)"

text \<open>
  What happens around the listener, in the order it takes effect: a registration, which only takes
  the lock of the table and does not need the task; a message the task takes out of \<open>self.rx\<close>; the
  application receiving one, which gives a waiting send its place; the application dropping its end,
  which fails a waiting send; the end of the signaling connection. The result is \<open>None\<close> when the
  event cannot happen in that state.
\<close>

datatype 'cb listener_event =
  Register string 'cb | Incoming ws_server_message | AppReceives | AppDrops | ReaderEnds

fun listener_exec :: "'cb listener_event \<Rightarrow> 'cb listener \<Rightarrow> 'cb listener option" where
  "listener_exec (Register sid cb) l = Some (on_answer sid cb l)"
| "listener_exec (Incoming m) l =
     (if listener_state l \<noteq> ListenerRuns then None else Some (send_on m (run_callback m l)))"
| "listener_exec AppReceives l =
     (if rx_gone l then None
      else case queued_messages l of
          [] \<Rightarrow> None
        | m # queue \<Rightarrow>
            Some (case listener_state l of
                ListenerSends m' \<Rightarrow>
                  l\<lparr> taken_messages := taken_messages l @ [m], queued_messages := queue @ [m'],
                     listener_state := ListenerRuns \<rparr>
              | _ \<Rightarrow> l\<lparr> taken_messages := taken_messages l @ [m], queued_messages := queue \<rparr>))"
| "listener_exec AppDrops l =
     (if rx_gone l then None
      else Some (case listener_state l of
          ListenerSends m \<Rightarrow> l\<lparr> rx_gone := True, listener_state := ListenerPanicked m \<rparr>
        | _ \<Rightarrow> l\<lparr> rx_gone := True \<rparr>))"
| "listener_exec ReaderEnds l =
     (if listener_state l \<noteq> ListenerRuns then None else Some (l\<lparr> listener_state := ListenerReturned \<rparr>))"

text \<open>
  The state after a list of events, up to the first one that cannot happen: messages are taken in
  order, so those behind one that cannot be taken are not taken either.
\<close>

fun run_listener :: "'cb listener_event list \<Rightarrow> 'cb listener \<Rightarrow> 'cb listener" where
  "run_listener [] l = l"
| "run_listener (e # es) l =
     (case listener_exec e l of None \<Rightarrow> l | Some l' \<Rightarrow> run_listener es l')"

section \<open>Specification vocabulary\<close>

text \<open>
  The calls a list of events must lead to, without a table: an answer calls the latest registration
  of its session, unless another answer of the session came after it. \<open>past\<close> is most recent first.
\<close>

fun pending :: "string \<Rightarrow> 'cb listener_event list \<Rightarrow> 'cb option" where
  "pending sid [] = None"
| "pending sid (e # past) =
     (case e of
        Register s cb \<Rightarrow> if s = sid then Some cb else pending sid past
      | Incoming m \<Rightarrow>
          (case m of
             Answer sdp \<Rightarrow> if sdp_session_id sdp = sid then None else pending sid past
           | _ \<Rightarrow> pending sid past)
      | _ \<Rightarrow> pending sid past)"

fun answered :: "'cb listener_event list \<Rightarrow> 'cb listener_event list \<Rightarrow> ('cb \<times> ws_server_sdp_message) list" where
  "answered past [] = []"
| "answered past (e # es) =
     (case e of
        Incoming (Answer sdp) \<Rightarrow>
          (case pending (sdp_session_id sdp) past of Some cb \<Rightarrow> [(cb, sdp)] | None \<Rightarrow> [])
      | _ \<Rightarrow> []) @ answered (e # past) es"

fun incoming :: "'cb listener_event list \<Rightarrow> ws_server_message list" where
  "incoming [] = []"
| "incoming (Register s cb # es) = incoming es"
| "incoming (Incoming m # es) = m # incoming es"
| "incoming (e # es) = incoming es"

text \<open>The message a send is waiting with or has failed on.\<close>

definition in_flight :: "'cb listener \<Rightarrow> ws_server_message list" where
  "in_flight l =
     (case listener_state l of ListenerSends m \<Rightarrow> [m] | ListenerPanicked m \<Rightarrow> [m] | _ \<Rightarrow> [])"

text \<open>The channel is bounded; a send waits only on a full one and fails only on a dropped one.\<close>

definition listener_ok :: "'cb listener \<Rightarrow> bool" where
  "listener_ok l \<longleftrightarrow> length (queued_messages l) \<le> LISTENER_CAPACITY \<and>
     (\<forall>m. listener_state l = ListenerSends m \<longrightarrow>
        length (queued_messages l) = LISTENER_CAPACITY \<and> \<not> rx_gone l) \<and>
     (\<forall>m. listener_state l = ListenerPanicked m \<longrightarrow> rx_gone l)"

definition registrations :: "string \<Rightarrow> 'cb listener_event list \<Rightarrow> nat" where
  "registrations sid es = length (filter (\<lambda>e. case e of Register s cb \<Rightarrow> s = sid | _ \<Rightarrow> False) es)"

definition calls_of :: "string \<Rightarrow> ('cb \<times> ws_server_sdp_message) list \<Rightarrow> nat" where
  "calls_of sid cs = length (filter (\<lambda>(cb, sdp). sdp_session_id sdp = sid) cs)"

text \<open>The client a frame greets, and the messages that are not greetings.\<close>

definition hello_of :: "(string \<Rightarrow> ws_server_message option) \<Rightarrow> ws_frame \<Rightarrow> client_info option" where
  "hello_of from_json frame =
     (case frame of
        TextFrame t \<Rightarrow> (case from_json t of Some (Hello c ps) \<Rightarrow> Some c | _ \<Rightarrow> None)
      | _ \<Rightarrow> None)"

definition is_message :: "(string \<Rightarrow> ws_server_message option) \<Rightarrow> ws_frame \<Rightarrow> bool" where
  "is_message from_json frame = (case frame of TextFrame t \<Rightarrow> from_json t \<noteq> None | _ \<Rightarrow> False)"

definition early_messages :: "(string \<Rightarrow> ws_server_message option) \<Rightarrow> ws_frame list \<Rightarrow> nat" where
  "early_messages from_json frames =
     length (filter (is_message from_json) (takeWhile (\<lambda>f. hello_of from_json f = None) frames))"

definition demo_client :: client_info_without_id where
  "demo_client =
     \<lparr> cw_alias = ''A'', cw_version = ''2.1'', cw_device_model = None, cw_device_type = None, cw_token = ''t'' \<rparr>"

definition demo_from_json :: "string \<Rightarrow> ws_server_message option" where
  "demo_from_json t =
     (if t = ''H'' then Some (Hello (client_info_from demo_client 7) [])
      else if t = ''L'' then Some (Left 3) else None)"

section \<open>Facts\<close>

lemmas listener_defs = on_answer_def run_callback_def send_on_def

lemma callbacks_run_callback:
  "map_of (callbacks (run_callback m l)) s =
     (if \<exists>sdp. m = Answer sdp \<and> sdp_session_id sdp = s then None else map_of (callbacks l) s)"
  by (auto simp: run_callback_def alist_simps split: ws_server_message.splits option.splits)

lemma called_run_callback:
  "called (run_callback m l) = called l @
     (case m of
        Answer sdp \<Rightarrow> (case map_of (callbacks l) (sdp_session_id sdp) of Some cb \<Rightarrow> [(cb, sdp)] | None \<Rightarrow> [])
      | _ \<Rightarrow> [])"
  by (auto simp: run_callback_def split: ws_server_message.splits option.splits)

lemma send_on_same [simp]:
  "callbacks (send_on m l) = callbacks l" "called (send_on m l) = called l"
  "rx_gone (send_on m l) = rx_gone l" "taken_messages (send_on m l) = taken_messages l"
  by (simp_all add: send_on_def)

lemma run_callback_same [simp]:
  "queued_messages (run_callback m l) = queued_messages l" "taken_messages (run_callback m l) = taken_messages l"
  "rx_gone (run_callback m l) = rx_gone l" "listener_state (run_callback m l) = listener_state l"
  by (simp_all add: run_callback_def split: ws_server_message.splits option.splits)

text \<open>One step: the table, the calls, and where the messages are.\<close>

lemma listener_exec_called:
  assumes "listener_exec e l = Some l'" "\<And>sid. map_of (callbacks l) sid = pending sid past"
  shows "map_of (callbacks l') sid = pending sid (e # past)"
    and "called l' = called l @ answered past [e]"
  using assms
  by (cases e; auto simp: on_answer_def alist_simps callbacks_run_callback called_run_callback
      split: if_splits ws_server_message.splits option.splits list.splits listener_state.splits)+

lemma listener_exec_messages:
  assumes "listener_exec e l = Some l'"
  shows "taken_messages l' @ queued_messages l' @ in_flight l' =
         taken_messages l @ queued_messages l @ in_flight l @ incoming [e]"
  using assms
  by (cases e) (auto simp: on_answer_def send_on_def in_flight_def
      split: if_splits list.splits listener_state.splits)

lemma listener_exec_ok: "listener_ok l \<Longrightarrow> listener_exec e l = Some l' \<Longrightarrow> listener_ok l'"
  by (cases e) (auto simp: listener_ok_def on_answer_def send_on_def
      split: if_splits list.splits listener_state.splits)

interpretation answering: event_system listener_exec start_listener listener_ok
  by unfold_locales (simp add: start_listener_def listener_ok_def, rule listener_exec_ok)

lemma incoming_Cons: "incoming (e # es) = incoming [e] @ incoming es"
  by (cases e) simp_all

lemma answered_Cons: "answered past (e # es) = answered past [e] @ answered (e # past) es"
  by simp

lemma listener_run_spec:
  assumes "run_events listener_exec es l = Some l'" "\<And>sid. map_of (callbacks l) sid = pending sid past"
  shows "called l' = called l @ answered past es \<and>
         taken_messages l' @ queued_messages l' @ in_flight l' =
         taken_messages l @ queued_messages l @ in_flight l @ incoming es"
  using assms
proof (induction es arbitrary: l past)
  case (Cons e es)
  then obtain k where k: "listener_exec e l = Some k" "run_events listener_exec es k = Some l'"
    by (auto simp: bind_eq_Some_conv)
  note step = listener_exec_called [OF k(1) Cons.prems(2)] listener_exec_messages [OF k(1)]
  from Cons.IH [OF k(2) step(1)] step(2,3) show ?case
    unfolding answered_Cons [of past e es] incoming_Cons [of e es] by simp
qed simp

text \<open>A listener whose application has left handles one more message at most.\<close>

lemma after_drop:
  "run_events listener_exec es l = Some l' \<Longrightarrow> rx_gone l \<Longrightarrow> listener_ok l \<Longrightarrow>
   length (incoming es) \<le> (if listener_state l = ListenerRuns then 1 else 0) \<and> rx_gone l'"
proof (induction es arbitrary: l)
  case (Cons e es)
  then obtain k where k: "listener_exec e l = Some k" "run_events listener_exec es k = Some l'"
    by (auto simp: bind_eq_Some_conv)
  have "rx_gone k" "length (incoming [e]) + (if listener_state k = ListenerRuns then 1 else 0)
      \<le> (if listener_state l = ListenerRuns then 1 else (0 :: nat))"
    using k(1) Cons.prems(2) by (cases e; auto simp: on_answer_def send_on_def split: if_splits)+
  with Cons.IH [OF k(2)] listener_exec_ok [OF Cons.prems(3) k(1)] show ?case
    unfolding incoming_Cons [of e es] by simp
qed simp

lemma rx_gone_only_drop:
  "run_events listener_exec es l = Some l' \<Longrightarrow> rx_gone l' \<Longrightarrow> \<not> rx_gone l \<Longrightarrow> AppDrops \<in> set es"
proof (induction es arbitrary: l)
  case (Cons e es)
  then obtain k where k: "listener_exec e l = Some k" "run_events listener_exec es k = Some l'"
    by (auto simp: bind_eq_Some_conv)
  have "rx_gone k = (rx_gone l \<or> e = AppDrops)"
    using k(1) by (cases e) (auto simp: on_answer_def split: if_splits list.splits listener_state.splits)
  with Cons.IH [OF k(2)] Cons.prems show ?case by auto
qed simp

text \<open>Where every event can happen, the total run is the run.\<close>

lemma run_listener_run: "run_events listener_exec es l = Some l' \<Longrightarrow> run_listener es l = l'"
proof (induction es arbitrary: l)
  case (Cons e es)
  then obtain k where "listener_exec e l = Some k" "run_events listener_exec es k = Some l'"
    by (auto simp: bind_eq_Some_conv)
  with Cons.IH show ?case by simp
qed simp

lemma run_listener_prefix:
  "\<exists>pre post. es = pre @ post \<and> run_events listener_exec pre l = Some (run_listener es l)"
proof (induction es arbitrary: l)
  case (Cons e es)
  show ?case
  proof (cases "listener_exec e l")
    case None
    then show ?thesis by (intro exI [of _ "[]"] exI [of _ "e # es"]) simp
  next
    case (Some k)
    from Cons.IH [of k] obtain pre post where "es = pre @ post"
      "run_events listener_exec pre k = Some (run_listener es k)" by blast
    with Some show ?thesis by (intro exI [of _ "e # pre"] exI [of _ post]) simp
  qed
qed simp

text \<open>An application that keeps receiving gets every message.\<close>

lemma receiving_application:
  fixes l :: "'cb listener"
  assumes "listener_state l = ListenerRuns" "\<not> rx_gone l" "queued_messages l = []"
  shows "taken_messages (run_listener (concat (map (\<lambda>m. [Incoming m, AppReceives]) ms)) l) = taken_messages l @ ms"
  using assms
proof (induction ms arbitrary: l)
  case (Cons m ms)
  let ?k = "send_on m (run_callback m l)"
  have k: "listener_state ?k = ListenerRuns" "\<not> rx_gone ?k" "queued_messages ?k = [m]"
      "taken_messages ?k = taken_messages l"
    using Cons.prems by (simp_all add: send_on_def LISTENER_CAPACITY_def)
  from Cons.IH [of "?k\<lparr> taken_messages := taken_messages ?k @ [m], queued_messages := [] \<rparr>"] k Cons.prems
  show ?case by simp
qed simp

lemma registrations_simps [simp]:
  "registrations sid [] = 0"
  "registrations sid (Register s cb # es) = (if s = sid then Suc (registrations sid es) else registrations sid es)"
  "registrations sid (Incoming m # es) = registrations sid es"
  "registrations sid (AppReceives # es) = registrations sid es"
  "registrations sid (AppDrops # es) = registrations sid es"
  "registrations sid (ReaderEnds # es) = registrations sid es"
  by (simp_all add: registrations_def)

lemma calls_of_simps [simp]:
  "calls_of sid [] = 0"
  "calls_of sid ((cb, sdp) # cs) = (if sdp_session_id sdp = sid then Suc (calls_of sid cs) else calls_of sid cs)"
  by (simp_all add: calls_of_def)

text \<open>An unanswered registration pays for each call.\<close>

lemma calls_le_registrations:
  "calls_of sid (answered past es) \<le> registrations sid es + (if pending sid past = None then 0 else 1)"
proof (induction es arbitrary: past)
  case (Cons e es)
  note IH = Cons.IH [of "e # past"]
  show ?case
  proof (cases e)
    case (Register s cb)
    with IH show ?thesis by (auto split: if_splits)
  next
    case (Incoming m)
    with IH show ?thesis by (cases m) (auto split: option.splits if_splits)
  qed (use IH in auto)
qed simp

lemma reader_step_cases:
  "hello_of from_json frame = Some c \<Longrightarrow> \<exists>m. reader_step from_json True frame = (Some c, m)"
  "hello_of from_json frame = None \<Longrightarrow> is_message from_json frame \<Longrightarrow>
     \<exists>m. reader_step from_json True frame = (None, Some m)"
  "hello_of from_json frame = None \<Longrightarrow> \<not> is_message from_json frame \<Longrightarrow>
     reader_step from_json True frame = (None, None)"
  by (auto simp: reader_step_def hello_of_def is_message_def
      split: ws_frame.splits option.splits ws_server_message.splits)

lemma first_client_eq:
  "first_client from_json free closed frames =
     (if free < early_messages from_json frames then ReaderBlocked
      else case find (\<lambda>f. hello_of from_json f \<noteq> None) frames of
          Some f \<Rightarrow> GotClient (the (hello_of from_json f))
        | None \<Rightarrow> if closed then SocketEnded else SocketSilent)"
proof (induction frames arbitrary: free)
  case (Cons f frames)
  show ?case
  proof (cases "hello_of from_json f")
    case None
    then show ?thesis
      using Cons.IH [of free] Cons.IH [of "free - 1"] reader_step_cases(2,3) [OF None]
      by (cases "is_message from_json f") (auto simp: early_messages_def)
  next
    case (Some c)
    with reader_step_cases(1) [OF Some] show ?thesis by (auto simp: early_messages_def)
  qed
qed (simp add: early_messages_def)

section \<open>Properties\<close>

text \<open>
  C30: for every possible order of registrations, messages, receiving and dropping, the callbacks
  called are exactly those of the specification, at most one per registration. No message is lost
  or reordered on the way: those taken from the signaling connection are what the application has
  received, what is in the channel, which never holds more than sixteen, and the one a send is
  waiting with or has failed on. A send waits only while the channel is full, and fails, ending the
  task, only once the application has dropped its end: after that one more message is handled at
  most, its callback included.
\<close>

theorem listener_calls_exact:
  assumes "run_events listener_exec es start_listener = Some l"
  shows "called l = answered [] es \<and> calls_of sid (called l) \<le> registrations sid es \<and>
     incoming es = taken_messages l @ queued_messages l @ in_flight l \<and>
     length (queued_messages l) \<le> LISTENER_CAPACITY \<and>
     (\<forall>m. listener_state l = ListenerSends m \<longrightarrow> length (queued_messages l) = LISTENER_CAPACITY) \<and>
     (\<forall>m. listener_state l = ListenerPanicked m \<longrightarrow> AppDrops \<in> set es) \<and>
     (\<forall>es1 es2. es = es1 @ AppDrops # es2 \<longrightarrow> length (incoming es2) \<le> 1)"
proof -
  have "\<And>sid. map_of (callbacks start_listener) sid = pending sid []" by (simp add: start_listener_def)
  from listener_run_spec [OF assms this]
  have spec: "called l = answered [] es" "incoming es = taken_messages l @ queued_messages l @ in_flight l"
    by (simp_all add: start_listener_def in_flight_def)
  have ok: "listener_ok l" using answering.Inv_run_start [OF assms] .
  have drop: "length (incoming es2) \<le> 1" if es: "es = es1 @ AppDrops # es2" for es1 es2
  proof -
    from assms [unfolded es] obtain k k' where k: "run_events listener_exec es1 start_listener = Some k"
        "listener_exec AppDrops k = Some k'" "run_events listener_exec es2 k' = Some l"
      by (auto simp: run_events_append bind_eq_Some_conv simp del: listener_exec.simps)
    have "listener_ok k'" using listener_exec_ok answering.Inv_run_start [OF k(1)] k(2) by blast
    moreover have "rx_gone k'" using k(2) by (auto split: if_splits listener_state.splits)
    ultimately show ?thesis using after_drop [OF k(3)] by (simp split: if_splits)
  qed
  have "AppDrops \<in> set es" if "listener_state l = ListenerPanicked m" for m
    using rx_gone_only_drop [OF assms] ok that by (simp add: listener_ok_def start_listener_def)
  with spec drop ok calls_le_registrations [of sid "[]" es] show ?thesis by (simp add: listener_ok_def)
qed

definition demo_answer :: ws_server_sdp_message where
  "demo_answer = \<lparr> sdp_peer = client_info_from demo_client 2, sdp_session_id = ''s'', sdp_sdp = ''v'' \<rparr>"

theorem listener_calls_exact_witness:
  "\<exists>l. run_events listener_exec
        [Register ''s'' True, Incoming (Answer demo_answer), Incoming (Left 1), AppReceives, AppDrops, Incoming (Left 2)]
        start_listener = Some l \<and>
     called l = [(True, demo_answer)] \<and> listener_state l = ListenerPanicked (Left 2) \<and>
     [Answer demo_answer, Left 1, Left 2] = taken_messages l @ queued_messages l @ in_flight l"
proof -
  let ?es = "[Register ''s'' True, Incoming (Answer demo_answer), Incoming (Left 1), AppReceives, AppDrops, Incoming (Left 2)]"
  obtain l where l: "run_events listener_exec ?es start_listener = Some l" "listener_state l = ListenerPanicked (Left 2)"
    by (simp add: start_listener_def listener_defs demo_answer_def LISTENER_CAPACITY_def)
  from listener_calls_exact [OF l(1)] l show ?thesis by (auto simp: demo_answer_def)
qed

text \<open>
  C31: once the socket is open, connecting waits for ever exactly when two or more messages arrive
  before the first Hello, or no Hello comes and the socket stays open; it panics when the socket ends
  without a Hello and at most one message before its end, as when the server refuses the connection
  with a plain text; and otherwise it returns the client of the first Hello.
\<close>

theorem signaling_connect_outcome:
  assumes "to_json info = Some json" "connect_async (signaling_uri L json uri) = Some socket"
  shows "signaling_connect L to_json from_json connect_async uri info =
     (if 1 < early_messages from_json (ws_frames socket) then None
      else case find (\<lambda>f. hello_of from_json f \<noteq> None) (ws_frames socket) of
          Some f \<Rightarrow> Some (Ok (the (hello_of from_json f)))
        | None \<Rightarrow>
            if ws_closed socket then Some (Panic ''called `Option::unwrap()` on a `None` value'') else None)"
  using assms
  by (simp add: signaling_connect_def first_client_eq RECEIVE_CAPACITY_def split: option.split)

text \<open>A connection on which one socket opens.\<close>

abbreviation demo_connect :: "ws_frame list \<Rightarrow> bool \<Rightarrow> client_info res option" where
  "demo_connect frames closed \<equiv>
     signaling_connect demo_crypto (\<lambda>_. Some ''{}'') demo_from_json
       (\<lambda>_. Some \<lparr> ws_frames = frames, ws_closed = closed \<rparr>) ''ws'' demo_client"

theorem signaling_connect_outcome_witness:
  "demo_connect (map TextFrame [''L'', ''L'', ''H'']) True = None \<and>
   demo_connect (map TextFrame [''L'', ''H'']) False = Some (Ok (client_info_from demo_client 7)) \<and>
   demo_connect [TextFrame ''L''] False = None \<and>
   demo_connect [TextFrame ''Limit reached'', OtherFrame] True =
     Some (Panic ''called `Option::unwrap()` on a `None` value'')"
proof -
  note outcome = signaling_connect_outcome [of "\<lambda>_. Some ''{}''" demo_client "''{}''" _ demo_crypto "''ws''",
      OF refl refl, of demo_from_json]
  show ?thesis
    unfolding outcome by (simp add: demo_from_json_def early_messages_def hello_of_def is_message_def)
qed

end
