(* ===== verification/Signaling_Join.thy ===== *)
theory Signaling_Join
  imports Signaling_Server Signaling_Client
begin

text \<open>
  The signaling server and its client on one socket: what \<open>handle_socket\<close> of
  \<open>server/src/controller/ws_controller.rs\<close> writes to the socket of a connection, and what
  \<open>SignalingConnection::connect\<close> makes of it.

  The facts: a connection is admitted exactly when its room has a place and a request left; the only
  greeting its channel ever carries is its own; and the result of \<open>connect\<close> is a function of what
  the channel has carried.
\<close>

section \<open>The socket of a connection\<close>

text \<open>The sending task writes the messages of the channel in order, one text frame each.\<close>

definition server_frames :: "(ws_server_message \<Rightarrow> string) \<Rightarrow> ws_server_message list \<Rightarrow> ws_frame list" where
  "server_frames to_json ms = map (\<lambda>m. TextFrame (to_json m)) ms"

text \<open>A refused connection: one plain text, then the close frame.\<close>

definition refusal_frames :: "ws_frame list" where
  "refusal_frames = [TextFrame ''Limit reached'', OtherFrame]"

section \<open>Specification vocabulary\<close>

definition room_open :: "ws_config \<Rightarrow> app_state \<Rightarrow> string \<Rightarrow> bool" where
  "room_open cfg s g \<longleftrightarrow>
     length (local_map_of s g) < max_connections cfg \<and>
     (case map_of (request_count_map s) g of Some c \<Rightarrow> c | None \<Rightarrow> 0) < max_requests cfg"

text \<open>The frames of the socket carry the messages of the channel.\<close>

definition carries :: "(string \<Rightarrow> ws_server_message option) \<Rightarrow> ws_frame list \<Rightarrow> ws_server_message list \<Rightarrow> bool" where
  "carries from_json frames ms \<longleftrightarrow>
     list_all2 (\<lambda>f m. case f of TextFrame t \<Rightarrow> from_json t = Some m | _ \<Rightarrow> False) frames ms"

fun is_greeting :: "ws_server_message \<Rightarrow> bool" where
  "is_greeting (Hello c ps) = True"
| "is_greeting _ = False"

definition overtakers :: "ws_server_message list \<Rightarrow> nat" where
  "overtakers ms = length (takeWhile (\<lambda>m. \<not> is_greeting m) ms)"

text \<open>Whatever is sent or about to be sent to the channel, its greetings name the client \<open>c\<close>.\<close>

definition own_greeting :: "nat \<Rightarrow> client_info \<Rightarrow> nat \<times> ws_server_message \<Rightarrow> bool" where
  "own_greeting tx c = (\<lambda>(tx', m). tx' = tx \<longrightarrow> is_greeting m \<longrightarrow> (\<exists>ps. m = Hello c ps))"

definition greets_only :: "nat \<Rightarrow> client_info \<Rightarrow> ws_world \<Rightarrow> bool" where
  "greets_only tx c w \<longleftrightarrow> map_of (w_chan_group w) tx \<noteq> None \<and>
     (\<forall>(i, g, sent) \<in> set (w_log w). own_greeting tx c sent) \<and>
     (\<forall>i t. map_of (w_tasks w) i = Some t \<longrightarrow> list_all (own_greeting tx c) (ct_pending t))"

section \<open>What the client makes of the channel\<close>

lemma carries_server_frames:
  "(\<And>m. from_json (to_json m) = Some m) \<Longrightarrow> carries from_json (server_frames to_json ms) ms"
  unfolding carries_def server_frames_def by (induction ms) simp_all

lemma carries_early_messages:
  "carries from_json frames ms \<Longrightarrow> early_messages from_json frames = overtakers ms"
  unfolding carries_def overtakers_def
proof (induction rule: list_all2_induct)
  case (Cons f fs m ms)
  then show ?case
    by (cases m) (auto simp: early_messages_def hello_of_def is_message_def split: ws_frame.splits)
qed (simp add: early_messages_def)

lemma carries_hello:
  assumes "carries from_json frames ms" "list_all (\<lambda>m. is_greeting m \<longrightarrow> (\<exists>ps. m = Hello c ps)) ms"
  shows "if list_ex is_greeting ms
     then \<exists>f. find (\<lambda>f. hello_of from_json f \<noteq> None) frames = Some f \<and> hello_of from_json f = Some c
     else find (\<lambda>f. hello_of from_json f \<noteq> None) frames = None"
  using assms unfolding carries_def
proof (induction rule: list_all2_induct)
  case (Cons f fs m ms)
  then show ?case by (cases m) (auto simp: hello_of_def split: ws_frame.splits if_splits)
qed simp

lemma carried_connect:
  assumes "carries from_json (ws_frames socket) ms" "list_all (\<lambda>m. is_greeting m \<longrightarrow> (\<exists>ps. m = Hello c ps)) ms"
    and "to_json info = Some json" "connect_async (signaling_uri L json uri) = Some socket"
  shows "signaling_connect L to_json from_json connect_async uri info =
     (if 1 < overtakers ms then None
      else if list_ex is_greeting ms then Some (Ok c)
      else if ws_closed socket then Some (Panic ''called `Option::unwrap()` on a `None` value'') else None)"
  using carries_hello [OF assms(1,2)] carries_early_messages [OF assms(1)] assms(3,4)
  by (auto simp: signaling_connect_def first_client_eq RECEIVE_CAPACITY_def split: if_splits)

lemma refused_connect:
  assumes "from_json ''Limit reached'' = None"
    and "to_json info = Some json"
    and "connect_async (signaling_uri L json uri) = Some \<lparr> ws_frames = refusal_frames, ws_closed = True \<rparr>"
  shows "signaling_connect L to_json from_json connect_async uri info =
     Some (Panic ''called `Option::unwrap()` on a `None` value'')"
  using assms by (simp add: signaling_connect_def refusal_frames_def reader_step_def)

section \<open>Joining\<close>

lemma connect_locked_open:
  "snd (connect_locked cfg s g p tx) = None \<longleftrightarrow> \<not> room_open cfg s g"
  by (auto simp: connect_locked_def Let_def room_open_def protect_ddos_request_count_def not_le
      split: option.splits if_splits)

text \<open>The event of a connection, in terms of the room.\<close>

lemma connect_event:
  assumes "exec cfg (EvConnect g info i tx) w = Some w'"
  shows "if room_open cfg (w_app w) g
     then entry (w_app w') g i = Some \<lparr> cs_client = info, cs_tx = tx \<rparr> \<and>
       (\<forall>g' j. (g', j) \<noteq> (g, i) \<longrightarrow> entry (w_app w') g' j = entry (w_app w) g' j)
     else entry (w_app w') = entry (w_app w) \<and> (i, ''Limit reached'') \<in> set (w_refused w')"
proof (cases rule: connect_locked_cases [of cfg "w_app w" g "client_info_from info i" tx])
  case (refused s)
  then have "\<not> room_open cfg (w_app w) g" using connect_locked_open by (metis snd_conv)
  moreover have "w_app w' = s" "w_refused w' = w_refused w @ [(i, ''Limit reached'')]"
    using assms refused(1) by (auto simp: Let_def split: if_splits)
  ultimately show ?thesis using refused(2) by (simp add: entry_def fun_eq_iff)
next
  case (joined s)
  then have "room_open cfg (w_app w) g" using connect_locked_open by (metis option.distinct(1) snd_conv)
  moreover have "w_app w' = s" using assms joined(1) by (auto simp: Let_def put_task_def split: if_splits)
  ultimately show ?thesis using entry_connect_joined [OF joined(3)] by simp
qed

section \<open>Greetings\<close>

lemma no_greeting_own: "list_all (\<lambda>(tx, m). \<not> is_greeting m) sends \<Longrightarrow> list_all (own_greeting tx c) sends"
  by (auto simp: list_all_iff own_greeting_def)

lemma handle_text_no_greeting:
  assumes "handle_text cfg s g p tx parsed = (s', sends, go)"
  shows "list_all (\<lambda>(tx, m). \<not> is_greeting m) sends"
  using assms
proof (cases rule: handle_text_cases)
  case (updated counts info)
  then show ?thesis
    by (auto simp: send_update_to_other_peers_with_lock_def Let_def list_all_iff split: option.splits)
next
  case (relayed counts wrapped)
  then show ?thesis
    by (cases wrapped) (auto simp: send_to_peer_with_lock_def list_all_iff split: option.splits)
qed simp_all

lemma disconnect_no_greeting:
  "disconnect_locked s g i = (s', sends) \<Longrightarrow> list_all (\<lambda>(tx, m). \<not> is_greeting m) sends"
  by (auto simp: disconnect_locked_def Let_def list_all_iff split: option.splits if_splits)

lemma connect_own_greeting:
  "list_all (own_greeting tx c) (connect_sends p tx' txs peers) \<longleftrightarrow> tx' \<noteq> tx \<or> p = c"
  by (auto simp: connect_sends_def own_greeting_def list_all_iff)

lemma greets_only_put_task:
  "greets_only tx c w \<Longrightarrow> list_all (own_greeting tx c) (ct_pending t) \<Longrightarrow> greets_only tx c (put_task i t w)"
  by (simp add: greets_only_def put_task_def alist_simps)

lemma greets_only_exec:
  assumes "greets_only tx c w" "exec cfg e w = Some w'"
  shows "greets_only tx c w'"
proof (cases e)
  case (EvConnect g info i tx')
  show ?thesis
  proof (cases rule: connect_locked_cases [of cfg "w_app w" g "client_info_from info i" tx'])
    case (refused s)
    with assms EvConnect show ?thesis by (auto simp: Let_def greets_only_def split: if_splits)
  next
    case (joined s)
    with assms EvConnect have "tx' \<noteq> tx" by (auto simp: greets_only_def split: if_splits)
    with joined assms EvConnect show ?thesis
      by (auto simp: Let_def alist_simps greets_only_def put_task_def connect_own_greeting split: if_splits)
  qed
next
  case (EvSend i)
  with assms obtain t tx' m rest where t: "map_of (w_tasks w) i = Some t" "ct_pending t = (tx', m) # rest"
      "w' = put_task i (t\<lparr> ct_pending := rest \<rparr>) (w\<lparr> w_log := w_log w @ [(i, ct_group t, tx', m)] \<rparr>)"
    by (auto split: option.splits list.splits)
  have "list_all (own_greeting tx c) ((tx', m) # rest)"
    using assms(1) t(1) unfolding t(2) [symmetric] by (simp add: greets_only_def)
  then show ?thesis
    unfolding t(3) using assms(1) by (intro greets_only_put_task) (auto simp: greets_only_def)
next
  case (EvText i parsed)
  with assms obtain t s sends go where t: "map_of (w_tasks w) i = Some t"
      "handle_text cfg (w_app w) (ct_group t) (ct_peer t) (ct_tx t) parsed = (s, sends, go)"
      "w' = put_task i (t\<lparr> ct_pending := sends, ct_phase := (if go then Serving else Stopping) \<rparr>) (w\<lparr> w_app := s \<rparr>)"
    by (auto split: option.splits if_splits prod.splits)
  show ?thesis
    unfolding t(3) using assms(1) no_greeting_own [OF handle_text_no_greeting [OF t(2)]]
    by (intro greets_only_put_task) (auto simp: greets_only_def)
next
  case (EvClose i)
  with assms obtain t s sends where t: "map_of (w_tasks w) i = Some t"
      "disconnect_locked (w_app w) (ct_group t) i = (s, sends)"
      "w' = put_task i (t\<lparr> ct_pending := sends, ct_phase := Leaving \<rparr>) (w\<lparr> w_app := s \<rparr>)"
    by (auto split: option.splits if_splits prod.splits)
  show ?thesis
    unfolding t(3) using assms(1) no_greeting_own [OF disconnect_no_greeting [OF t(2)]]
    by (intro greets_only_put_task) (auto simp: greets_only_def)
next
  case (EvServe i)
  with assms obtain t where t: "map_of (w_tasks w) i = Some t" "w' = put_task i (t\<lparr> ct_phase := Serving \<rparr>) w"
    by (auto split: option.splits if_splits)
  then have "list_all (own_greeting tx c) (ct_pending (t\<lparr> ct_phase := Serving \<rparr>))"
    using assms(1) by (simp add: greets_only_def)
  then show ?thesis unfolding t(2) by (rule greets_only_put_task [OF assms(1)])
qed (use assms in \<open>auto simp: greets_only_def alist_simps split: option.splits if_splits\<close>)

lemma greets_only_run:
  "run_events (exec cfg) es w = Some w' \<Longrightarrow> greets_only tx c w \<Longrightarrow> greets_only tx c w'"
proof (induction es arbitrary: w)
  case (Cons e es)
  then show ?case using greets_only_exec by (auto simp: bind_eq_Some_conv simp del: exec.simps)
qed simp

text \<open>A channel is new when its connection is admitted, so the greeting it carries is its own.\<close>

lemma greets_only_connect:
  assumes ok: "world_ok cfg w" and connect: "exec cfg (EvConnect g info i tx) w = Some w'"
    and "room_open cfg (w_app w) g"
  shows "greets_only tx (client_info_from info i) w'"
proof (cases rule: connect_locked_cases [of cfg "w_app w" g "client_info_from info i" tx])
  case (refused s)
  then show ?thesis using connect_locked_open assms(3) by (metis snd_conv)
next
  case (joined s)
  have new: "map_of (w_chan_group w) tx = None" using connect by (auto split: if_splits)
  let ?own = "own_greeting tx (client_info_from info i)"
  have "?own sent" if "(j, g', sent) \<in> set (w_log w)" for j g' sent
    using world_ok_logD [OF ok, of j g'] that new by (cases sent) (auto simp: own_greeting_def)
  moreover have "list_all ?own (ct_pending t)" if "map_of (w_tasks w) j = Some t" for j t
    using world_ok_taskD [OF ok that] new by (auto simp: task_ok_def own_greeting_def list_all_iff)
  moreover obtain t where "w_log w' = w_log w" "map_of (w_chan_group w') tx \<noteq> None"
      "map_of (w_tasks w') = (map_of (w_tasks w))(i \<mapsto> t)" "list_all ?own (ct_pending t)"
    using connect joined(1) by (auto simp: Let_def put_task_def alist_simps fun_eq_iff connect_own_greeting split: if_splits)
  ultimately show ?thesis by (auto simp: greets_only_def split: if_splits)
qed

lemma greets_only_channel:
  "greets_only tx c w \<Longrightarrow> list_all (\<lambda>m. is_greeting m \<longrightarrow> (\<exists>ps. m = Hello c ps)) (chan_messages w tx)"
  by (force simp: greets_only_def chan_messages_def own_greeting_def list_all_iff)

text \<open>The connection as its client sees it, whatever the server does after admitting it.\<close>

lemma admitted_connect:
  assumes "world_ok cfg w" "exec cfg (EvConnect g info i tx) w = Some w1" "room_open cfg (w_app w) g"
    and "run_events (exec cfg) es w1 = Some w2"
    and "\<And>m. from_json (to_text m) = Some m" "ws_frames socket = server_frames to_text (chan_messages w2 tx)"
    and "to_json info = Some json" "connect_async (signaling_uri L json uri) = Some socket"
  shows "signaling_connect L to_json from_json connect_async uri info =
     (if 1 < overtakers (chan_messages w2 tx) then None
      else if list_ex is_greeting (chan_messages w2 tx) then Some (Ok (client_info_from info i))
      else if ws_closed socket then Some (Panic ''called `Option::unwrap()` on a `None` value'') else None)"
proof -
  have hello: "list_all (\<lambda>m. is_greeting m \<longrightarrow> (\<exists>ps. m = Hello (client_info_from info i) ps)) (chan_messages w2 tx)"
    by (rule greets_only_channel [OF greets_only_run [OF assms(4) greets_only_connect [OF assms(1-3)]]])
  have "carries from_json (ws_frames socket) (chan_messages w2 tx)"
    using carries_server_frames [of from_json to_text] assms(5,6) by simp
  from carried_connect [where to_json = to_json and connect_async = connect_async and L = L and uri = uri,
      OF this hello assms(7,8)] show ?thesis .
qed

end
