(* ===== verification/Signaling_Races.thy ===== *)
theory Signaling_Races
  imports Signaling_Join
begin

text \<open>
  The signaling server with its bounded channels, and the server together with its client.

  \<open>handle_socket\<close> creates the channel of a connection with four places, registers its sender, and
  sends the greeting to it before the task that empties the channel is spawned. The facts: a
  greeting that finds the channel full blocks its connection for ever, and with any configuration
  that admits three peers a run of the bounded server exists in which the messages of two peers
  overtake the greeting of a third, every connection is served, and the client of the third never
  gets past \<open>connect\<close>, whatever happens afterwards.
\<close>

section \<open>Bounded channels\<close>

definition CHANNEL_CAPACITY :: nat where
  "CHANNEL_CAPACITY = 4"

text \<open>Nobody receives from the channel of a connection until its greeting is done.\<close>

definition not_drained :: "ws_world \<Rightarrow> nat \<Rightarrow> bool" where
  "not_drained w tx \<longleftrightarrow> list_ex (\<lambda>(i, t). ct_tx t = tx \<and> ct_phase t = Greeting) (w_tasks w)"

definition channel_full :: "ws_world \<Rightarrow> nat \<Rightarrow> bool" where
  "channel_full w tx \<longleftrightarrow> not_drained w tx \<and> CHANNEL_CAPACITY \<le> length (chan_messages w tx)"

definition send_blocked :: "ws_world \<Rightarrow> uuid \<Rightarrow> bool" where
  "send_blocked w i =
     (case map_of (w_tasks w) i of
        None \<Rightarrow> False
      | Some t \<Rightarrow> (case ct_pending t of [] \<Rightarrow> False | (tx, m) # rest \<Rightarrow> channel_full w tx))"

fun exec_bounded :: "ws_config \<Rightarrow> ws_event \<Rightarrow> ws_world \<Rightarrow> ws_world option" where
  "exec_bounded cfg (EvSend i) w = (if send_blocked w i then None else exec cfg (EvSend i) w)"
| "exec_bounded cfg e w = exec cfg e w"

section \<open>Specification vocabulary\<close>

definition bounded_reachable :: "ws_config \<Rightarrow> ws_world \<Rightarrow> bool" where
  "bounded_reachable cfg w \<longleftrightarrow> (\<exists>es. run_events (exec_bounded cfg) es ws_init = Some w)"

text \<open>Whatever happens from \<open>w\<close> on, the task of the connection is never moved again.\<close>

definition stuck_forever :: "ws_config \<Rightarrow> uuid \<Rightarrow> ws_world \<Rightarrow> bool" where
  "stuck_forever cfg i w \<longleftrightarrow>
     (\<forall>es w'. run_events (exec_bounded cfg) es w = Some w' \<longrightarrow> map_of (w_tasks w') i = map_of (w_tasks w) i)"

definition greeting_blocked :: "uuid \<Rightarrow> ws_world \<Rightarrow> bool" where
  "greeting_blocked i w =
     (case map_of (w_tasks w) i of
        None \<Rightarrow> False
      | Some t \<Rightarrow> ct_phase t = Greeting \<and>
          (case ct_pending t of [] \<Rightarrow> False | (tx, m) # rest \<Rightarrow> tx = ct_tx t) \<and>
          CHANNEL_CAPACITY \<le> length (chan_messages w (ct_tx t)))"

text \<open>Four peers join between the registration of the first one and its greeting.\<close>

definition crowd_schedule :: "ws_event list" where
  "crowd_schedule =
     [EvConnect ''10.0.0.7'' (demo_info ''A'') 1 11,
      EvConnect ''10.0.0.7'' (demo_info ''B'') 2 12, EvSend 2,
      EvConnect ''10.0.0.7'' (demo_info ''C'') 3 13, EvSend 3, EvSend 3,
      EvConnect ''10.0.0.7'' (demo_info ''D'') 4 14, EvSend 4, EvSend 4, EvSend 4,
      EvConnect ''10.0.0.7'' (demo_info ''E'') 5 15, EvSend 5, EvSend 5, EvSend 5, EvSend 5]"

definition crowd_world :: ws_world where
  "crowd_world = the (run_events (exec_bounded default_config) crowd_schedule ws_init)"

text \<open>
  Two peers join, are greeted and served between the registration of the first one and its greeting;
  then the first one is greeted and served too. A peer is its description, its id and its channel.
\<close>

fun overtaken_schedule ::
  "string \<Rightarrow> client_info_without_id \<times> uuid \<times> nat \<Rightarrow> client_info_without_id \<times> uuid \<times> nat \<Rightarrow>
     client_info_without_id \<times> uuid \<times> nat \<Rightarrow> ws_event list" where
  "overtaken_schedule g (a, i, x) (b, j, y) (c, k, z) =
     [EvConnect g a i x,
      EvConnect g b j y, EvSend j, EvSend j, EvServe j,
      EvConnect g c k z, EvSend k, EvSend k, EvSend k, EvServe k,
      EvSend i, EvServe i]"

definition served :: "ws_world \<Rightarrow> uuid \<Rightarrow> bool" where
  "served w i \<longleftrightarrow> (\<exists>t. map_of (w_tasks w) i = Some t \<and> ct_phase t = Serving \<and> ct_pending t = [])"

text \<open>A reader of the three messages of the witness.\<close>

definition overtaken_json :: "string \<Rightarrow> ws_server_message option" where
  "overtaken_json t = map_of
     [(''1'', Join (client_info_from (demo_info ''B'') 2)), (''2'', Join (client_info_from (demo_info ''C'') 3)),
      (''3'', Hello (client_info_from (demo_info ''A'') 1) [])] t"

section \<open>Facts\<close>

lemma chan_messages_put_task [simp]: "chan_messages (put_task i t w) tx = chan_messages w tx"
  by (simp add: chan_messages_def put_task_def)

lemma exec_chan_messages: "exec cfg e w = Some w' \<Longrightarrow> length (chan_messages w tx) \<le> length (chan_messages w' tx)"
  by (cases e) (auto simp: chan_messages_def put_task_def Let_def split: option.splits prod.splits list.splits if_splits)

lemma exec_other_task:
  assumes "exec cfg e w = Some w'" "map_of (w_tasks w) i = Some t"
    and "e \<noteq> EvSend i" "ct_phase t = Greeting" "ct_pending t \<noteq> []"
  shows "map_of (w_tasks w') i = Some t"
  using assms
  by (cases e) (auto simp: put_task_def Let_def alist_simps split: option.splits prod.splits list.splits if_splits)

lemma exec_bounded_exec: "exec_bounded cfg e w = Some w' \<Longrightarrow> exec cfg e w = Some w'"
  by (cases e) (auto split: if_splits)

lemma greeting_blocked_send: "greeting_blocked i w \<Longrightarrow> exec_bounded cfg (EvSend i) w = None"
  by (auto simp: greeting_blocked_def send_blocked_def channel_full_def not_drained_def list_ex_iff
      split: option.splits list.splits dest!: map_of_SomeD)

lemma greeting_blocked_step:
  assumes "exec_bounded cfg e w = Some w'" "greeting_blocked i w"
  shows "map_of (w_tasks w') i = map_of (w_tasks w) i \<and> greeting_blocked i w'"
proof -
  obtain t where t: "map_of (w_tasks w) i = Some t" "ct_phase t = Greeting" "ct_pending t \<noteq> []"
    using assms(2) by (auto simp: greeting_blocked_def split: option.splits list.splits)
  have "map_of (w_tasks w') i = Some t"
    using exec_other_task [OF exec_bounded_exec [OF assms(1)] t(1) _ t(2,3)] greeting_blocked_send [OF assms(2)] assms(1)
    by fastforce
  moreover have "length (chan_messages w (ct_tx t)) \<le> length (chan_messages w' (ct_tx t))"
    using exec_chan_messages [OF exec_bounded_exec [OF assms(1)]] by blast
  ultimately show ?thesis using t assms(2) by (simp add: greeting_blocked_def)
qed

lemma greeting_blocked_run:
  "run_events (exec_bounded cfg) es w = Some w' \<Longrightarrow> greeting_blocked i w \<Longrightarrow>
   map_of (w_tasks w') i = map_of (w_tasks w) i"
proof (induction es arbitrary: w)
  case (Cons e es)
  then obtain v where "exec_bounded cfg e w = Some v" "run_events (exec_bounded cfg) es v = Some w'"
    by (auto simp: bind_eq_Some_conv)
  with Cons greeting_blocked_step [of cfg e w v i] show ?case by simp
qed simp

lemma bounded_reachable_reachable: "bounded_reachable cfg w \<Longrightarrow> reachable cfg w"
proof -
  have "run_events (exec_bounded cfg) es v = Some w \<Longrightarrow> reachable cfg v \<Longrightarrow> reachable cfg w" for es v
    by (induction es arbitrary: v) (auto simp: bind_eq_Some_conv intro: reachable.step dest: exec_bounded_exec)
  then show "bounded_reachable cfg w \<Longrightarrow> reachable cfg w"
    unfolding bounded_reachable_def using reachable.init by blast
qed

lemma crowd_reachable: "bounded_reachable default_config crowd_world"
proof -
  have "run_events (exec_bounded default_config) crowd_schedule ws_init = Some crowd_world"
    unfolding crowd_world_def by (rule option.collapse [symmetric]) code_simp
  then show ?thesis unfolding bounded_reachable_def by blast
qed

text \<open>What a channel has carried stays, whatever the server does.\<close>

lemma exec_chan_prefix: "exec cfg e w = Some w' \<Longrightarrow> \<exists>ms. chan_messages w' tx = chan_messages w tx @ ms"
  by (cases e) (auto simp: chan_messages_def put_task_def Let_def split: option.splits prod.splits list.splits if_splits)

lemma run_chan_prefix:
  "run_events (exec_bounded cfg) es w = Some w' \<Longrightarrow> \<exists>ms. chan_messages w' tx = chan_messages w tx @ ms"
proof (induction es arbitrary: w)
  case (Cons e es)
  then obtain v where v: "exec_bounded cfg e w = Some v" "run_events (exec_bounded cfg) es v = Some w'"
    by (auto simp: bind_eq_Some_conv)
  then show ?case
    using Cons.IH [OF v(2)] exec_chan_prefix [OF exec_bounded_exec [OF v(1)], of tx] by auto
qed simp

text \<open>Two messages in front of the greeting block the client that reads them.\<close>

lemma carried_client_waits:
  assumes "carries from_json (ws_frames socket) ms" "1 < overtakers ms"
    and "to_json info = Some json" "connect_async (signaling_uri L json uri) = Some socket"
  shows "signaling_connect L to_json from_json connect_async uri info = None"
  using assms(2-4) carries_early_messages [OF assms(1)]
  by (simp add: signaling_connect_def first_client_eq RECEIVE_CAPACITY_def)

lemma overtaken_run:
  assumes limits: "3 \<le> max_connections cfg" "3 \<le> max_requests cfg"
    and ids: "distinct [i, j, k]" "distinct [x, y, z]"
  shows "\<exists>w. run_events (exec_bounded cfg) (overtaken_schedule g (a, i, x) (b, j, y) (c, k, z)) ws_init = Some w \<and>
     served w i \<and> served w j \<and> served w k \<and>
     chan_messages w x = [Join (client_info_from b j), Join (client_info_from c k), Hello (client_info_from a i) []]"
proof -
  have requests: "0 < max_requests cfg" "1 < max_requests cfg" "2 < max_requests cfg"
    using limits(2) by (simp_all add: word_le_nat_alt word_less_nat_alt)
  have connections: "\<not> max_connections cfg \<le> 0" "\<not> max_connections cfg \<le> Suc 0" "\<not> max_connections cfg \<le> 2"
    using limits(1) by simp_all
  show ?thesis
    using ids connections requests
    by (simp add: ws_init_def app_state_new_def connect_locked_def local_map_of_def protect_ddos_request_count_def
        connect_sends_def put_task_def Let_def send_blocked_def channel_full_def not_drained_def chan_messages_def
        CHANNEL_CAPACITY_def served_def not_le alist_simps) (use ids requests in auto)
qed

section \<open>Properties\<close>

text \<open>
  C17: a connection whose greeting finds four messages of other peers in its own channel is blocked
  for ever: no continuation of the server moves its task again. Such a world is reachable.
\<close>

theorem greeting_deadlock:
  assumes "greeting_blocked i w"
  shows "stuck_forever cfg i w"
  using assms greeting_blocked_run by (auto simp: stuck_forever_def)

theorem greeting_deadlock_witness:
  "bounded_reachable default_config crowd_world \<and> stuck_forever default_config 1 crowd_world \<and>
   map_option ct_phase (map_of (w_tasks crowd_world) 1) = Some Greeting"
proof -
  have "greeting_blocked 1 crowd_world" unfolding crowd_world_def by code_simp
  from greeting_deadlock [OF this] have "stuck_forever default_config 1 crowd_world" .
  moreover have "map_option ct_phase (map_of (w_tasks crowd_world) 1) = Some Greeting"
    unfolding crowd_world_def by code_simp
  ultimately show ?thesis using crowd_reachable by simp
qed

text \<open>
  C18: with any limits of at least three, and for any room, any three clients and any distinct ids
  and channels, the bounded server has a run in which every connection is served, none is refused or
  blocked, and yet the first client never gets out of \<open>connect\<close>: the two Joins overtook its Hello,
  and whatever the server does afterwards, a client whose socket carries the messages of its channel
  waits for ever.
\<close>

theorem overtaken_greeting_blocks_client:
  assumes "3 \<le> max_connections cfg" "3 \<le> max_requests cfg" "distinct [i, j, k]" "distinct [x, y, z]"
  shows "\<exists>w. run_events (exec_bounded cfg) (overtaken_schedule g (a, i, x) (b, j, y) (c, k, z)) ws_init = Some w \<and>
     served w i \<and> served w j \<and> served w k \<and>
     (\<forall>es w' to_json from_json connect_async uri json socket.
        run_events (exec_bounded cfg) es w = Some w' \<longrightarrow> to_json a = Some json \<longrightarrow>
        connect_async (signaling_uri L json uri) = Some socket \<longrightarrow>
        carries from_json (ws_frames socket) (chan_messages w' x) \<longrightarrow>
        signaling_connect L to_json from_json connect_async uri a = None)"
proof -
  obtain w where w: "run_events (exec_bounded cfg) (overtaken_schedule g (a, i, x) (b, j, y) (c, k, z)) ws_init = Some w"
      "served w i" "served w j" "served w k"
      "chan_messages w x = [Join (client_info_from b j), Join (client_info_from c k), Hello (client_info_from a i) []]"
    using overtaken_run [OF assms] by blast
  have "1 < overtakers (chan_messages w' x)"
    if "run_events (exec_bounded cfg) es w = Some w'" for es w'
    using run_chan_prefix [OF that, of x] w(5) by (auto simp: overtakers_def)
  with w(1-4) carried_client_waits show ?thesis by blast
qed

theorem overtaken_greeting_blocks_client_witness:
  "\<exists>w. run_events (exec_bounded default_config) (overtaken_schedule ''10.0.0.7''
        (demo_info ''A'', 1, 11) (demo_info ''B'', 2, 12) (demo_info ''C'', 3, 13)) ws_init = Some w \<and>
     served w 1 \<and> served w 2 \<and> served w 3 \<and>
     carries overtaken_json (map TextFrame [''1'', ''2'', ''3'']) (chan_messages w 11) \<and>
     signaling_connect demo_crypto (\<lambda>_. Some ''{}'') overtaken_json
       (\<lambda>_. Some \<lparr> ws_frames = map TextFrame [''1'', ''2'', ''3''], ws_closed = False \<rparr>) ''ws'' (demo_info ''A'') = None"
proof -
  let ?es = "overtaken_schedule ''10.0.0.7''
        (demo_info ''A'', 1, 11) (demo_info ''B'', 2, 12) (demo_info ''C'', 3, 13)"
  have limits: "3 \<le> max_connections default_config" "3 \<le> max_requests default_config"
    by (simp_all add: default_config_def)
  obtain w where w: "run_events (exec_bounded default_config) ?es ws_init = Some w" "served w 1" "served w 2" "served w 3"
      and waits: "\<And>es w' to_json from_json connect_async uri json socket.
        run_events (exec_bounded default_config) es w = Some w' \<Longrightarrow> to_json (demo_info ''A'') = Some json \<Longrightarrow>
        connect_async (signaling_uri demo_crypto json uri) = Some socket \<Longrightarrow>
        carries from_json (ws_frames socket) (chan_messages w' 11) \<Longrightarrow>
        signaling_connect demo_crypto to_json from_json connect_async uri (demo_info ''A'') = None"
    using overtaken_greeting_blocks_client [OF limits, of 1 2 3 11 12 13 "''10.0.0.7''" "demo_info ''A''"
        "demo_info ''B''" "demo_info ''C''" demo_crypto] by fastforce
  have "chan_messages (the (run_events (exec_bounded default_config) ?es ws_init)) 11 =
      [Join (client_info_from (demo_info ''B'') 2), Join (client_info_from (demo_info ''C'') 3),
       Hello (client_info_from (demo_info ''A'') 1) []]" by code_simp
  then have "chan_messages w 11 = [Join (client_info_from (demo_info ''B'') 2),
      Join (client_info_from (demo_info ''C'') 3), Hello (client_info_from (demo_info ''A'') 1) []]"
    unfolding w(1) option.sel .
  then have "carries overtaken_json (map TextFrame [''1'', ''2'', ''3'']) (chan_messages w 11)"
    by (simp add: carries_def overtaken_json_def)
  with w waits [of "[]" w "\<lambda>_. Some ''{}''" "''{}''" "\<lambda>_. Some \<lparr> ws_frames = map TextFrame [''1'', ''2'', ''3''], ws_closed = False \<rparr>"]
  show ?thesis by auto
qed

end
