(* ===== verification/Server_Start.thy ===== *)
theory Server_Start
  imports Signaling_Server
begin

text \<open>
  The start of the signaling server: \<open>server/src/main.rs\<close>, \<open>server/src/config/init.rs\<close> and the
  limits that \<open>ws_controller.rs\<close> reads from the environment when they are first used. The variables
  of the process, the tracing library, the scheduler and the socket are arguments.

  The facts: when the server comes up, at which address and with which limits; a limit is what its
  decimal text says; a limit that is no number stops no start but every request.
\<close>

section \<open>The environment\<close>

definition env_or :: "(string \<Rightarrow> string option) \<Rightarrow> string \<Rightarrow> string \<Rightarrow> string" where
  "env_or vars name fallback = (case vars name of Some v \<Rightarrow> v | None \<Rightarrow> fallback)"

text \<open>\<open>str::parse\<close> for an unsigned type with values below \<open>bound\<close>.\<close>

definition decimal :: "nat list \<Rightarrow> nat" where
  "decimal ds = foldl (\<lambda>n d. 10 * n + d) 0 ds"

definition parse_unsigned :: "nat \<Rightarrow> string \<Rightarrow> nat option" where
  "parse_unsigned bound s =
     (let ds = (case s of [] \<Rightarrow> [] | c # r \<Rightarrow> if c = CHR ''+'' then r else s)
      in if ds = [] then None
         else if list_all (\<lambda>c. to_digit 10 c \<noteq> None) ds
         then (let n = decimal (map (\<lambda>c. the (to_digit 10 c)) ds) in if n < bound then Some n else None)
         else None)"

definition limit_var :: "(string \<Rightarrow> string option) \<Rightarrow> string \<Rightarrow> string \<Rightarrow> nat \<Rightarrow> nat res" where
  "limit_var vars name fallback bound =
     (case parse_unsigned bound (env_or vars name fallback) of
        Some n \<Rightarrow> Ok n
      | None \<Rightarrow> Panic ''called `Result::unwrap()` on an `Err` value: ParseIntError'')"

definition MAX_CONNECTIONS :: "(string \<Rightarrow> string option) \<Rightarrow> nat res" where
  "MAX_CONNECTIONS vars = limit_var vars ''MAX_CONNECTIONS_PER_IP'' ''10'' (2 ^ 64)"

definition MAX_REQUESTS :: "(string \<Rightarrow> string option) \<Rightarrow> nat res" where
  "MAX_REQUESTS vars = limit_var vars ''MAX_REQUESTS_PER_IP_PER_HOUR'' ''1000'' (2 ^ 32)"

text \<open>The limits of a process whose variables can be read.\<close>

definition config_of :: "(string \<Rightarrow> string option) \<Rightarrow> ws_config res" where
  "config_of vars =
     res_bind (MAX_CONNECTIONS vars) (\<lambda>connections.
     res_bind (MAX_REQUESTS vars) (\<lambda>requests.
     Ok \<lparr> max_connections = connections, max_requests = word_of_nat requests \<rparr>))"

text \<open>
  The request count of a request that reached the handler; the limit is read here, and of the two only
  this one.
\<close>

definition count_request ::
  "(string \<Rightarrow> string option) \<Rightarrow> string \<Rightarrow> app_state \<Rightarrow> ((app_error + unit) \<times> (string, u32) hash_map) res" where
  "count_request vars ip_group state =
     res_bind (MAX_REQUESTS vars) (\<lambda>requests.
     Ok (protect_ddos_request_count \<lparr> max_connections = 0, max_requests = word_of_nat requests \<rparr>
       (request_count_map state) ip_group))"

section \<open>Starting\<close>

text \<open>\<open>tracing_free\<close>: no other subscriber is set; \<open>scheduler\<close> is the error of the scheduler, if any.\<close>

definition server_init :: "bool \<Rightarrow> string option \<Rightarrow> app_state res" where
  "server_init tracing_free scheduler =
     (if \<not> tracing_free then Panic ''Unable to install global subscriber''
      else case scheduler of
        Some e \<Rightarrow> Panic (''Error configuring scheduler: '' @ e)
      | None \<Rightarrow> Ok app_state_new)"

definition bind_address :: "(string \<Rightarrow> string option) \<Rightarrow> string" where
  "bind_address vars = env_or vars ''SERVER_IP'' ''0.0.0.0'' @ '':'' @ env_or vars ''SERVER_PORT'' ''3000''"

definition configure_routes :: "(string \<times> string) list" where
  "configure_routes = [(''GET'', ''/v1/ws'')]"

text \<open>The address the server listens on and its first state, or the panic of the start.\<close>

definition server_main ::
  "(string \<Rightarrow> string option) \<Rightarrow> bool \<Rightarrow> string option \<Rightarrow> (string \<Rightarrow> bool) \<Rightarrow> (string \<times> app_state) res" where
  "server_main vars tracing_free scheduler bind =
     res_bind (server_init tracing_free scheduler) (\<lambda>state.
     if bind (bind_address vars) then Ok (bind_address vars, state)
     else Panic ''called `Result::unwrap()` on an `Err` value: bind'')"

section \<open>Facts\<close>

lemma decimal_snoc: "decimal (ds @ [d]) = 10 * decimal ds + d"
  by (simp add: decimal_def)

lemma limit_digit: "d < 10 \<Longrightarrow> to_digit 10 (digit d) = Some d"
  by (simp add: to_digit_def digit_val_digit)

lemma decimal_format:
  "list_all (\<lambda>c. to_digit 10 c \<noteq> None) (format_radix 10 n) \<and>
   decimal (map (\<lambda>c. the (to_digit 10 c)) (format_radix 10 n)) = n"
proof (induction n rule: less_induct)
  case (less n)
  show ?case
  proof (cases "n < 10")
    case True
    then show ?thesis by (simp add: format_radix.simps [of 10 n] limit_digit decimal_def)
  next
    case False
    then have "n div 10 < n" by simp
    from less.IH [OF this] False show ?thesis
      by (simp add: format_radix.simps [of 10 n] limit_digit decimal_snoc)
  qed
qed

lemma format_digits:
  assumes "format_radix 10 n = c # cs"
  shows "c \<noteq> CHR ''+''"
proof
  assume c: "c = CHR ''+''"
  have "to_digit 10 (CHR ''+'') = None" by code_simp
  with decimal_format [of n] assms c show False by simp
qed

lemma parse_format: "n < bound \<Longrightarrow> parse_unsigned bound (format_radix 10 n) = Some n"
  using decimal_format [of n] format_digits [of n]
  by (cases "format_radix 10 n") (auto simp: parse_unsigned_def format_radix.simps [of 10 n] split: if_splits)

section \<open>Properties\<close>

text \<open>
  The server comes up exactly when logging, the scheduler and the socket work, with no rooms and no
  counts, whatever the limits are set to; without variables it listens on port 3000 with limits of 10
  and 1000. A limit is the number its text says; with a text that is no number every request panics.
\<close>

theorem server_start:
  "(server_main vars tracing_free scheduler bind = Ok (a, state) \<longleftrightarrow>
      tracing_free \<and> scheduler = None \<and> bind (bind_address vars) \<and> a = bind_address vars \<and> state = app_state_new) \<and>
   bind_address (\<lambda>name. None) = ''0.0.0.0:3000'' \<and> config_of (\<lambda>name. None) = Ok default_config \<and>
   (n < 2 ^ 64 \<and> m < 2 ^ 32 \<longrightarrow>
      config_of [''MAX_CONNECTIONS_PER_IP'' \<mapsto> format_radix 10 n, ''MAX_REQUESTS_PER_IP_PER_HOUR'' \<mapsto> format_radix 10 m] =
        Ok \<lparr> max_connections = n, max_requests = word_of_nat m \<rparr>) \<and>
   (vars ''MAX_REQUESTS_PER_IP_PER_HOUR'' = Some text \<and> parse_unsigned (2 ^ 32) text = None \<longrightarrow>
      (\<exists>p. count_request vars g st = Panic p))"
proof (intro conjI impI)
  show "server_main vars tracing_free scheduler bind = Ok (a, state) \<longleftrightarrow>
      tracing_free \<and> scheduler = None \<and> bind (bind_address vars) \<and> a = bind_address vars \<and> state = app_state_new"
    by (auto simp: server_main_def server_init_def split: option.splits)
  show "bind_address (\<lambda>name. None) = ''0.0.0.0:3000''" by (simp add: bind_address_def env_or_def)
  show "config_of (\<lambda>name. None) = Ok default_config"
  proof -
    have "to_digit 10 (CHR ''1'') = Some 1" "to_digit 10 (CHR ''0'') = Some 0" by code_simp+
    then have "parse_unsigned (2 ^ 64) ''10'' = Some 10" "parse_unsigned (2 ^ 32) ''1000'' = Some 1000"
      by (simp_all add: parse_unsigned_def decimal_def)
    then show ?thesis
      by (simp add: config_of_def MAX_CONNECTIONS_def MAX_REQUESTS_def limit_var_def env_or_def default_config_def)
  qed
next
  assume "n < 2 ^ 64 \<and> m < 2 ^ 32"
  then have "parse_unsigned (2 ^ 64) (format_radix 10 n) = Some n" "parse_unsigned (2 ^ 32) (format_radix 10 m) = Some m"
    by (simp_all add: parse_format)
  then show "config_of [''MAX_CONNECTIONS_PER_IP'' \<mapsto> format_radix 10 n,
      ''MAX_REQUESTS_PER_IP_PER_HOUR'' \<mapsto> format_radix 10 m] = Ok \<lparr> max_connections = n, max_requests = word_of_nat m \<rparr>"
    by (simp add: config_of_def MAX_CONNECTIONS_def MAX_REQUESTS_def limit_var_def env_or_def)
next
  assume "vars ''MAX_REQUESTS_PER_IP_PER_HOUR'' = Some text \<and> parse_unsigned (2 ^ 32) text = None"
  then show "\<exists>p. count_request vars g st = Panic p"
    by (simp add: count_request_def MAX_REQUESTS_def limit_var_def env_or_def)
qed

end
