(* ===== verification/Data_Channel.thy ===== *)
theory Data_Channel
  imports Prelude Crypto Wire "HOL-Library.Sublist"
begin

text \<open>
  The data-channel half of \<open>core/src/webrtc/webrtc.rs\<close>: what a transfer task sees of the
  outside world, the chunking of byte streams and the coding of session descriptions.

  A task is a function on \<open>task_world\<close>. Incoming messages are the list the channel will
  deliver before it closes, outgoing ones are recorded in order; whether the \<open>n\<close>-th send
  fails is an arbitrary function of \<open>n\<close>, and so is the moment the user interface drops a
  status listener and whether it drops the reader of a file. \<open>wait_buffer_empty\<close> and timeouts only delay and are left out.

  The facts: streaming chunking equals cutting the whole byte string, chunks respect
  \<open>CHUNK_SIZE\<close>, a chunked string followed by a delimiter is read back unchanged, and session
  descriptions survive encoding.
\<close>

section \<open>Messages and statuses\<close>

record dc_message =
  is_string :: bool
  data :: bytes

definition text_message :: "bytes \<Rightarrow> dc_message" where
  "text_message b = \<lparr> is_string = True, data = b \<rparr>"

definition binary_message :: "bytes \<Rightarrow> dc_message" where
  "binary_message b = \<lparr> is_string = False, data = b \<rparr>"

datatype rtc_status =
    SdpExchanged
  | Connected
  | PinRequired
  | TooManyAttempts
  | Declined
  | Sending
  | Finished
  | StatusError string

record rtc_file_error =
  fe_file_id :: string
  fe_error :: string

record rtc_send_file_response =
  fr_id :: string
  fr_success :: bool
  fr_error :: "string option"

section \<open>Worlds and tasks\<close>

record task_world =
  inbox :: "dc_message list"
  outbox :: "dc_message list"
  dc_sends :: nat
  dc_fault :: "nat \<Rightarrow> error option"
  statuses :: "rtc_status list"
  status_dropped :: "nat \<Rightarrow> bool"
  file_errors :: "rtc_file_error list"
  received :: "(string \<times> bytes list) list"
  file_results :: "rtc_send_file_response list"
  sink_dropped :: "string \<Rightarrow> bool"

type_synonym 'a io = "task_world \<Rightarrow> 'a res \<times> task_world"

definition io_return :: "'a \<Rightarrow> 'a io" where
  "io_return x w = (Ok x, w)"

definition io_fail :: "error \<Rightarrow> 'a io" where
  "io_fail e w = (Err e, w)"

definition io_of :: "'a res \<Rightarrow> 'a io" where
  "io_of r w = (r, w)"

definition io_bind :: "'a io \<Rightarrow> ('a \<Rightarrow> 'b io) \<Rightarrow> 'b io" where
  "io_bind m f w =
     (case m w of (Ok x, w') \<Rightarrow> f x w' | (Err e, w') \<Rightarrow> (Err e, w') | (Panic p, w') \<Rightarrow> (Panic p, w'))"

text \<open>\<open>let _ = m\<close>: the effects of \<open>m\<close>, whatever its result.\<close>

definition io_ignore :: "'a io \<Rightarrow> unit io" where
  "io_ignore m w = (Ok (), snd (m w))"

text \<open>\<open>map_err\<close> on a call.\<close>

definition io_map_err :: "error \<Rightarrow> 'a io \<Rightarrow> 'a io" where
  "io_map_err e m w = (map_err e (fst (m w)), snd (m w))"

definition dc_send :: "dc_message \<Rightarrow> unit io" where
  "dc_send m w =
     (case dc_fault w (dc_sends w) of
        None \<Rightarrow> (Ok (), w\<lparr> outbox := outbox w @ [m], dc_sends := Suc (dc_sends w) \<rparr>)
      | Some e \<Rightarrow> (Err e, w\<lparr> dc_sends := Suc (dc_sends w) \<rparr>))"

definition dc_recv :: "dc_message option io" where
  "dc_recv w =
     (case inbox w of
        [] \<Rightarrow> (Ok None, w)
      | m # ms \<Rightarrow> (Ok (Some m), w\<lparr> inbox := ms \<rparr>))"

definition send_status :: "rtc_status \<Rightarrow> unit io" where
  "send_status st w =
     (if status_dropped w (length (statuses w)) then (Err (Lib ''status_tx''), w)
      else (Ok (), w\<lparr> statuses := statuses w @ [st] \<rparr>))"

definition send_file_error :: "string \<Rightarrow> string \<Rightarrow> unit io" where
  "send_file_error f e w =
     (Ok (), w\<lparr> file_errors := file_errors w @ [\<lparr> fe_file_id = f, fe_error = e \<rparr>] \<rparr>)"

section \<open>Chunks\<close>

definition CHUNK_SIZE :: nat where
  "CHUNK_SIZE = 16 * 1024"

text \<open>
  The inner loop: full chunks are cut off the buffer and handed to the callback; a failing callback
  ends it. It returns the rest of the buffer.
\<close>

function drain :: "nat \<Rightarrow> (bytes \<Rightarrow> 's \<Rightarrow> unit res \<times> 's) \<Rightarrow> bytes \<Rightarrow> 's \<Rightarrow> bytes res \<times> 's" where
  "drain n callback buffer s =
     (if n = 0 \<or> length buffer < n then (Ok buffer, s)
      else case callback (take n buffer) s of
          (Ok u, s') \<Rightarrow> drain n callback (drop n buffer) s'
        | (Err e, s') \<Rightarrow> (Err e, s')
        | (Panic p, s') \<Rightarrow> (Panic p, s'))"
  by pat_completeness auto
termination
  by (relation "measure (\<lambda>(n, c, b, s). length b)") auto

declare drain.simps [simp del]

fun process_pieces ::
  "nat \<Rightarrow> (bytes \<Rightarrow> 's \<Rightarrow> unit res \<times> 's) \<Rightarrow> bytes \<Rightarrow> bytes list \<Rightarrow> 's \<Rightarrow> unit res \<times> 's" where
  "process_pieces n callback buffer [] s = (if buffer \<noteq> [] then callback buffer s else (Ok (), s))"
| "process_pieces n callback buffer (d # ds) s =
     (case drain n callback (buffer @ d) s of
        (Ok buffer', s') \<Rightarrow> process_pieces n callback buffer' ds s'
      | (Err e, s') \<Rightarrow> (Err e, s')
      | (Panic p, s') \<Rightarrow> (Panic p, s'))"

definition process_in_chunks ::
  "(bytes \<Rightarrow> 's \<Rightarrow> unit res \<times> 's) \<Rightarrow> bytes list \<Rightarrow> 's \<Rightarrow> unit res \<times> 's" where
  "process_in_chunks callback rx s = process_pieces CHUNK_SIZE callback [] rx s"

definition send_string_in_chunks ::
  "(bytes \<Rightarrow> 's \<Rightarrow> unit res \<times> 's) \<Rightarrow> bytes \<Rightarrow> 's \<Rightarrow> unit res \<times> 's" where
  "send_string_in_chunks callback string s = process_in_chunks callback [string] s"

text \<open>The callback of every call in the crate: send the chunk as a binary message.\<close>

definition send_chunk :: "bytes \<Rightarrow> unit io" where
  "send_chunk chunk = dc_send (binary_message chunk)"

definition send_delimiter :: "unit io" where
  "send_delimiter = dc_send (text_message (as_bytes ''0''))"

definition is_delimiter :: "dc_message \<Rightarrow> bool" where
  "is_delimiter msg \<longleftrightarrow> is_string msg \<and> length (data msg) \<le> 1"

fun collect_chunks :: "bytes \<Rightarrow> dc_message list \<Rightarrow> bytes \<times> dc_message list" where
  "collect_chunks buffer [] = (buffer, [])"
| "collect_chunks buffer (msg # ms) =
     (if is_string msg then (buffer, ms) else collect_chunks (buffer @ data msg) ms)"

definition receive_string_from_chunks :: "bytes io" where
  "receive_string_from_chunks w =
     (case collect_chunks [] (inbox w) of (b, ms) \<Rightarrow> (Ok b, w\<lparr> inbox := ms \<rparr>))"

section \<open>Session descriptions\<close>

text \<open>
  flate2's zlib is a parameter. Writing to a \<open>Vec\<close> cannot fail, so the two \<open>unwrap\<close>s of
  \<open>encode_sdp\<close> are total; \<open>read_to_string\<close> fails on corrupt data and on bytes that are
  not UTF-8.
\<close>

record zlib_lib =
  zlib_compress :: "bytes \<Rightarrow> bytes"
  zlib_decompress :: "bytes \<Rightarrow> bytes option"

definition encode_sdp :: "('sk, 'vk, 'rk) crypto_lib \<Rightarrow> zlib_lib \<Rightarrow> string \<Rightarrow> string" where
  "encode_sdp L Z s = encode L (zlib_compress Z (as_bytes s))"

definition decode_sdp :: "('sk, 'vk, 'rk) crypto_lib \<Rightarrow> zlib_lib \<Rightarrow> string \<Rightarrow> string res" where
  "decode_sdp L Z s =
     res_bind (map_err (Anyhow ''Base64 decode of SDP failed'') (decode L s)) (\<lambda>decoded_data.
     of_option (Anyhow ''Failed to decompress SDP'')
       (Option.bind (zlib_decompress Z decoded_data) from_utf8))"

section \<open>Specification vocabulary\<close>

text \<open>Cutting a whole byte string, and running a callback over pieces until one fails.\<close>

function chunks_of :: "nat \<Rightarrow> 'a list \<Rightarrow> 'a list list" where
  "chunks_of n xs = (if n = 0 \<or> xs = [] then [] else take n xs # chunks_of n (drop n xs))"
  by pat_completeness auto
termination
  by (relation "measure (\<lambda>(n, xs). length xs)") auto

declare chunks_of.simps [simp del]

fun run_each :: "(bytes \<Rightarrow> 's \<Rightarrow> unit res \<times> 's) \<Rightarrow> bytes list \<Rightarrow> 's \<Rightarrow> unit res \<times> 's" where
  "run_each callback [] s = (Ok (), s)"
| "run_each callback (c # cs) s =
     (case callback c s of
        (Ok u, s') \<Rightarrow> run_each callback cs s'
      | (Err e, s') \<Rightarrow> (Err e, s')
      | (Panic p, s') \<Rightarrow> (Panic p, s'))"

text \<open>A world in which nothing fails.\<close>

definition fault_free :: "task_world \<Rightarrow> bool" where
  "fault_free w \<longleftrightarrow>
     dc_fault w = (\<lambda>_. None) \<and> status_dropped w = (\<lambda>_. False) \<and> sink_dropped w = (\<lambda>_. False)"

definition fresh_world :: "dc_message list \<Rightarrow> rtc_send_file_response list \<Rightarrow> task_world" where
  "fresh_world msgs results =
     \<lparr> inbox = msgs, outbox = [], dc_sends = 0, dc_fault = (\<lambda>_. None), statuses = [],
       status_dropped = (\<lambda>_. False), file_errors = [], received = [], file_results = results,
       sink_dropped = (\<lambda>_. False) \<rparr>"

text \<open>A task moves the world along a relation, whatever its result.\<close>

definition moves :: "(task_world \<Rightarrow> task_world \<Rightarrow> bool) \<Rightarrow> 'a io \<Rightarrow> bool" where
  "moves R m \<longleftrightarrow> (\<forall>w. R w (snd (m w)))"

text \<open>The user interface never sees a \<open>Connected\<close> that was not there before.\<close>

definition no_new_connected :: "task_world \<Rightarrow> task_world \<Rightarrow> bool" where
  "no_new_connected w w' \<longleftrightarrow> (Connected \<in> set (statuses w') \<longrightarrow> Connected \<in> set (statuses w))"

text \<open>Messages are consumed from the front, and nothing else happens to them.\<close>

definition consumes :: "task_world \<Rightarrow> task_world \<Rightarrow> bool" where
  "consumes w w' \<longleftrightarrow> suffix (inbox w') (inbox w)"

text \<open>The messages already sent stay where they are.\<close>

definition extends_outbox :: "task_world \<Rightarrow> task_world \<Rightarrow> bool" where
  "extends_outbox w w' \<longleftrightarrow> prefix (outbox w) (outbox w')"

section \<open>Running tasks\<close>

named_theorems io_simps \<open>evaluation of tasks\<close>

lemmas io_defs = io_return_def io_fail_def io_of_def io_ignore_def io_map_err_def

lemma io_bind_Ok [io_simps]: "m w = (Ok x, w') \<Longrightarrow> io_bind m f w = f x w'"
  by (simp add: io_bind_def)

lemma io_bind_return [io_simps]: "io_bind (io_return x) f w = f x w"
  by (simp add: io_bind_def io_return_def)

lemma io_bind_eq_Ok:
  "io_bind m f w = (Ok y, w'') \<longleftrightarrow> (\<exists>x w'. m w = (Ok x, w') \<and> f x w' = (Ok y, w''))"
  by (auto simp: io_bind_def split: prod.splits res.splits)

lemma io_bind_assoc: "io_bind (io_bind m f) g = io_bind m (\<lambda>x. io_bind (f x) g)"
  by (auto simp: io_bind_def fun_eq_iff split: prod.splits res.splits)

lemma dc_send_ok [io_simps]:
  "fault_free w \<Longrightarrow> dc_send m w = (Ok (), w\<lparr> outbox := outbox w @ [m], dc_sends := Suc (dc_sends w) \<rparr>)"
  by (simp add: dc_send_def fault_free_def)

lemma send_status_ok [io_simps]:
  "fault_free w \<Longrightarrow> send_status st w = (Ok (), w\<lparr> statuses := statuses w @ [st] \<rparr>)"
  by (simp add: send_status_def fault_free_def)

lemma dc_recv_simps [io_simps]:
  "inbox w = [] \<Longrightarrow> dc_recv w = (Ok None, w)"
  "inbox w = m # ms \<Longrightarrow> dc_recv w = (Ok (Some m), w\<lparr> inbox := ms \<rparr>)"
  by (simp_all add: dc_recv_def)

lemma fault_free_updates [simp]:
  "fault_free (w\<lparr> inbox := a \<rparr>) = fault_free w"
  "fault_free (w\<lparr> outbox := b \<rparr>) = fault_free w"
  "fault_free (w\<lparr> dc_sends := c \<rparr>) = fault_free w"
  "fault_free (w\<lparr> statuses := d \<rparr>) = fault_free w"
  "fault_free (w\<lparr> file_errors := e \<rparr>) = fault_free w"
  "fault_free (w\<lparr> received := f \<rparr>) = fault_free w"
  "fault_free (w\<lparr> file_results := g \<rparr>) = fault_free w"
  by (simp_all add: fault_free_def)

lemma fault_free_fresh [simp]: "fault_free (fresh_world msgs results)"
  by (simp add: fault_free_def fresh_world_def)

section \<open>Chunking\<close>

lemma chunks_of_Nil [simp]: "chunks_of n [] = []"
  by (simp add: chunks_of.simps)

lemma chunks_of_step: "0 < n \<Longrightarrow> n \<le> length xs \<Longrightarrow> chunks_of n xs = take n xs # chunks_of n (drop n xs)"
  by (subst chunks_of.simps) auto

lemma chunks_of_short: "xs \<noteq> [] \<Longrightarrow> length xs < n \<Longrightarrow> chunks_of n xs = [xs]"
  by (subst chunks_of.simps) auto

lemma concat_chunks_of: "0 < n \<Longrightarrow> concat (chunks_of n xs) = xs"
proof (induction n xs rule: chunks_of.induct)
  case (1 n xs)
  then show ?case by (subst chunks_of.simps) auto
qed

lemma chunks_of_sizes: "0 < n \<Longrightarrow> c \<in> set (chunks_of n xs) \<Longrightarrow> c \<noteq> [] \<and> length c \<le> n"
proof (induction n xs rule: chunks_of.induct)
  case (1 n xs)
  from "1.prems"(2) show ?case
    using 1 by (subst (asm) chunks_of.simps) (auto split: if_splits)
qed

lemma chunks_of_butlast: "0 < n \<Longrightarrow> c \<in> set (butlast (chunks_of n xs)) \<Longrightarrow> length c = n"
proof (induction n xs rule: chunks_of.induct)
  case (1 n xs)
  show ?case
  proof (cases "xs = []")
    case False
    then have unf: "chunks_of n xs = take n xs # chunks_of n (drop n xs)"
      using "1.prems"(1) by (subst chunks_of.simps) auto
    show ?thesis
    proof (cases "drop n xs = []")
      case True
      with unf "1.prems"(2) show ?thesis by simp
    next
      case rest: False
      then have "chunks_of n (drop n xs) \<noteq> []"
        using "1.prems"(1) by (subst chunks_of.simps) auto
      with unf "1.prems"(2) have "c = take n xs \<or> c \<in> set (butlast (chunks_of n (drop n xs)))"
        by simp
      then show ?thesis
      proof
        assume "c = take n xs"
        with rest show ?thesis by simp
      next
        assume "c \<in> set (butlast (chunks_of n (drop n xs)))"
        moreover have "\<not> (n = 0 \<or> xs = [])" using False "1.prems"(1) by simp
        ultimately show ?thesis using "1.IH" "1.prems"(1) by blast
      qed
    qed
  qed (use "1.prems" in simp)
qed

lemma length_chunks_of: "0 < n \<Longrightarrow> length (chunks_of n xs) = (length xs + n - 1) div n"
proof (induction n xs rule: chunks_of.induct)
  case (1 n xs)
  show ?case
  proof (cases "xs = []")
    case False
    then have "length (chunks_of n xs) = Suc ((length xs - n + n - 1) div n)"
      using 1 by (subst chunks_of.simps) auto
    also have "\<dots> = (length xs + n - 1) div n"
    proof (cases "n \<le> length xs")
      case True
      then have eq: "length xs + n - 1 = (length xs - n + n - 1) + n" using "1.prems" by simp
      show ?thesis using "1.prems" by (simp only: eq div_add_self2)
    next
      case short: False
      then have eq: "length xs + n - 1 = (length xs - 1) + n" and lt: "length xs - 1 < n"
        using False by (cases xs; simp)+
      have "(length xs - n + n - 1) div n = 0" using short "1.prems" by simp
      with lt "1.prems" show ?thesis by (simp only: eq div_add_self2 div_less)
    qed
    finally show ?thesis .
  qed (use "1.prems" in simp)
qed

lemma drain_run_each:
  "0 < n \<Longrightarrow>
   (case drain n cb buffer s of
      (Ok rest, s') \<Rightarrow> length rest < n \<and>
        (\<forall>zs. run_each cb (chunks_of n (buffer @ zs)) s = run_each cb (chunks_of n (rest @ zs)) s')
    | (Err e, s') \<Rightarrow> (\<forall>zs. run_each cb (chunks_of n (buffer @ zs)) s = (Err e, s'))
    | (Panic p, s') \<Rightarrow> (\<forall>zs. run_each cb (chunks_of n (buffer @ zs)) s = (Panic p, s')))"
proof (induction n cb buffer s rule: drain.induct)
  case (1 n cb buffer s)
  show ?case
  proof (cases "length buffer < n")
    case True
    with "1.prems" show ?thesis by (subst drain.simps) simp
  next
    case False
    then have cut: "chunks_of n (buffer @ zs) = take n buffer # chunks_of n (drop n buffer @ zs)" for zs
      using chunks_of_step [of n "buffer @ zs"] "1.prems" by simp
    show ?thesis
    proof (cases "cb (take n buffer) s")
      case (Pair r s')
      show ?thesis
      proof (cases r)
        case (Ok u)
        have "(case drain n cb (drop n buffer) s' of
            (Ok rest, s'') \<Rightarrow> length rest < n \<and>
              (\<forall>zs. run_each cb (chunks_of n (drop n buffer @ zs)) s' = run_each cb (chunks_of n (rest @ zs)) s'')
          | (Err e, s'') \<Rightarrow> (\<forall>zs. run_each cb (chunks_of n (drop n buffer @ zs)) s' = (Err e, s''))
          | (Panic p, s'') \<Rightarrow> (\<forall>zs. run_each cb (chunks_of n (drop n buffer @ zs)) s' = (Panic p, s'')))"
          using 1 False Pair Ok by simp
        moreover have "drain n cb buffer s = drain n cb (drop n buffer) s'"
          using False "1.prems" Pair Ok by (subst drain.simps) simp
        moreover have "run_each cb (chunks_of n (buffer @ zs)) s =
            run_each cb (chunks_of n (drop n buffer @ zs)) s'" for zs
          using Pair Ok by (simp add: cut)
        ultimately show ?thesis by (simp only:)
      qed (use False "1.prems" Pair in \<open>subst drain.simps, simp add: cut\<close>)+
    qed
  qed
qed

lemma process_pieces_run_each:
  "0 < n \<Longrightarrow> length buffer < n \<Longrightarrow>
   process_pieces n cb buffer ds s = run_each cb (chunks_of n (buffer @ concat ds)) s"
proof (induction n cb buffer ds s rule: process_pieces.induct)
  case (1 n cb buffer s)
  then show ?case
    by (cases "cb buffer s"; cases "fst (cb buffer s)") (auto simp: chunks_of_short split: res.splits)
next
  case (2 n cb buffer d ds s)
  from drain_run_each [OF "2.prems"(1), of cb "buffer @ d" s] show ?case
    using "2.IH" "2.prems" by (auto split: prod.splits res.splits)
qed

lemma CHUNK_SIZE_pos [simp]: "0 < CHUNK_SIZE"
  by (simp add: CHUNK_SIZE_def)

lemma process_in_chunks_eq:
  "process_in_chunks cb rx s = run_each cb (chunks_of CHUNK_SIZE (concat rx)) s"
  by (simp add: process_in_chunks_def process_pieces_run_each)

lemma run_each_send_chunk:
  "fault_free w \<Longrightarrow> run_each send_chunk cs w =
     (Ok (), w\<lparr> outbox := outbox w @ map binary_message cs, dc_sends := dc_sends w + length cs \<rparr>)"
  by (induction cs arbitrary: w) (simp_all add: send_chunk_def io_simps)

lemma send_string_in_chunks_ok [io_simps]:
  "fault_free w \<Longrightarrow> send_string_in_chunks send_chunk b w =
     (Ok (), w\<lparr> outbox := outbox w @ map binary_message (chunks_of CHUNK_SIZE b),
                dc_sends := dc_sends w + length (chunks_of CHUNK_SIZE b) \<rparr>)"
  by (simp add: send_string_in_chunks_def process_in_chunks_eq run_each_send_chunk)

lemma collect_chunks_binary:
  "is_string d \<Longrightarrow> collect_chunks b (map binary_message cs @ d # ms) = (b @ concat cs, ms)"
  by (induction cs arbitrary: b) (auto simp: binary_message_def)

lemma receive_string_ok [io_simps]:
  "inbox w = map binary_message (chunks_of CHUNK_SIZE b) @ d # ms \<Longrightarrow> is_string d \<Longrightarrow>
   receive_string_from_chunks w = (Ok b, w\<lparr> inbox := ms \<rparr>)"
  by (simp add: receive_string_from_chunks_def collect_chunks_binary concat_chunks_of)

section \<open>Frames\<close>

text \<open>
  A reflexive and transitive relation on worlds that the primitive operations respect is respected
  by everything built from them. The instances say what a task leaves alone.
\<close>

locale io_frame =
  fixes R :: "task_world \<Rightarrow> task_world \<Rightarrow> bool"
  assumes R_refl: "R w w"
    and R_trans: "R u v \<Longrightarrow> R v w \<Longrightarrow> R u w"
    and R_send: "R w (snd (dc_send m w))"
    and R_recv: "R w (snd (dc_recv w))"
    and R_drop: "R w (w\<lparr> inbox := drop k (inbox w) \<rparr>)"
begin

lemma moves_return: "moves R (io_return x)"
  by (simp add: moves_def io_return_def R_refl)

lemma moves_fail: "moves R (io_fail e)"
  by (simp add: moves_def io_fail_def R_refl)

lemma moves_of: "moves R (io_of r)"
  by (simp add: moves_def io_of_def R_refl)

lemma moves_send: "moves R (dc_send m)"
  by (simp add: moves_def R_send)

lemma moves_recv: "moves R dc_recv"
  by (simp add: moves_def R_recv)

lemma moves_bind: "moves R m \<Longrightarrow> (\<And>x. moves R (f x)) \<Longrightarrow> moves R (io_bind m f)"
proof (unfold moves_def, intro allI)
  fix w assume m: "\<forall>w. R w (snd (m w))" and f: "\<And>x. \<forall>w. R w (snd (f x w))"
  obtain r w' where e: "m w = (r, w')" by fastforce
  with m have "R w w'" by (metis snd_conv)
  then show "R w (snd (io_bind m f w))"
    using f R_trans by (cases r) (auto simp: io_bind_def e)
qed

lemma moves_ignore: "moves R m \<Longrightarrow> moves R (io_ignore m)"
  by (simp add: moves_def io_ignore_def)

lemma moves_map_err: "moves R m \<Longrightarrow> moves R (io_map_err e m)"
  by (simp add: moves_def io_map_err_def)

lemma moves_delimiter: "moves R send_delimiter"
  by (simp add: send_delimiter_def moves_send)

lemma moves_receive_string: "moves R receive_string_from_chunks"
proof -
  have "\<exists>k. snd (collect_chunks b ms) = drop k ms" for b ms
  proof (induction b ms rule: collect_chunks.induct)
    case (2 buffer msg ms)
    show ?case
    proof (cases "is_string msg")
      case True
      then have "snd (collect_chunks buffer (msg # ms)) = drop 1 (msg # ms)" by simp
      then show ?thesis by blast
    next
      case False
      with 2 obtain k where "snd (collect_chunks (buffer @ data msg) ms) = drop k ms" by blast
      with False have "snd (collect_chunks buffer (msg # ms)) = drop (Suc k) (msg # ms)" by simp
      then show ?thesis by blast
    qed
  qed simp
  then obtain k where "snd (collect_chunks [] ms) = drop (k ms) ms" for ms by metis
  then show ?thesis
    by (simp add: moves_def receive_string_from_chunks_def case_prod_beta R_drop)
qed

lemma run_each_moves: "R w (snd (run_each send_chunk cs w))"
proof (induction cs arbitrary: w)
  case Nil
  then show ?case by (simp add: R_refl)
next
  case (Cons c cs)
  have step: "R w (snd (send_chunk c w))" by (simp add: send_chunk_def R_send)
  obtain r w' where e: "send_chunk c w = (r, w')" by fastforce
  show ?case
    using step Cons [of w'] R_trans by (cases r) (auto simp: e)
qed

lemma moves_send_string: "moves R (send_string_in_chunks send_chunk b)"
  by (simp add: moves_def send_string_in_chunks_def process_in_chunks_eq run_each_moves)

lemma moves_process: "moves R (process_in_chunks send_chunk rx)"
  by (simp add: moves_def process_in_chunks_eq run_each_moves)

lemmas moves_basic = moves_return moves_fail moves_of moves_send moves_recv moves_bind moves_ignore
  moves_map_err moves_delimiter moves_receive_string moves_send_string

end

interpretation nc: io_frame no_new_connected
  by unfold_locales
    (auto simp: no_new_connected_def dc_send_def dc_recv_def split: option.splits list.splits)

interpretation cs: io_frame consumes
  by unfold_locales
    (auto simp: consumes_def dc_send_def dc_recv_def suffix_ConsI suffix_drop split: option.splits list.splits
      intro: suffix_order.trans)

interpretation eo: io_frame extends_outbox
  by unfold_locales
    (auto simp: extends_outbox_def dc_send_def dc_recv_def split: option.splits list.splits
      intro: prefix_order.trans)

section \<open>Properties\<close>

text \<open>
  C20: chunking a stream as it arrives, in whatever pieces, calls the callback on exactly the
  chunks of the whole byte string and stops at the first failure; the chunks are non-empty, never
  larger than 16 KiB, all but the last are exactly 16 KiB, and together they are the stream.
\<close>

theorem streaming_chunks_equal_batch:
  "process_in_chunks cb rx s = run_each cb (chunks_of CHUNK_SIZE (concat rx)) s \<and>
   concat (chunks_of CHUNK_SIZE (concat rx)) = concat rx \<and>
   list_all (\<lambda>c. c \<noteq> [] \<and> length c \<le> CHUNK_SIZE) (chunks_of CHUNK_SIZE (concat rx)) \<and>
   list_all (\<lambda>c. length c = CHUNK_SIZE) (butlast (chunks_of CHUNK_SIZE (concat rx))) \<and>
   length (chunks_of CHUNK_SIZE (concat rx)) = (length (concat rx) + CHUNK_SIZE - 1) div CHUNK_SIZE"
  using chunks_of_sizes [of CHUNK_SIZE] chunks_of_butlast [of CHUNK_SIZE] length_chunks_of [of CHUNK_SIZE]
  by (auto simp: process_in_chunks_eq concat_chunks_of list_all_iff)

text \<open>
  A string sent in chunks and closed by a delimiter is read back unchanged by the other side,
  which consumes exactly those messages.
\<close>

theorem chunked_string_roundtrip:
  assumes "fault_free w" "fault_free w'" "outbox w = []"
    and "io_bind (send_string_in_chunks send_chunk b) (\<lambda>_. send_delimiter) w = (r, sent)"
    and "inbox w' = outbox sent @ later"
  shows "r = Ok () \<and> receive_string_from_chunks w' = (Ok b, w'\<lparr> inbox := later \<rparr>)"
proof -
  have "outbox sent = map binary_message (chunks_of CHUNK_SIZE b) @ [text_message (as_bytes ''0'')]"
    and "r = Ok ()"
    using assms(1,3,4) by (auto simp: io_bind_def send_string_in_chunks_ok send_delimiter_def io_simps)
  with assms(5) show ?thesis by (simp add: receive_string_ok text_message_def)
qed

theorem chunked_string_roundtrip_witness:
  "\<exists>sent. io_bind (send_string_in_chunks send_chunk (as_bytes ''hi'')) (\<lambda>_. send_delimiter) (fresh_world [] []) =
       (Ok (), sent) \<and>
     fst (receive_string_from_chunks (fresh_world (outbox sent) [])) = Ok (as_bytes ''hi'')"
proof -
  obtain r sent where e: "io_bind (send_string_in_chunks send_chunk (as_bytes ''hi''))
      (\<lambda>_. send_delimiter) (fresh_world [] []) = (r, sent)" by fastforce
  have "r = Ok () \<and> receive_string_from_chunks (fresh_world (outbox sent) []) =
      (Ok (as_bytes ''hi''), (fresh_world (outbox sent) [])\<lparr> inbox := [] \<rparr>)"
    by (rule chunked_string_roundtrip [OF _ _ _ e]) (simp_all add: fresh_world_def fault_free_def)
  with e show ?thesis by auto
qed

text \<open>A session description survives compression and base64.\<close>

theorem sdp_roundtrip:
  assumes "base64_engine (base64_encode L) (base64_decode L)"
    and "\<And>b. zlib_decompress Z (zlib_compress Z b) = Some b"
    and "utf8_valid (map unat (as_bytes s))"
  shows "decode_sdp L Z (encode_sdp L Z s) = Ok s"
  using assms(2,3) base64_engine.dec_enc [OF assms(1)]
  by (simp add: decode_sdp_def encode_sdp_def decode_def encode_def from_utf8_def)

theorem sdp_roundtrip_witness:
  "decode_sdp demo_crypto \<lparr> zlib_compress = rev, zlib_decompress = (\<lambda>b. Some (rev b)) \<rparr>
     (encode_sdp demo_crypto \<lparr> zlib_compress = rev, zlib_decompress = (\<lambda>b. Some (rev b)) \<rparr> ''v=0'') = Ok ''v=0''"
  by (rule sdp_roundtrip [OF demo_base64]) (simp, code_simp)

end
