(* ===== verification/Rtc_Messages.thy ===== *)
theory Rtc_Messages
  imports Data_Channel
begin

text \<open>
  The messages of the transfer protocol of \<open>core/src/webrtc/webrtc.rs\<close>, and the JSON coding the
  tasks rely on. serde_json is the record \<open>rtc_codec\<close> of a writer and a reader per message type,
  with \<open>codec_ok\<close> as its contract; \<open>plain_codec\<close> is a length-free byte coding that satisfies
  the contract and serves the concrete runs of the later theories.
\<close>

section \<open>Messages\<close>

datatype rtc_token_response =
    TokenOk string
  | TokenPinRequired string
  | TokenInvalidSignature

datatype rtc_pin_receiving_response =
    PinReceivingOk
  | PinReceivingPinRequired
  | PinReceivingTooManyAttempts

datatype rtc_pin_sending_response =
    PinSendingOk "file_dto list"
  | PinSendingPinRequired
  | PinSendingTooManyAttempts

datatype rtc_file_list_response =
    FileListOk "(string, string) hash_map"
  | FileListPair string
  | FileListDeclined
  | FileListInvalidSignature

datatype rtc_pair_response =
    PairOk string
  | PairDeclined
  | PairInvalidSignature

record rtc_send_file_header_request =
  hdr_id :: string
  hdr_token :: string

record rtc_file =
  rf_file_id :: string
  rf_binary :: "bytes list"

record rtc_file_state =
  fs_file_id :: string
  fs_size :: u64

record pin_config =
  pin :: string
  max_tries :: u8

record rtc_codec =
  ser_nonce :: "string \<Rightarrow> bytes"
  de_nonce :: "bytes \<Rightarrow> string option"
  ser_token_request :: "string \<Rightarrow> bytes"
  de_token_request :: "bytes \<Rightarrow> string option"
  ser_token_response :: "rtc_token_response \<Rightarrow> bytes"
  de_token_response :: "bytes \<Rightarrow> rtc_token_response option"
  ser_pin :: "string \<Rightarrow> bytes"
  de_pin :: "bytes \<Rightarrow> string option"
  ser_pin_receiving :: "rtc_pin_receiving_response \<Rightarrow> bytes"
  de_pin_receiving :: "bytes \<Rightarrow> rtc_pin_receiving_response option"
  ser_pin_sending :: "rtc_pin_sending_response \<Rightarrow> bytes"
  de_pin_sending :: "bytes \<Rightarrow> rtc_pin_sending_response option"
  ser_file_list :: "rtc_file_list_response \<Rightarrow> bytes"
  de_file_list :: "bytes \<Rightarrow> rtc_file_list_response option"
  ser_pair :: "rtc_pair_response \<Rightarrow> bytes"
  ser_header :: "rtc_send_file_header_request \<Rightarrow> bytes"
  de_header :: "bytes \<Rightarrow> rtc_send_file_header_request option"
  ser_file_response :: "rtc_send_file_response \<Rightarrow> bytes"

text \<open>
  What the tasks rely on: each reader accepts what its writer produced. The map of a file list is a
  \<open>HashMap\<close>, so only lists with one entry per key stand for one.
\<close>

definition ok_file_list :: "rtc_file_list_response \<Rightarrow> bool" where
  "ok_file_list r = (case r of FileListOk files \<Rightarrow> distinct (map fst files) | _ \<Rightarrow> True)"

definition codec_ok :: "rtc_codec \<Rightarrow> bool" where
  "codec_ok C \<longleftrightarrow>
     (\<forall>x. de_nonce C (ser_nonce C x) = Some x) \<and>
     (\<forall>x. de_token_request C (ser_token_request C x) = Some x) \<and>
     (\<forall>x. de_token_response C (ser_token_response C x) = Some x) \<and>
     (\<forall>x. de_pin C (ser_pin C x) = Some x) \<and>
     (\<forall>x. de_pin_receiving C (ser_pin_receiving C x) = Some x) \<and>
     (\<forall>x. de_pin_sending C (ser_pin_sending C x) = Some x) \<and>
     (\<forall>x. ok_file_list x \<longrightarrow> de_file_list C (ser_file_list C x) = Some x) \<and>
     (\<forall>x. de_header C (ser_header C x) = Some x \<and> 1 < length (ser_header C x))"

section \<open>A concrete coding\<close>

text \<open>Strings, each byte announced by a 1 and each string closed by a 0.\<close>

definition enc_str :: "string \<Rightarrow> bytes" where
  "enc_str s = concat (map (\<lambda>b. [1, b]) (as_bytes s)) @ [0]"

definition enc_strs :: "string list \<Rightarrow> bytes" where
  "enc_strs ss = concat (map enc_str ss)"

fun dec_strs :: "bytes \<Rightarrow> bytes \<Rightarrow> string list option" where
  "dec_strs acc [] = (if acc = [] then Some [] else None)"
| "dec_strs acc (t # bs) =
     (if t = 0 then map_option (\<lambda>ss. bytes_string acc # ss) (dec_strs [] bs)
      else case bs of b # bs' \<Rightarrow> dec_strs (acc @ [b]) bs' | [] \<Rightarrow> None)"

fun enc_opt :: "string option \<Rightarrow> string" where
  "enc_opt None = []"
| "enc_opt (Some s) = CHR ''x'' # s"

fun dec_opt :: "string \<Rightarrow> string option" where
  "dec_opt [] = None"
| "dec_opt (c # s) = Some s"

definition enc_metadata :: "file_metadata \<Rightarrow> string" where
  "enc_metadata m = bytes_string (enc_strs [enc_opt (modified m), enc_opt (accessed m)])"

definition dec_metadata :: "string \<Rightarrow> file_metadata option" where
  "dec_metadata s =
     (case dec_strs [] (as_bytes s) of
        Some [a, b] \<Rightarrow> Some \<lparr> modified = dec_opt a, accessed = dec_opt b \<rparr>
      | _ \<Rightarrow> None)"

definition enc_file :: "file_dto \<Rightarrow> string list" where
  "enc_file f =
     [file_dto_id f, file_name f, bytes_string (to_le_bytes (file_size f)), file_type f,
      enc_opt (file_sha256 f), enc_opt (file_preview f),
      enc_opt (map_option enc_metadata (file_dto_metadata f))]"

fun dec_files :: "string list \<Rightarrow> file_dto list option" where
  "dec_files [] = Some []"
| "dec_files (i # n # sz # ty # sha # pre # m # rest) =
     map_option (\<lambda>fs.
       \<lparr> file_dto_id = i, file_name = n, file_size = from_le_bytes (as_bytes sz), file_type = ty,
         file_sha256 = dec_opt sha, file_preview = dec_opt pre,
         file_dto_metadata = Option.bind (dec_opt m) dec_metadata \<rparr> # fs) (dec_files rest)"
| "dec_files _ = None"

fun dec_pairs :: "string list \<Rightarrow> (string, string) hash_map option" where
  "dec_pairs [] = Some []"
| "dec_pairs (k # v # rest) = map_option (\<lambda>m. (k, v) # m) (dec_pairs rest)"
| "dec_pairs [k] = None"

fun tag :: "u8 \<Rightarrow> string list \<Rightarrow> bytes" where
  "tag t ss = t # enc_strs ss"

definition plain_codec :: rtc_codec where
  "plain_codec = \<lparr>
     ser_nonce = as_bytes, de_nonce = Some \<circ> bytes_string,
     ser_token_request = as_bytes, de_token_request = Some \<circ> bytes_string,
     ser_token_response =
       (\<lambda>r. case r of TokenOk t \<Rightarrow> 0 # as_bytes t | TokenPinRequired t \<Rightarrow> 1 # as_bytes t
             | TokenInvalidSignature \<Rightarrow> [2]),
     de_token_response =
       (\<lambda>b. case b of [] \<Rightarrow> None
             | t # s \<Rightarrow> if t = 0 then Some (TokenOk (bytes_string s))
                        else if t = 1 then Some (TokenPinRequired (bytes_string s))
                        else Some TokenInvalidSignature),
     ser_pin = as_bytes, de_pin = Some \<circ> bytes_string,
     ser_pin_receiving =
       (\<lambda>r. case r of PinReceivingOk \<Rightarrow> [0] | PinReceivingPinRequired \<Rightarrow> [1] | PinReceivingTooManyAttempts \<Rightarrow> [2]),
     de_pin_receiving =
       (\<lambda>b. if b = [0] then Some PinReceivingOk else if b = [1] then Some PinReceivingPinRequired
             else if b = [2] then Some PinReceivingTooManyAttempts else None),
     ser_pin_sending =
       (\<lambda>r. case r of PinSendingOk fs \<Rightarrow> tag 0 (concat (map enc_file fs)) | PinSendingPinRequired \<Rightarrow> [1]
             | PinSendingTooManyAttempts \<Rightarrow> [2]),
     de_pin_sending =
       (\<lambda>b. case b of [] \<Rightarrow> None
             | t # s \<Rightarrow> if t = 0 then map_option PinSendingOk (Option.bind (dec_strs [] s) dec_files)
                        else if t = 1 then Some PinSendingPinRequired
                        else Some PinSendingTooManyAttempts),
     ser_file_list =
       (\<lambda>r. case r of FileListOk m \<Rightarrow> tag 0 (concat (map (\<lambda>(k, v). [k, v]) m))
             | FileListPair k \<Rightarrow> 1 # as_bytes k | FileListDeclined \<Rightarrow> [2] | FileListInvalidSignature \<Rightarrow> [3]),
     de_file_list =
       (\<lambda>b. case b of [] \<Rightarrow> None
             | t # s \<Rightarrow> if t = 0 then map_option FileListOk (Option.bind (dec_strs [] s) dec_pairs)
                        else if t = 1 then Some (FileListPair (bytes_string s))
                        else if t = 2 then Some FileListDeclined else Some FileListInvalidSignature),
     ser_pair =
       (\<lambda>r. case r of PairOk k \<Rightarrow> 0 # as_bytes k | PairDeclined \<Rightarrow> [1] | PairInvalidSignature \<Rightarrow> [2]),
     ser_header = (\<lambda>h. enc_strs [hdr_id h, hdr_token h]),
     de_header =
       (\<lambda>b. case dec_strs [] b of Some [i, t] \<Rightarrow> Some \<lparr> hdr_id = i, hdr_token = t \<rparr> | _ \<Rightarrow> None),
     ser_file_response =
       (\<lambda>r. enc_strs [fr_id r, (if fr_success r then ''t'' else ''f''), enc_opt (fr_error r)]) \<rparr>"

section \<open>The concrete coding is a codec\<close>

lemma dec_strs_string:
  "dec_strs acc (concat (map (\<lambda>b. [1, b]) bs) @ 0 # rest) =
     map_option (\<lambda>ss. bytes_string (acc @ bs) # ss) (dec_strs [] rest)"
  by (induction bs arbitrary: acc) simp_all

lemma dec_strs_enc_strs [simp]: "dec_strs [] (enc_strs ss) = Some ss"
  by (induction ss) (simp_all add: enc_strs_def enc_str_def dec_strs_string)

lemma enc_strs_two_long [simp]: "Suc 0 < length (enc_strs [a, b])"
  by (simp add: enc_strs_def enc_str_def)

lemma dec_opt_enc_opt [simp]: "dec_opt (enc_opt v) = v"
  by (cases v) simp_all

lemma dec_enc_metadata [simp]: "dec_metadata (enc_metadata m) = Some m"
  by (simp add: dec_metadata_def enc_metadata_def)

lemma dec_files_enc_file [simp]: "dec_files (concat (map enc_file fs)) = Some fs"
proof (induction fs)
  case (Cons f fs)
  then show ?case
    by (cases "file_dto_metadata f") (simp_all add: enc_file_def)
qed simp

lemma dec_pairs_concat [simp]: "dec_pairs (concat (map (\<lambda>(k, v). [k, v]) m)) = Some m"
  by (induction m) auto

lemma codec_ok_plain [simp]: "codec_ok plain_codec"
  unfolding codec_ok_def plain_codec_def
  by (auto split: rtc_token_response.splits rtc_pin_receiving_response.splits
      rtc_pin_sending_response.splits rtc_file_list_response.splits)

end
