(* ===== verification/Handshake.thy ===== *)
theory Handshake
  imports Rtc_Messages
begin

text \<open>
  The transfer protocol of \<open>core/src/webrtc/webrtc.rs\<close>: the task spawned by
  \<open>send_offer\<close> (sender) and the one spawned by \<open>accept_offer\<close> (receiver), phase by phase:
  nonce exchange, token exchange, the PIN challenges in both directions, file list, selection and
  pairing, and the files themselves.

  serde_json is the record \<open>rtc_codec\<close> of a writer and a reader per message type. What the user
  interface answers (PINs, pairing, selection, per-file results) is part of the task's arguments;
  a list of answers that runs out is a listener that went away. A loop that waits for the user or
  the peer therefore ends with the data it is given, and every definition is total.
\<close>

section \<open>Nonce exchange\<close>

definition receive_nonce :: "('sk, 'vk, 'rk) crypto_lib \<Rightarrow> rtc_codec \<Rightarrow> bytes io" where
  "receive_nonce L C = io_bind dc_recv (\<lambda>m.
     case m of
       None \<Rightarrow> io_fail (Anyhow ''Failed to receive nonce'')
     | Some msg \<Rightarrow>
         if \<not> is_string msg then io_fail (Anyhow ''Expected string message'')
         else (case de_nonce C (data msg) of
             None \<Rightarrow> io_fail (Lib ''serde_json'')
           | Some nonce \<Rightarrow>
               (case base64_decode L nonce of
                  None \<Rightarrow> io_fail (Anyhow ''Failed to decode remote nonce'')
                | Some remote_nonce \<Rightarrow>
                    if \<not> validate_nonce remote_nonce then io_fail (Anyhow ''Invalid remote nonce'')
                    else io_return remote_nonce)))"

definition send_nonce :: "('sk, 'vk, 'rk) crypto_lib \<Rightarrow> rtc_codec \<Rightarrow> bytes \<Rightarrow> unit io" where
  "send_nonce L C local_nonce =
     io_map_err (Anyhow ''Failed to send nonce'')
       (dc_send (text_message (ser_nonce C (encode L local_nonce))))"

text \<open>Both sides end with sender nonce followed by receiver nonce.\<close>

definition sender_nonce_exchange ::
  "('sk, 'vk, 'rk) crypto_lib \<Rightarrow> rtc_codec \<Rightarrow> (nat \<Rightarrow> bytes) \<Rightarrow> bytes io" where
  "sender_nonce_exchange L C rng =
     (let local_nonce = generate_nonce rng in
      io_bind (send_nonce L C local_nonce) (\<lambda>_.
      io_bind (receive_nonce L C) (\<lambda>remote_nonce.
      io_return (local_nonce @ remote_nonce))))"

definition receiver_nonce_exchange ::
  "('sk, 'vk, 'rk) crypto_lib \<Rightarrow> rtc_codec \<Rightarrow> (nat \<Rightarrow> bytes) \<Rightarrow> bytes io" where
  "receiver_nonce_exchange L C rng =
     io_bind (receive_nonce L C) (\<lambda>remote_nonce.
     let local_nonce = generate_nonce rng in
     io_bind (send_nonce L C local_nonce) (\<lambda>_.
     io_return (remote_nonce @ local_nonce)))"

section \<open>Token exchange\<close>

definition sender_token_exchange ::
  "('sk, 'vk, 'rk) crypto_lib \<Rightarrow> rtc_codec \<Rightarrow> 'sk \<Rightarrow> ('vk, 'rk) verifying_token_key option \<Rightarrow>
     bytes \<Rightarrow> (string \<times> rtc_token_response) io" where
  "sender_token_exchange L C signing_key expecting_public_key nonce =
     io_bind (io_of (map_err (Anyhow ''Failed to generate token'') (generate_token_nonce L signing_key nonce))) (\<lambda>local_token.
     io_bind (io_map_err (Anyhow ''Failed to send token'')
                (dc_send (text_message (ser_token_request C local_token)))) (\<lambda>_.
     io_bind dc_recv (\<lambda>m.
     case m of
       None \<Rightarrow> io_fail (Anyhow ''Failed to receive token response'')
     | Some msg \<Rightarrow>
         if \<not> is_string msg then io_fail (Anyhow ''Expected string message'')
         else (case de_token_response C (data msg) of
             None \<Rightarrow> io_fail (Lib ''serde_json'')
           | Some TokenInvalidSignature \<Rightarrow>
               io_fail (Anyhow ''Invalid token signature from receiving peer'')
           | Some token_response \<Rightarrow>
               (let remote_token =
                      (case token_response of TokenOk t \<Rightarrow> t | TokenPinRequired t \<Rightarrow> t | TokenInvalidSignature \<Rightarrow> [])
                in case expecting_public_key of
                     None \<Rightarrow> io_return (remote_token, token_response)
                   | Some key \<Rightarrow>
                       io_bind (io_of (verify_token_nonce L key remote_token nonce)) (\<lambda>valid.
                       if valid then io_return (remote_token, token_response)
                       else io_fail (Anyhow ''Invalid token signature or nonce'')))))))"

definition receiver_token_exchange ::
  "('sk, 'vk, 'rk) crypto_lib \<Rightarrow> rtc_codec \<Rightarrow> 'sk \<Rightarrow> ('vk, 'rk) verifying_token_key option \<Rightarrow>
     pin_config option \<Rightarrow> bytes \<Rightarrow> string io" where
  "receiver_token_exchange L C signing_key expecting_public_key pin_cfg nonce =
     io_bind dc_recv (\<lambda>m.
     case m of
       None \<Rightarrow> io_fail (Anyhow ''Failed to receive token'')
     | Some msg \<Rightarrow>
         if \<not> is_string msg then io_fail (Anyhow ''Expected string message'')
         else (case de_token_request C (data msg) of
             None \<Rightarrow> io_fail (Lib ''serde_json'')
           | Some remote_token \<Rightarrow>
               io_bind
                 (case expecting_public_key of
                    None \<Rightarrow> io_return ()
                  | Some key \<Rightarrow>
                      io_bind (io_of (verify_token_nonce L key remote_token nonce)) (\<lambda>valid.
                      if valid then io_return ()
                      else io_bind (dc_send (text_message (ser_token_response C TokenInvalidSignature)))
                             (\<lambda>_. io_fail (Anyhow ''Invalid token signature or nonce'')))) (\<lambda>_.
               io_bind (io_of (map_err (Anyhow ''Failed to generate token'') (generate_token_nonce L signing_key nonce))) (\<lambda>local_token.
               io_bind (io_map_err (Anyhow ''Failed to send token'')
                 (dc_send (text_message (ser_token_response C
                    (case pin_cfg of Some p \<Rightarrow> TokenPinRequired local_token | None \<Rightarrow> TokenOk local_token))))) (\<lambda>_.
               io_return remote_token)))))"

section \<open>PIN challenges\<close>

datatype 'a challenge_pin_result =
    ChallengeOk 'a
  | ChallengePinRequired
  | ChallengeTooManyAttempts
  | ChallengeParseError error

definition receive_pin_response :: "bool \<Rightarrow> bytes io" where
  "receive_pin_response receive_in_chunks =
     (if receive_in_chunks then receive_string_from_chunks
      else io_bind dc_recv (\<lambda>m.
        case m of
          None \<Rightarrow> io_fail (Anyhow ''Failed to receive initial message'')
        | Some init_status \<Rightarrow>
            if \<not> is_string init_status then io_fail (Anyhow ''Expected string message'')
            else io_return (data init_status)))"

text \<open>
  The peer that has to prove it knows the PIN. \<open>answers\<close> are the user's replies to the prompts:
  \<open>None\<close> a dropped reply channel, the empty list a prompt listener that is gone.
\<close>

fun handle_pin ::
  "rtc_codec \<Rightarrow> bool \<Rightarrow> (bytes \<Rightarrow> 'a challenge_pin_result) \<Rightarrow> string option list \<Rightarrow> 'a io" where
  "handle_pin C receive_in_chunks parse_response [] =
     io_bind (send_status PinRequired) (\<lambda>_. io_fail (Anyhow ''Failed to send PIN request''))"
| "handle_pin C receive_in_chunks parse_response (None # answers) =
     io_bind (send_status PinRequired) (\<lambda>_. io_fail (Anyhow ''PIN required but not provided''))"
| "handle_pin C receive_in_chunks parse_response (Some p # answers) =
     io_bind (send_status PinRequired) (\<lambda>_.
     io_bind (dc_send (text_message (ser_pin C p))) (\<lambda>_.
     io_bind (receive_pin_response receive_in_chunks) (\<lambda>b.
     case parse_response b of
       ChallengeOk result \<Rightarrow> io_return result
     | ChallengePinRequired \<Rightarrow> handle_pin C receive_in_chunks parse_response answers
     | ChallengeTooManyAttempts \<Rightarrow>
         io_bind (send_status TooManyAttempts) (\<lambda>_. io_fail (Anyhow ''Too many requests''))
     | ChallengeParseError e \<Rightarrow> io_fail e)))"

datatype verify_pin_result = VerifyPinRequired | VerifyTooManyAttempts

text \<open>The peer that checks the PIN: \<open>pin_try\<close> is the \<open>u8\<close> of the source.\<close>

function verify_pin_loop ::
  "rtc_codec \<Rightarrow> pin_config \<Rightarrow> (verify_pin_result \<Rightarrow> unit io) \<Rightarrow> bool \<Rightarrow> string \<Rightarrow> u8 \<Rightarrow> unit io" where
  "verify_pin_loop C cfg send_result send_initial_notice remote_pin pin_try w =
     (if remote_pin = pin cfg then (Ok (), w)
      else if pin_try \<ge> max_tries cfg then
        io_bind (io_ignore (send_result VerifyTooManyAttempts)) (\<lambda>_.
        io_bind (send_status TooManyAttempts) (\<lambda>_.
        io_fail (Anyhow ''Too many requests''))) w
      else
        (case (if send_initial_notice \<or> pin_try > 0 then send_result VerifyPinRequired w
               else (Ok (), w)) of
           (Err e, w1) \<Rightarrow> (Err e, w1)
         | (Panic p, w1) \<Rightarrow> (Panic p, w1)
         | (Ok u, w1) \<Rightarrow>
             (case dc_recv w1 of
                (Ok (Some msg), w2) \<Rightarrow>
                  (case de_pin C (data msg) of
                     None \<Rightarrow> (Err (Lib ''serde_json''), w2)
                   | Some p \<Rightarrow> verify_pin_loop C cfg send_result False p (pin_try + 1) w2)
              | (_, w2) \<Rightarrow> (Err (Anyhow ''Failed to receive pin''), w2))))"
  by pat_completeness auto
termination
proof (relation "measure (\<lambda>(C, cfg, sr, n, p, t, w). unat (max_tries cfg) - unat t)", goal_cases)
  case 1
  show ?case by simp
next
  case (2 C cfg send_result send_initial_notice remote_pin pin_try w)
  then have "pin_try < max_tries cfg" by simp
  then show ?case
    using unat_Suc_if_less [of pin_try "max_tries cfg"] by (simp add: word_less_nat_alt)
qed

declare verify_pin_loop.simps [simp del]

definition verify_pin ::
  "rtc_codec \<Rightarrow> pin_config \<Rightarrow> bool \<Rightarrow> (verify_pin_result \<Rightarrow> unit io) \<Rightarrow> unit io" where
  "verify_pin C cfg send_initial_notice send_result =
     io_bind (send_status PinRequired) (\<lambda>_.
     verify_pin_loop C cfg send_result send_initial_notice [] 0)"

subsection \<open>The closures of the two tasks\<close>

definition sender_parse_pin_response :: "rtc_codec \<Rightarrow> bytes \<Rightarrow> unit challenge_pin_result" where
  "sender_parse_pin_response C b =
     (case de_pin_receiving C b of
        None \<Rightarrow> ChallengeParseError (Anyhow ''Failed to parse pin response'')
      | Some PinReceivingOk \<Rightarrow> ChallengeOk ()
      | Some PinReceivingPinRequired \<Rightarrow> ChallengePinRequired
      | Some PinReceivingTooManyAttempts \<Rightarrow> ChallengeTooManyAttempts)"

definition receiver_parse_pin_response :: "rtc_codec \<Rightarrow> bytes \<Rightarrow> file_dto list challenge_pin_result" where
  "receiver_parse_pin_response C b =
     (case de_pin_sending C b of
        None \<Rightarrow> ChallengeParseError (Anyhow ''Failed to parse pin response'')
      | Some (PinSendingOk files) \<Rightarrow> ChallengeOk files
      | Some PinSendingPinRequired \<Rightarrow> ChallengePinRequired
      | Some PinSendingTooManyAttempts \<Rightarrow> ChallengeTooManyAttempts)"

definition sender_send_pin_result :: "rtc_codec \<Rightarrow> verify_pin_result \<Rightarrow> unit io" where
  "sender_send_pin_result C result =
     io_bind (send_string_in_chunks send_chunk (ser_pin_sending C
       (case result of VerifyPinRequired \<Rightarrow> PinSendingPinRequired
        | VerifyTooManyAttempts \<Rightarrow> PinSendingTooManyAttempts))) (\<lambda>_.
     send_delimiter)"

definition receiver_send_pin_result :: "rtc_codec \<Rightarrow> verify_pin_result \<Rightarrow> unit io" where
  "receiver_send_pin_result C result =
     dc_send (text_message (ser_pin_receiving C
       (case result of VerifyPinRequired \<Rightarrow> PinReceivingPinRequired
        | VerifyTooManyAttempts \<Rightarrow> PinReceivingTooManyAttempts)))"

section \<open>Specification vocabulary\<close>

definition pin_message :: "rtc_codec \<Rightarrow> string \<Rightarrow> dc_message" where
  "pin_message C p = text_message (ser_pin C p)"

definition demo_rng :: "u8 \<Rightarrow> nat \<Rightarrow> bytes" where
  "demo_rng b n = replicate n b"

text \<open>A result callback that in a fault-free world succeeds and leaves the inbox alone.\<close>

definition quiet_result :: "(verify_pin_result \<Rightarrow> unit io) \<Rightarrow> bool" where
  "quiet_result send_result \<longleftrightarrow>
     (\<forall>r w. fault_free w \<longrightarrow>
        (\<exists>w1. send_result r w = (Ok (), w1) \<and> fault_free w1 \<and> inbox w1 = inbox w))"

section \<open>Facts on nonces and tokens\<close>

lemma codec_ok_simps [simp]:
  assumes "codec_ok C"
  shows "de_nonce C (ser_nonce C s) = Some s"
    "de_token_request C (ser_token_request C s) = Some s"
    "de_token_response C (ser_token_response C tr) = Some tr"
    "de_pin C (ser_pin C s) = Some s"
    "de_pin_receiving C (ser_pin_receiving C pr) = Some pr"
    "de_pin_sending C (ser_pin_sending C ps) = Some ps"
    "ok_file_list fl \<Longrightarrow> de_file_list C (ser_file_list C fl) = Some fl"
    "de_header C (ser_header C h) = Some h"
    "\<not> length (ser_header C h) \<le> Suc 0"
  using assms by (auto simp: codec_ok_def not_le)

lemma text_message_simps [simp]:
  "is_string (text_message b)" "data (text_message b) = b"
  by (simp_all add: text_message_def)

lemma binary_message_simps [simp]:
  "\<not> is_string (binary_message b)" "data (binary_message b) = b"
  by (simp_all add: binary_message_def)

lemma pin_message_simps [simp]:
  "is_string (pin_message C p)" "data (pin_message C p) = ser_pin C p"
  by (simp_all add: pin_message_def)

lemma dc_send_eq_Ok:
  "dc_send m w = (Ok u, w') \<longleftrightarrow>
     dc_fault w (dc_sends w) = None \<and> w' = w\<lparr> outbox := outbox w @ [m], dc_sends := Suc (dc_sends w) \<rparr>"
  by (auto simp: dc_send_def split: option.splits)

lemma io_map_err_eq_Ok: "io_map_err e m w = (Ok x, w') \<longleftrightarrow> m w = (Ok x, w')"
  by (auto simp: io_map_err_def map_err_eq_Ok prod_eq_iff)

lemma io_of_eq_Ok: "io_of r w = (Ok x, w') \<longleftrightarrow> r = Ok x \<and> w' = w"
  by (auto simp: io_of_def)

lemma io_return_eq: "io_return x w = (Ok y, w') \<longleftrightarrow> y = x \<and> w' = w"
  by (auto simp: io_return_def)

lemma io_fail_eq [simp]: "io_fail e w \<noteq> (Ok y, w')"
  by (simp add: io_fail_def)

lemma dc_recv_eq_Ok:
  "dc_recv w = (Ok x, w') \<longleftrightarrow>
     (case inbox w of [] \<Rightarrow> x = None \<and> w' = w | m # ms \<Rightarrow> x = Some m \<and> w' = w\<lparr> inbox := ms \<rparr>)"
  by (auto simp: dc_recv_def split: list.splits)

lemmas io_Ok_iffs = io_bind_eq_Ok dc_send_eq_Ok io_map_err_eq_Ok io_of_eq_Ok io_return_eq dc_recv_eq_Ok

lemma receive_nonce_eq_Ok:
  "receive_nonce L C w = (Ok n, w') \<longleftrightarrow>
     (\<exists>msg ms s. inbox w = msg # ms \<and> is_string msg \<and> de_nonce C (data msg) = Some s \<and>
        base64_decode L s = Some n \<and> validate_nonce n \<and> w' = w\<lparr> inbox := ms \<rparr>)"
  by (cases "inbox w") (auto simp: receive_nonce_def io_Ok_iffs split: if_split_asm option.split_asm)

lemma send_nonce_eq_Ok:
  "send_nonce L C n w = (Ok u, w') \<longleftrightarrow>
     dc_send (text_message (ser_nonce C (encode L n))) w = (Ok (), w')"
  by (simp add: send_nonce_def io_map_err_eq_Ok)

lemma nonce_exchange_ok [io_simps]:
  assumes "codec_ok C" "base64_engine (base64_encode L) (base64_decode L)" "fault_free w" "validate_nonce n"
    and "inbox w = text_message (ser_nonce C (encode L n)) # ms"
  shows "sender_nonce_exchange L C rng w =
      (Ok (generate_nonce rng @ n),
       w\<lparr> inbox := ms, outbox := outbox w @ [text_message (ser_nonce C (encode L (generate_nonce rng)))],
          dc_sends := Suc (dc_sends w) \<rparr>)"
    "receiver_nonce_exchange L C rng w =
      (Ok (n @ generate_nonce rng),
       w\<lparr> inbox := ms, outbox := outbox w @ [text_message (ser_nonce C (encode L (generate_nonce rng)))],
          dc_sends := Suc (dc_sends w) \<rparr>)"
  using assms base64_engine.dec_enc [OF assms(2)]
  by (simp_all add: sender_nonce_exchange_def receiver_nonce_exchange_def Let_def io_bind_def send_nonce_def
      receive_nonce_def io_map_err_def io_simps io_return_def encode_def)

lemma sender_token_exchange_Ok:
  assumes "sender_token_exchange L C sk expecting nonce w = (Ok (token, response), w')"
  shows "response = TokenOk token \<or> response = TokenPinRequired token"
    and "expecting = Some key \<Longrightarrow> verify_token_nonce L key token nonce = Ok True"
  using assms
  by (cases "inbox w"; auto simp: sender_token_exchange_def io_Ok_iffs Let_def
      split: option.split_asm if_split_asm rtc_token_response.split_asm)+

lemma receiver_token_exchange_Ok:
  assumes "receiver_token_exchange L C sk (Some key) pin_cfg nonce w = (Ok token, w')"
  shows "verify_token_nonce L key token nonce = Ok True"
  using assms
  by (cases "inbox w")
    (auto simp: receiver_token_exchange_def io_Ok_iffs split: option.split_asm if_split_asm)

section \<open>Facts on the PIN check\<close>

lemma verify_pin_loop_match:
  "remote_pin = pin cfg \<Longrightarrow> verify_pin_loop C cfg send_result notice remote_pin pin_try w = (Ok (), w)"
  by (simp add: verify_pin_loop.simps)

lemma verify_pin_loop_over:
  "remote_pin \<noteq> pin cfg \<Longrightarrow> pin_try \<ge> max_tries cfg \<Longrightarrow>
   verify_pin_loop C cfg send_result notice remote_pin pin_try w =
     io_bind (io_ignore (send_result VerifyTooManyAttempts)) (\<lambda>_.
     io_bind (send_status TooManyAttempts) (\<lambda>_. io_fail (Anyhow ''Too many requests''))) w"
  by (simp add: verify_pin_loop.simps)

lemma verify_pin_loop_try:
  assumes "remote_pin \<noteq> pin cfg" "pin_try < max_tries cfg"
  shows "verify_pin_loop C cfg send_result notice remote_pin pin_try w =
     io_bind (if notice \<or> pin_try > 0 then send_result VerifyPinRequired else io_return ()) (\<lambda>_.
     io_bind dc_recv (\<lambda>m.
     case m of
       None \<Rightarrow> io_fail (Anyhow ''Failed to receive pin'')
     | Some msg \<Rightarrow>
         (case de_pin C (data msg) of
            None \<Rightarrow> io_fail (Lib ''serde_json'')
          | Some p \<Rightarrow> verify_pin_loop C cfg send_result False p (pin_try + 1)))) w"
proof -
  have "\<not> max_tries cfg \<le> pin_try" using assms(2) by simp
  with assms(1) show ?thesis
    by (subst verify_pin_loop.simps)
      (auto simp: io_bind_def io_return_def io_fail_def dc_recv_def
        split: prod.splits res.splits list.splits option.splits)
qed

text \<open>A try either fails or goes on with the PIN of the next message.\<close>

lemma verify_pin_loop_step:
  assumes keep: "\<And>r v. inbox (snd (send_result r v)) = inbox v"
    and go: "remote_pin \<noteq> pin cfg" "pin_try < max_tries cfg"
  shows "(fst (verify_pin_loop C cfg send_result notice remote_pin pin_try w) \<noteq> Ok () \<and>
          (\<exists>k \<le> 1. inbox (snd (verify_pin_loop C cfg send_result notice remote_pin pin_try w)) = drop k (inbox w))) \<or>
         (\<exists>m p w2. inbox w = m # inbox w2 \<and> de_pin C (data m) = Some p \<and>
            verify_pin_loop C cfg send_result notice remote_pin pin_try w =
            verify_pin_loop C cfg send_result False p (pin_try + 1) w2)"
proof -
  let ?notify = "if notice \<or> pin_try > 0 then send_result VerifyPinRequired else io_return ()"
  obtain r w1 where n: "?notify w = (r, w1)" by fastforce
  have i1: "inbox w1 = inbox w"
    using n keep [of VerifyPinRequired w] by (auto simp: io_return_def split: if_splits)
  have drop0: "\<exists>k \<le> 1. inbox w = drop k (inbox w)" by (rule exI [of _ 0]) simp
  show ?thesis
  proof (cases "\<exists>u. r = Ok u")
    case False
    then have "fst (io_bind ?notify f w) \<noteq> Ok () \<and> snd (io_bind ?notify f w) = w1" for f
      using n by (cases r) (simp_all add: io_bind_def)
    with drop0 i1 show ?thesis unfolding verify_pin_loop_try [OF go] by metis
  next
    case True
    then have b: "io_bind ?notify f w = f () w1" for f using n by (auto simp: io_bind_def)
    note loop = verify_pin_loop_try [OF go, of C send_result notice w, unfolded b]
    show ?thesis
    proof (cases "inbox w")
      case Nil
      then show ?thesis
        using i1 by (simp add: loop io_bind_def dc_recv_def io_fail_def exI [of _ 0])
    next
      case (Cons m ms)
      then have rec: "dc_recv w1 = (Ok (Some m), w1\<lparr> inbox := ms \<rparr>)"
        by (simp add: dc_recv_def i1)
      show ?thesis
      proof (cases "de_pin C (data m)")
        case None
        then show ?thesis
          by (simp add: loop io_bind_def rec io_fail_def Cons exI [of _ "Suc 0"])
      next
        case (Some p)
        then have "verify_pin_loop C cfg send_result notice remote_pin pin_try w =
            verify_pin_loop C cfg send_result False p (pin_try + 1) (w1\<lparr> inbox := ms \<rparr>)"
          by (simp add: loop io_bind_def rec)
        with Some Cons show ?thesis by (intro disjI2 exI [of _ m] exI [of _ p] exI [of _ "w1\<lparr> inbox := ms \<rparr>"]) simp
      qed
    qed
  qed
qed

lemma tries_left_Suc:
  "pin_try < max_tries cfg \<Longrightarrow>
   unat (max_tries cfg) - unat pin_try = Suc (unat (max_tries cfg) - unat (pin_try + 1))"
  using unat_Suc_if_less [of pin_try "max_tries cfg"] by (simp add: word_less_nat_alt)

text \<open>For every peer: at most the remaining tries are read, and success means one carried the PIN.\<close>

lemma verify_pin_loop_reads:
  assumes keep: "\<And>r v. inbox (snd (send_result r v)) = inbox v"
    and "n = unat (max_tries cfg) - unat pin_try"
  shows "\<exists>k \<le> n. inbox (snd (verify_pin_loop C cfg send_result notice remote_pin pin_try w)) = drop k (inbox w)"
  using assms(2)
proof (induction n arbitrary: pin_try notice remote_pin w)
  case 0
  then have "pin_try \<ge> max_tries cfg" by (simp add: word_le_nat_alt)
  then have "inbox (snd (verify_pin_loop C cfg send_result notice remote_pin pin_try w)) = inbox w"
    using keep [of VerifyTooManyAttempts w]
    by (cases "remote_pin = pin cfg")
      (auto simp: verify_pin_loop_match verify_pin_loop_over io_bind_def io_ignore_def send_status_def io_fail_def)
  then show ?case by simp
next
  case (Suc n)
  then have go: "pin_try < max_tries cfg" by (simp add: word_less_nat_alt)
  show ?case
  proof (cases "remote_pin = pin cfg")
    case True
    then show ?thesis by (simp add: verify_pin_loop_match exI [of _ 0])
  next
    case False
    from verify_pin_loop_step [where send_result = send_result and C = C and notice = notice and w = w, OF keep False go] show ?thesis
    proof (elim disjE exE conjE)
      fix m p w2
      assume e: "inbox w = m # inbox w2" and l: "verify_pin_loop C cfg send_result notice remote_pin pin_try w =
          verify_pin_loop C cfg send_result False p (pin_try + 1) w2"
      from Suc.IH [of "pin_try + 1" False p w2] Suc.prems tries_left_Suc [OF go]
      obtain k where "k \<le> n" "inbox (snd (verify_pin_loop C cfg send_result False p (pin_try + 1) w2)) = drop k (inbox w2)"
        by auto
      then show ?thesis by (intro exI [of _ "Suc k"]) (simp add: e l)
    qed (metis One_nat_def le_trans Suc_le_mono zero_le)
  qed
qed

lemma verify_pin_loop_sound:
  assumes keep: "\<And>r v. inbox (snd (send_result r v)) = inbox v"
    and "n = unat (max_tries cfg) - unat pin_try"
    and "fst (verify_pin_loop C cfg send_result notice remote_pin pin_try w) = Ok ()"
  shows "remote_pin = pin cfg \<or> (\<exists>m \<in> set (take n (inbox w)). de_pin C (data m) = Some (pin cfg))"
  using assms(2,3)
proof (induction n arbitrary: pin_try notice remote_pin w)
  case 0
  then have "pin_try \<ge> max_tries cfg" by (simp add: word_le_nat_alt)
  with "0.prems"(2) show ?case
    by (cases "remote_pin = pin cfg")
      (auto simp: verify_pin_loop_over io_bind_def io_ignore_def send_status_def io_fail_def split: if_splits)
next
  case (Suc n)
  then have go: "pin_try < max_tries cfg" by (simp add: word_less_nat_alt)
  show ?case
  proof (cases "remote_pin = pin cfg")
    case False
    from verify_pin_loop_step [where send_result = send_result and C = C and notice = notice and w = w, OF keep False go] Suc.prems(2) show ?thesis
    proof (elim disjE exE conjE)
      fix m p w2
      assume e: "inbox w = m # inbox w2" "de_pin C (data m) = Some p"
        and l: "verify_pin_loop C cfg send_result notice remote_pin pin_try w =
          verify_pin_loop C cfg send_result False p (pin_try + 1) w2"
      from Suc.IH [of "pin_try + 1" False p w2] Suc.prems tries_left_Suc [OF go] e l
      show ?thesis by auto
    qed simp
  qed simp
qed

text \<open>The two callbacks of the crate.\<close>

lemma quiet_sender_result: "quiet_result (sender_send_pin_result C)"
  by (simp add: quiet_result_def sender_send_pin_result_def io_bind_def send_string_in_chunks_ok
      send_delimiter_def io_simps)

lemma quiet_receiver_result: "quiet_result (receiver_send_pin_result C)"
  by (simp add: quiet_result_def receiver_send_pin_result_def io_simps)

lemma inbox_dc_send [simp]: "inbox (snd (dc_send m w)) = inbox w"
  by (simp add: dc_send_def split: option.splits)

lemma inbox_run_each: "inbox (snd (run_each send_chunk cs w)) = inbox w"
proof (induction cs arbitrary: w)
  case (Cons c cs)
  obtain r w' where e: "send_chunk c w = (r, w')" by fastforce
  then have "inbox w' = inbox w" using inbox_dc_send [of "binary_message c" w] by (simp add: send_chunk_def)
  with Cons [of w'] e show ?case by (cases r) simp_all
qed simp

lemma inbox_receiver_result: "inbox (snd (receiver_send_pin_result C r w)) = inbox w"
  by (simp add: receiver_send_pin_result_def)

lemma inbox_sender_result: "inbox (snd (sender_send_pin_result C r w)) = inbox w"
proof -
  have "inbox (snd (io_bind (send_string_in_chunks send_chunk b) (\<lambda>_. send_delimiter) w)) = inbox w" for b
    using inbox_run_each [of "chunks_of CHUNK_SIZE b" w]
    by (auto simp: io_bind_def send_string_in_chunks_def process_in_chunks_eq send_delimiter_def
        split: prod.splits res.splits)
  then show ?thesis by (simp add: sender_send_pin_result_def)
qed

text \<open>The exact result against a peer that sends the PINs \<open>gs\<close>.\<close>

lemma verify_pin_loop_outcome:
  assumes quiet: "quiet_result send_result" and C: "codec_ok C"
    and "n = unat (max_tries cfg) - unat pin_try" "fault_free w" "inbox w = map (pin_message C) gs"
  shows "fst (verify_pin_loop C cfg send_result notice remote_pin pin_try w) =
     (if pin cfg \<in> set (remote_pin # take n gs) then Ok ()
      else if length gs < n then Err (Anyhow ''Failed to receive pin'')
      else Err (Anyhow ''Too many requests''))"
  using assms(3-)
proof (induction n arbitrary: pin_try notice remote_pin w gs)
  case 0
  then have over: "pin_try \<ge> max_tries cfg" by (simp add: word_le_nat_alt)
  obtain w1 where "send_result VerifyTooManyAttempts w = (Ok (), w1)" "fault_free w1"
    using quiet "0.prems" by (auto simp: quiet_result_def)
  with over show ?case
    by (cases "remote_pin = pin cfg")
      (simp_all add: verify_pin_loop_match verify_pin_loop_over io_bind_def io_ignore_def io_simps io_fail_def)
next
  case (Suc n)
  then have go: "pin_try < max_tries cfg" by (simp add: word_less_nat_alt)
  let ?notify = "if notice \<or> pin_try > 0 then send_result VerifyPinRequired else io_return ()"
  obtain w1 where w1: "?notify w = (Ok (), w1)" "fault_free w1" "inbox w1 = map (pin_message C) gs"
  proof (cases "notice \<or> 0 < pin_try")
    case True
    moreover obtain v where "send_result VerifyPinRequired w = (Ok (), v)" "fault_free v" "inbox v = inbox w"
      using quiet Suc.prems(2) by (auto simp: quiet_result_def)
    ultimately show ?thesis using that [of v] Suc.prems(3) by simp
  qed (use that [of w] Suc.prems in \<open>simp add: io_return_def\<close>)
  have b: "io_bind ?notify f w = f () w1" for f using w1(1) by (simp only: io_bind_def) simp
  note loop = verify_pin_loop_try [OF _ go, of remote_pin C send_result notice w, unfolded b]
  show ?case
  proof (cases "remote_pin = pin cfg")
    case False
    show ?thesis
    proof (cases gs)
      case Nil
      with False w1 show ?thesis by (simp add: loop io_bind_def dc_recv_def io_fail_def)
    next
      case (Cons g gs')
      with False w1 C have "verify_pin_loop C cfg send_result notice remote_pin pin_try w =
          verify_pin_loop C cfg send_result False g (pin_try + 1) (w1\<lparr> inbox := map (pin_message C) gs' \<rparr>)"
        by (simp add: loop io_bind_def dc_recv_def pin_message_def)
      moreover have "n = unat (max_tries cfg) - unat (pin_try + 1)"
        using Suc.prems(1) tries_left_Suc [OF go] by simp
      ultimately show ?thesis using Suc.IH [of "pin_try + 1" "w1\<lparr> inbox := map (pin_message C) gs' \<rparr>" gs'] w1 Cons False
        by simp
    qed
  qed (simp add: verify_pin_loop_match)
qed

text \<open>A full dialogue between the two ends of a PIN challenge that ends with the right PIN.\<close>

lemma verifier_dialogue:
  assumes "codec_ok C" "fault_free w" "pin cfg \<notin> set (remote_pin # bad)"
    and "length bad < unat (max_tries cfg) - unat pin_try"
    and "inbox w = map (pin_message C) (bad @ [pin cfg]) @ later"
    and "k = length bad + (if pin_try > 0 then 1 else 0)"
  shows "verify_pin_loop C cfg (receiver_send_pin_result C) False remote_pin pin_try w =
     (Ok (), w\<lparr> inbox := later,
               outbox := outbox w @ replicate k (text_message (ser_pin_receiving C PinReceivingPinRequired)),
               dc_sends := dc_sends w + k \<rparr>)"
  using assms
proof (induction bad arbitrary: w remote_pin pin_try k)
  case Nil
  then have go: "remote_pin \<noteq> pin cfg" "pin_try < max_tries cfg" by (auto simp: word_less_nat_alt)
  from Nil show ?case
    by (auto simp: verify_pin_loop_try [OF go] io_bind_def receiver_send_pin_result_def io_simps io_return_def
        verify_pin_loop_match)
next
  case (Cons g bad)
  then have go: "remote_pin \<noteq> pin cfg" "pin_try < max_tries cfg" by (auto simp: word_less_nat_alt)
  let ?k = "if pin_try > 0 then 1 else 0 :: nat"
  let ?w = "w\<lparr> outbox := outbox w @ replicate ?k (text_message (ser_pin_receiving C PinReceivingPinRequired)),
      dc_sends := dc_sends w + ?k, inbox := map (pin_message C) (bad @ [pin cfg]) @ later \<rparr>"
  have "verify_pin_loop C cfg (receiver_send_pin_result C) False remote_pin pin_try w =
      verify_pin_loop C cfg (receiver_send_pin_result C) False g (pin_try + 1) ?w"
    using Cons.prems
    by (auto simp: verify_pin_loop_try [OF go] io_bind_def receiver_send_pin_result_def io_simps io_return_def)
  moreover have "pin_try + 1 > 0"
    using unat_Suc_if_less [OF go(2)] by (simp add: word_less_nat_alt)
  ultimately show ?case
    using Cons.IH [of ?w g "pin_try + 1" "Suc (length bad)"] Cons.prems tries_left_Suc [OF go(2)]
    by (auto simp: replicate_app_Cons_same)
qed

lemma prover_dialogue:
  assumes "codec_ok C" "fault_free w"
    and "inbox w = replicate (length bad) (text_message (ser_pin_receiving C PinReceivingPinRequired)) @
           text_message (ser_pin_receiving C PinReceivingOk) # later"
  shows "handle_pin C False (sender_parse_pin_response C) (map Some (bad @ [p]) @ rest) w =
     (Ok (), w\<lparr> inbox := later, outbox := outbox w @ map (pin_message C) (bad @ [p]),
               dc_sends := dc_sends w + Suc (length bad),
               statuses := statuses w @ replicate (Suc (length bad)) PinRequired \<rparr>)"
  using assms
proof (induction bad arbitrary: w)
  case Nil
  then show ?case
    by (simp add: io_bind_def io_simps receive_pin_response_def sender_parse_pin_response_def io_return_def
        pin_message_def)
next
  case (Cons g bad)
  from Cons.prems Cons.IH show ?case
    by (simp add: io_bind_def io_simps receive_pin_response_def sender_parse_pin_response_def io_return_def
        pin_message_def)
qed

section \<open>Properties\<close>

text \<open>
  The two sides of a nonce exchange over the same channel end with the same bytes, the sender's
  nonce followed by the receiver's. This is what makes the tokens of the next phase verify.
\<close>

theorem nonce_agreement:
  assumes "codec_ok C" "base64_engine (base64_encode L) (base64_decode L)"
    and "sender_nonce_exchange L C rng_s ws = (Ok nonce_s, ws')" "outbox ws = []"
    and "receiver_nonce_exchange L C rng_r wr = (Ok nonce_r, wr')" "outbox wr = []"
    and "inbox wr = outbox ws' @ later_r" "inbox ws = outbox wr' @ later_s"
  shows "nonce_s = nonce_r \<and> nonce_s = generate_nonce rng_s @ generate_nonce rng_r"
proof -
  note dec = base64_engine.dec_enc [OF assms(2)]
  from assms(3,4) obtain n2 where s: "outbox ws' = [text_message (ser_nonce C (encode L (generate_nonce rng_s)))]"
    "nonce_s = generate_nonce rng_s @ n2" "receive_nonce L C (ws\<lparr> outbox := outbox ws', dc_sends := Suc (dc_sends ws) \<rparr>) = (Ok n2, ws')"
    by (auto simp: sender_nonce_exchange_def io_Ok_iffs Let_def send_nonce_eq_Ok receive_nonce_eq_Ok)
  from assms(5,6) obtain n1 where r: "outbox wr' = [text_message (ser_nonce C (encode L (generate_nonce rng_r)))]"
    "nonce_r = n1 @ generate_nonce rng_r" "\<exists>v. receive_nonce L C wr = (Ok n1, v)"
    by (auto simp: receiver_nonce_exchange_def io_Ok_iffs Let_def send_nonce_eq_Ok receive_nonce_eq_Ok)
  have "n1 = generate_nonce rng_s"
    using r(3) s(1) assms(1,7) dec by (auto simp: receive_nonce_eq_Ok encode_def)
  moreover have "n2 = generate_nonce rng_r"
    using s(3) r(1) assms(1,8) dec by (auto simp: receive_nonce_eq_Ok encode_def)
  ultimately show ?thesis using s(2) r(2) by simp
qed

theorem nonce_agreement_witness:
  "\<exists>ws ws' wr wr' n. sender_nonce_exchange demo_crypto plain_codec (demo_rng 1) ws = (Ok n, ws') \<and>
     receiver_nonce_exchange demo_crypto plain_codec (demo_rng 2) wr = (Ok n, wr') \<and>
     n = replicate 32 1 @ replicate 32 2"
proof -
  let ?m = "\<lambda>b. text_message (ser_nonce plain_codec (encode demo_crypto (generate_nonce (demo_rng b))))"
  have v: "validate_nonce (generate_nonce (demo_rng b))" for b
    by (simp add: validate_nonce_def generate_nonce_def demo_rng_def)
  note ok1 = nonce_exchange_ok(1) [OF codec_ok_plain demo_base64 fault_free_fresh v [of 2], where ms = "[]"]
  note ok2 = nonce_exchange_ok(2) [OF codec_ok_plain demo_base64 fault_free_fresh v [of 1], where ms = "[]"]
  have s: "sender_nonce_exchange demo_crypto plain_codec (demo_rng 1) (fresh_world [?m 2] []) =
      (Ok (generate_nonce (demo_rng 1) @ generate_nonce (demo_rng 2)),
       (fresh_world [] [])\<lparr> outbox := [?m 1], dc_sends := 1 \<rparr>)"
    by (subst ok1) (simp_all add: fresh_world_def)
  have r: "receiver_nonce_exchange demo_crypto plain_codec (demo_rng 2) (fresh_world [?m 1] []) =
      (Ok (generate_nonce (demo_rng 1) @ generate_nonce (demo_rng 2)),
       (fresh_world [] [])\<lparr> outbox := [?m 2], dc_sends := 1 \<rparr>)"
    by (subst ok2) (simp_all add: fresh_world_def)
  have "generate_nonce (demo_rng 1) @ generate_nonce (demo_rng 2) = replicate 32 1 @ replicate 32 2"
    using nonce_agreement [OF codec_ok_plain demo_base64 s _ r, of "[]" "[]"]
    by (simp add: fresh_world_def generate_nonce_def demo_rng_def)
  with s r show ?thesis by metis
qed

text \<open>
  C26: whatever the peer sends, a PIN check reads at most \<open>max_tries\<close> messages, and it succeeds
  only if the PIN is empty or one of those messages carried it.
\<close>

theorem verify_pin_bounds_guessing:
  assumes "send_result = sender_send_pin_result C \<or> send_result = receiver_send_pin_result C"
    and "verify_pin C cfg notice send_result w = (r, w')"
  shows "(\<exists>k \<le> unat (max_tries cfg). inbox w' = drop k (inbox w)) \<and>
     (r = Ok () \<longrightarrow> pin cfg = [] \<or>
        (\<exists>m \<in> set (take (unat (max_tries cfg)) (inbox w)). de_pin C (data m) = Some (pin cfg)))"
proof -
  have keep: "inbox (snd (send_result q v)) = inbox v" for q v
    using assms(1) inbox_sender_result inbox_receiver_result by auto
  show ?thesis
  proof (cases "status_dropped w (length (statuses w))")
    case True
    with assms(2) show ?thesis by (auto simp: verify_pin_def io_bind_def send_status_def)
  next
    case False
    let ?w = "w\<lparr> statuses := statuses w @ [PinRequired] \<rparr>"
    from False assms(2) have run: "verify_pin_loop C cfg send_result notice [] 0 ?w = (r, w')"
      by (simp add: verify_pin_def io_bind_def send_status_def)
    have "\<exists>k \<le> unat (max_tries cfg). inbox w' = drop k (inbox w)"
      using verify_pin_loop_reads [where send_result = send_result and cfg = cfg and pin_try = 0
          and C = C and notice = notice and remote_pin = "[]" and w = ?w, OF keep refl]
      by (simp add: run)
    moreover have "pin cfg = [] \<or> (\<exists>m \<in> set (take (unat (max_tries cfg)) (inbox w)). de_pin C (data m) = Some (pin cfg))"
      if "r = Ok ()"
      using verify_pin_loop_sound [where send_result = send_result and cfg = cfg and pin_try = 0
          and C = C and notice = notice and remote_pin = "[]" and w = ?w, OF keep refl] that
      by (auto simp: run)
    ultimately show ?thesis by blast
  qed
qed

theorem verify_pin_bounds_guessing_witness:
  "fst (verify_pin plain_codec \<lparr> pin = ''7'', max_tries = 1 \<rparr> False (receiver_send_pin_result plain_codec)
          (fresh_world [pin_message plain_codec ''7''] [])) = Ok () \<and>
   (\<exists>m \<in> set (take 1 [pin_message plain_codec ''7'']). de_pin plain_codec (data m) = Some ''7'')"
proof -
  let ?run = "verify_pin plain_codec \<lparr> pin = ''7'', max_tries = 1 \<rparr> False (receiver_send_pin_result plain_codec)
          (fresh_world [pin_message plain_codec ''7''] [])"
  have "fst ?run = Ok ()" by code_simp
  with verify_pin_bounds_guessing [of "receiver_send_pin_result plain_codec" plain_codec
      "\<lparr> pin = ''7'', max_tries = 1 \<rparr>" False "fresh_world [pin_message plain_codec ''7''] []" "fst ?run" "snd ?run"]
  show ?thesis by (auto simp: fresh_world_def)
qed

text \<open>
  C27: against a peer that sends the PINs \<open>gs\<close> over a working channel, the check succeeds
  exactly if the PIN is empty or among the first \<open>max_tries\<close> of them, fails with \<open>Too many
  requests\<close> if all tries are used up, and otherwise with the end of the channel. The counter is
  an 8-bit word and never wraps, whatever \<open>max_tries\<close> is.
\<close>

theorem verify_pin_exact:
  assumes "codec_ok C" "fault_free w" "inbox w = map (pin_message C) gs"
    and "send_result = sender_send_pin_result C \<or> send_result = receiver_send_pin_result C"
  shows "fst (verify_pin C cfg notice send_result w) =
     (if pin cfg = [] \<or> pin cfg \<in> set (take (unat (max_tries cfg)) gs) then Ok ()
      else if length gs < unat (max_tries cfg) then Err (Anyhow ''Failed to receive pin'')
      else Err (Anyhow ''Too many requests''))"
proof -
  have "quiet_result send_result"
    using assms(4) quiet_sender_result quiet_receiver_result by auto
  from verify_pin_loop_outcome [where w = "w\<lparr> statuses := statuses w @ [PinRequired] \<rparr>" and gs = gs
      and cfg = cfg and pin_try = 0 and notice = notice and remote_pin = "[]", OF this assms(1) refl]
    assms(2,3)
  show ?thesis by (simp add: verify_pin_def io_bind_def io_simps eq_commute [of "[]"])
qed

theorem verify_pin_exact_witness:
  "fst (verify_pin plain_codec \<lparr> pin = ''42'', max_tries = 255 \<rparr> True (sender_send_pin_result plain_codec)
     (fresh_world (map (pin_message plain_codec) (replicate 254 ''41'' @ [''42''])) [])) = Ok ()"
  by (subst verify_pin_exact [OF codec_ok_plain fault_free_fresh, where gs = "replicate 254 ''41'' @ [''42'']"])
    (simp_all add: fresh_world_def)

text \<open>
  A PIN challenge between two peers over working channels: after \<open>bad\<close> wrong attempts, fewer
  than \<open>max_tries\<close>, the right PIN ends both loops successfully. Each side reads exactly what
  the other wrote.
\<close>

theorem pin_challenge_dialogue:
  assumes "codec_ok C" "fault_free wv" "fault_free wp" "outbox wv = []" "outbox wp = []"
    and "pin cfg \<noteq> []" "pin cfg \<notin> set bad" "length bad < unat (max_tries cfg)"
    and "inbox wv = map (pin_message C) (bad @ [pin cfg])"
    and "inbox wp = replicate (length bad) (text_message (ser_pin_receiving C PinReceivingPinRequired)) @
           [text_message (ser_pin_receiving C PinReceivingOk)]"
    and "io_bind (verify_pin C cfg False (receiver_send_pin_result C))
           (\<lambda>_. dc_send (text_message (ser_pin_receiving C PinReceivingOk))) wv = (rv, wv')"
    and "handle_pin C False (sender_parse_pin_response C) (map Some (bad @ [pin cfg])) wp = (rp, wp')"
  shows "rv = Ok () \<and> rp = Ok () \<and> outbox wv' = inbox wp \<and> outbox wp' = inbox wv \<and>
     inbox wv' = [] \<and> inbox wp' = []"
proof -
  have v: "verify_pin_loop C cfg (receiver_send_pin_result C) False [] 0 (wv\<lparr> statuses := statuses wv @ [PinRequired] \<rparr>) =
      (Ok (), wv\<lparr> statuses := statuses wv @ [PinRequired], inbox := [],
         outbox := replicate (length bad) (text_message (ser_pin_receiving C PinReceivingPinRequired)),
         dc_sends := dc_sends wv + length bad \<rparr>)"
    using verifier_dialogue [of C "wv\<lparr> statuses := statuses wv @ [PinRequired] \<rparr>" cfg "[]" bad 0 "[]" "length bad"] assms
    by (auto simp: eq_commute [of "[]"])
  have p: "handle_pin C False (sender_parse_pin_response C) (map Some (bad @ [pin cfg]) @ []) wp =
      (Ok (), wp\<lparr> inbox := [], outbox := map (pin_message C) (bad @ [pin cfg]),
               dc_sends := dc_sends wp + Suc (length bad),
               statuses := statuses wp @ replicate (Suc (length bad)) PinRequired \<rparr>)"
    using prover_dialogue [of C wp bad "[]" "pin cfg" "[]"] assms by simp
  show ?thesis
    using assms(2,9-12) v p by (auto simp: verify_pin_def io_bind_def io_simps)
qed

theorem pin_challenge_dialogue_witness:
  "\<exists>wv wp wv' wp'. io_bind (verify_pin plain_codec \<lparr> pin = ''7'', max_tries = 3 \<rparr> False (receiver_send_pin_result plain_codec))
       (\<lambda>_. dc_send (text_message (ser_pin_receiving plain_codec PinReceivingOk))) wv = (Ok (), wv') \<and>
     handle_pin plain_codec False (sender_parse_pin_response plain_codec) [Some ''5'', Some ''7''] wp = (Ok (), wp') \<and>
     outbox wv' = inbox wp \<and> outbox wp' = inbox wv"
proof -
  let ?C = plain_codec
  let ?wv = "fresh_world (map (pin_message ?C) [''5'', ''7'']) []"
  let ?wp = "fresh_world [text_message (ser_pin_receiving ?C PinReceivingPinRequired),
      text_message (ser_pin_receiving ?C PinReceivingOk)] []"
  let ?v = "io_bind (verify_pin ?C \<lparr> pin = ''7'', max_tries = 3 \<rparr> False (receiver_send_pin_result ?C))
       (\<lambda>_. dc_send (text_message (ser_pin_receiving ?C PinReceivingOk))) ?wv"
  let ?p = "handle_pin ?C False (sender_parse_pin_response ?C) (map Some ([''5''] @ [''7''])) ?wp"
  have "fst ?v = Ok () \<and> fst ?p = Ok () \<and> outbox (snd ?v) = inbox ?wp \<and> outbox (snd ?p) = inbox ?wv \<and>
      inbox (snd ?v) = [] \<and> inbox (snd ?p) = []"
    by (rule pin_challenge_dialogue [where C = ?C and cfg = "\<lparr> pin = ''7'', max_tries = 3 \<rparr>" and bad = "[''5'']"])
      (simp_all add: fresh_world_def fault_free_def)
  then show ?thesis
    by (intro exI [of _ ?wv] exI [of _ ?wp] exI [of _ "snd ?v"] exI [of _ "snd ?p"])
      (simp add: prod_eq_iff)
qed

end
