(* ===== verification/File_Transfer.thy ===== *)
theory File_Transfer
  imports Handshake
begin

text \<open>
  The second half of the two transfer tasks of \<open>core/src/webrtc/webrtc.rs\<close>: after the handshake
  of theory \<open>Handshake\<close>, the file list, pairing and selection, the files themselves, and the
  tasks as a whole. Theory \<open>Transfer_Runs\<close> lets the two run against each other.

  The facts: what a fault-free sender puts on the channel is exactly what the receiver's loop turns
  back into the files; data is stored only for files the user selected and whose token the header
  carried; the tasks end for every peer.
\<close>

section \<open>The sending task\<close>

fun error_text :: "error \<Rightarrow> string" where
  "error_text (Anyhow m) = m"
| "error_text (Lib m) = m"

text \<open>\<open>if let Err(e) = m { let _ = status_tx.try_send(st); return Err(e) }\<close>\<close>

definition io_report :: "rtc_status \<Rightarrow> unit io \<Rightarrow> unit io" where
  "io_report st m w =
     (case m w of
        (Err e, w1) \<Rightarrow> (Err e, snd (send_status st w1))
      | r \<Rightarrow> r)"

definition sender_pin_phase ::
  "rtc_codec \<Rightarrow> pin_config option \<Rightarrow> string option list \<Rightarrow> rtc_token_response \<Rightarrow> unit io" where
  "sender_pin_phase C pin_cfg pin_answers token_response =
     io_bind
       (case token_response of
          TokenPinRequired t \<Rightarrow> handle_pin C False (sender_parse_pin_response C) pin_answers
        | _ \<Rightarrow> io_return ()) (\<lambda>_.
     (case pin_cfg of
        None \<Rightarrow> io_return ()
      | Some p \<Rightarrow> verify_pin C p True (sender_send_pin_result C)))"

definition send_file_list :: "rtc_codec \<Rightarrow> file_dto list \<Rightarrow> unit io" where
  "send_file_list C files =
     io_bind (send_status Connected) (\<lambda>_.
     io_bind (io_report (StatusError ''Failed to send file list message'')
                (send_string_in_chunks send_chunk (ser_pin_sending C (PinSendingOk files)))) (\<lambda>_.
     io_report (StatusError ''Failed to send file list message'') send_delimiter))"

definition receive_file_list_response :: "rtc_codec \<Rightarrow> rtc_file_list_response io" where
  "receive_file_list_response C =
     io_bind receive_string_from_chunks (\<lambda>b.
     case de_file_list C b of
       None \<Rightarrow> io_fail (Anyhow ''Failed to deserialize file list response'')
     | Some r \<Rightarrow> io_return r)"

text \<open>What the user interface does with a pairing request.\<close>

datatype pair_reply = PairListenerGone | PairReplyDropped | PairReply bool

text \<open>
  The branches both \<open>match\<close>es share: \<open>Some\<close> the file tokens, \<open>None\<close> the early
  \<open>return Ok(())\<close> of a declined transfer.
\<close>

definition selection_declined :: "(string, string) hash_map option io" where
  "selection_declined = io_bind (io_ignore (send_status Declined)) (\<lambda>_. io_return None)"

definition selection_error :: "string \<Rightarrow> (string, string) hash_map option io" where
  "selection_error m =
     io_bind (io_ignore (send_status (StatusError m))) (\<lambda>_. io_fail (Anyhow m))"

definition pair_exchange ::
  "('sk, 'vk, 'rk) crypto_lib \<Rightarrow> rtc_codec \<Rightarrow> string \<Rightarrow> bytes \<Rightarrow> pair_reply \<Rightarrow> string \<Rightarrow> unit io" where
  "pair_exchange L C remote_token nonce reply public_key =
     io_bind (io_of (of_option (Anyhow ''Failed to extract signature identifier'')
                (extract_signature_identifier remote_token))) (\<lambda>signature_identifier.
     io_bind (io_of (parse_public_key L public_key signature_identifier)) (\<lambda>parsed_key.
     io_bind (io_of (verify_token_nonce L parsed_key remote_token nonce)) (\<lambda>valid.
     if \<not> valid then
       io_bind (dc_send (text_message (ser_pair C PairInvalidSignature)))
         (\<lambda>_. io_fail (Anyhow ''Invalid token signature or nonce''))
     else case reply of
         PairListenerGone \<Rightarrow> io_fail (Anyhow ''Failed to send pair response'')
       | PairReplyDropped \<Rightarrow> io_fail (Lib ''pair_res_rx'')
       | PairReply True \<Rightarrow> dc_send (text_message (ser_pair C (PairOk public_key)))
       | PairReply False \<Rightarrow> dc_send (text_message (ser_pair C PairDeclined)))))"

definition await_selection ::
  "('sk, 'vk, 'rk) crypto_lib \<Rightarrow> rtc_codec \<Rightarrow> string \<Rightarrow> bytes \<Rightarrow> pair_reply \<Rightarrow>
     (string, string) hash_map option io" where
  "await_selection L C remote_token nonce reply =
     io_bind (receive_file_list_response C) (\<lambda>file_list_res.
     case file_list_res of
       FileListOk files \<Rightarrow> io_return (Some files)
     | FileListPair public_key \<Rightarrow>
         io_bind (pair_exchange L C remote_token nonce reply public_key) (\<lambda>_.
         io_bind (receive_file_list_response C) (\<lambda>file_list_res'.
         case file_list_res' of
           FileListOk files \<Rightarrow> io_return (Some files)
         | FileListDeclined \<Rightarrow> selection_declined
         | FileListInvalidSignature \<Rightarrow> selection_error ''Invalid signature (not expected)''
         | FileListPair k \<Rightarrow> selection_error ''Unexpected pair response''))
     | FileListDeclined \<Rightarrow> selection_declined
     | FileListInvalidSignature \<Rightarrow> selection_error ''Invalid signature (not expected)'')"

text \<open>
  The error status of a failed publication is a future that is never awaited, so no status is
  recorded.
\<close>

definition publish_selection :: "bool \<Rightarrow> unit io" where
  "publish_selection selection_listener =
     (if selection_listener then io_return () else io_fail (Anyhow ''Could not publish selection''))"

definition send_file :: "rtc_codec \<Rightarrow> (string, string) hash_map \<Rightarrow> rtc_file \<Rightarrow> unit io" where
  "send_file C file_map message w =
     (case map_of file_map (rf_file_id message) of
        None \<Rightarrow> send_file_error (rf_file_id message) ''Failed to get file token'' w
      | Some file_token \<Rightarrow>
          (case dc_send (text_message (ser_header C
                   \<lparr> hdr_id = rf_file_id message, hdr_token = file_token \<rparr>)) w of
             (Err e, w1) \<Rightarrow> send_file_error (rf_file_id message) (error_text e) w1
           | (Panic p, w1) \<Rightarrow> (Panic p, w1)
           | (Ok u, w1) \<Rightarrow>
               (case process_in_chunks send_chunk (rf_binary message) w1 of
                  (Err e, w2) \<Rightarrow> send_file_error (rf_file_id message) (error_text e) w2
                | (Panic p, w2) \<Rightarrow> (Panic p, w2)
                | (Ok u, w2) \<Rightarrow> (Ok (), w2))))"

fun send_files :: "rtc_codec \<Rightarrow> (string, string) hash_map \<Rightarrow> rtc_file list \<Rightarrow> unit io" where
  "send_files C file_map [] = io_return ()"
| "send_files C file_map (f # fs) =
     io_bind (send_file C file_map f) (\<lambda>_. send_files C file_map fs)"

definition finish_sending :: "unit io" where
  "finish_sending = io_bind send_delimiter (\<lambda>_. io_bind dc_recv (\<lambda>_. io_return ()))"

text \<open>Everything the task captures, and what its user will answer.\<close>

record ('sk, 'vk, 'rk) send_config =
  sc_opened :: bool
  sc_signing_key :: 'sk
  sc_expecting_public_key :: "('vk, 'rk) verifying_token_key option"
  sc_pin :: "pin_config option"
  sc_files :: "file_dto list"
  sc_rng :: "nat \<Rightarrow> bytes"
  sc_pin_answers :: "string option list"
  sc_pair_reply :: pair_reply
  sc_selection_listener :: bool
  sc_sending :: "rtc_file list"

definition sender_handshake ::
  "('sk, 'vk, 'rk) crypto_lib \<Rightarrow> rtc_codec \<Rightarrow> ('sk, 'vk, 'rk) send_config \<Rightarrow> (bytes \<times> string) io" where
  "sender_handshake L C cfg =
     io_bind (sender_nonce_exchange L C (sc_rng cfg)) (\<lambda>nonce.
     io_bind (sender_token_exchange L C (sc_signing_key cfg) (sc_expecting_public_key cfg) nonce)
       (\<lambda>(remote_token, token_response).
     io_bind (sender_pin_phase C (sc_pin cfg) (sc_pin_answers cfg) token_response) (\<lambda>_.
     io_return (nonce, remote_token))))"

definition send_task ::
  "('sk, 'vk, 'rk) crypto_lib \<Rightarrow> rtc_codec \<Rightarrow> ('sk, 'vk, 'rk) send_config \<Rightarrow> unit io" where
  "send_task L C cfg =
     (if \<not> sc_opened cfg then io_fail (Anyhow ''Data channel not opened'')
      else
        io_bind (sender_handshake L C cfg) (\<lambda>(nonce, remote_token).
        io_bind (send_file_list C (sc_files cfg)) (\<lambda>_.
        io_bind (await_selection L C remote_token nonce (sc_pair_reply cfg)) (\<lambda>selection.
        case selection of
          None \<Rightarrow> io_return ()
        | Some file_map \<Rightarrow>
            io_bind (publish_selection (sc_selection_listener cfg)) (\<lambda>_.
            io_bind (send_files C file_map (sc_sending cfg)) (\<lambda>_.
            finish_sending))))))"

section \<open>The receiving task\<close>

definition receiver_pin_phase :: "rtc_codec \<Rightarrow> pin_config option \<Rightarrow> unit io" where
  "receiver_pin_phase C pin_cfg =
     (case pin_cfg of
        None \<Rightarrow> io_return ()
      | Some p \<Rightarrow>
          io_bind (verify_pin C p False (receiver_send_pin_result C)) (\<lambda>_.
          dc_send (text_message (ser_pin_receiving C PinReceivingOk))))"

definition await_file_list :: "rtc_codec \<Rightarrow> string option list \<Rightarrow> file_dto list io" where
  "await_file_list C pin_answers =
     io_bind receive_string_from_chunks (\<lambda>b.
     case de_pin_sending C b of
       None \<Rightarrow> io_fail (Anyhow ''Failed to deserialize file list response'')
     | Some (PinSendingOk files) \<Rightarrow> io_return files
     | Some PinSendingPinRequired \<Rightarrow>
         handle_pin C True (receiver_parse_pin_response C) pin_answers
     | Some PinSendingTooManyAttempts \<Rightarrow>
         io_bind (io_ignore (send_status (StatusError ''Unexpected TooManyAttempts response'')))
           (\<lambda>_. io_fail (Anyhow ''Unexpected TooManyAttempts response'')))"

text \<open>What the user does with the offered files: the \<open>HashSet\<close> is a list without its order.\<close>

datatype user_selection = SelectionDropped | SelectionDeclined | SelectedFiles "string list"

definition file_tokens_of :: "(nat \<Rightarrow> string) \<Rightarrow> string list \<Rightarrow> (string, string) hash_map" where
  "file_tokens_of new_v4 selected_files =
     map (\<lambda>(i, file_id). (file_id, new_v4 i)) (enumerate 0 (remdups selected_files))"

definition answer_file_list ::
  "rtc_codec \<Rightarrow> bool \<Rightarrow> (file_dto list \<Rightarrow> user_selection) \<Rightarrow> (nat \<Rightarrow> string) \<Rightarrow> file_dto list \<Rightarrow>
     (string, string) hash_map option io" where
  "answer_file_list C files_listener user_choice new_v4 file_list =
     io_bind (send_status Connected) (\<lambda>_.
     if \<not> files_listener then io_fail (Anyhow ''Failed to send file list'')
     else case user_choice file_list of
         SelectionDropped \<Rightarrow> io_return None
       | SelectionDeclined \<Rightarrow>
           io_bind (send_string_in_chunks send_chunk (ser_file_list C FileListDeclined)) (\<lambda>_.
           io_bind send_delimiter (\<lambda>_. io_return None))
       | SelectedFiles selected \<Rightarrow>
           (let file_tokens = file_tokens_of new_v4 selected in
            io_bind (send_string_in_chunks send_chunk (ser_file_list C (FileListOk file_tokens))) (\<lambda>_.
            io_bind send_delimiter (\<lambda>_. io_return (Some file_tokens)))))"

text \<open>\<open>user_error_tx.recv()\<close> and the response made of it.\<close>

definition file_response :: "string \<Rightarrow> rtc_send_file_response io" where
  "file_response last_file_id w =
     (let response = (\<lambda>e. \<lparr> fr_id = last_file_id, fr_success = (e = None), fr_error = e \<rparr>) in
      case file_results w of
        [] \<Rightarrow> (Ok (response (Some ''Failed to receive file result'')), w)
      | result # rs \<Rightarrow>
          (Ok (response (if fr_success result then None
                else Some (case fr_error result of None \<Rightarrow> ''Unknown error'' | Some e \<Rightarrow> e))),
           w\<lparr> file_results := rs \<rparr>))"

text \<open>The header of the next file: the new \<open>file_state\<close>, \<open>None\<close> after a \<open>continue\<close>.\<close>

definition open_file ::
  "rtc_codec \<Rightarrow> (string, string) hash_map \<Rightarrow> file_dto list \<Rightarrow> bytes \<Rightarrow> rtc_file_state option io" where
  "open_file C file_tokens file_list msg_data w =
     (case de_header C msg_data of
        None \<Rightarrow> (Err (Lib ''serde_json''), w)
      | Some header \<Rightarrow>
          (case map_of file_tokens (hdr_id header) of
             None \<Rightarrow> io_bind (send_file_error (hdr_id header) ''File not found'') (\<lambda>_. io_return None) w
           | Some entry \<Rightarrow>
               if hdr_token header \<noteq> entry then
                 io_bind (send_file_error (hdr_id header) ''Invalid token'') (\<lambda>_. io_return None) w
               else (case find (\<lambda>f. file_dto_id f = hdr_id header) file_list of
                   None \<Rightarrow> io_bind (send_file_error (hdr_id header) ''Expected size to be available'')
                             (\<lambda>_. io_return None) w
                 | Some f \<Rightarrow>
                     (Ok (Some \<lparr> fs_file_id = hdr_id header, fs_size = file_size f \<rparr>),
                      w\<lparr> received := received w @ [(hdr_id header, [])] \<rparr>))))"

text \<open>\<open>binary_tx.send\<close>: the data goes to the file announced last.\<close>

definition store_chunk :: "rtc_file_state \<Rightarrow> bytes \<Rightarrow> unit io" where
  "store_chunk state d w =
     (if sink_dropped w (fs_file_id state) then (Err (Lib ''binary_tx''), w)
      else (Ok (), w\<lparr> received := butlast (received w) @
              [(fst (last (received w)), snd (last (received w)) @ [d])] \<rparr>))"

text \<open>One message: the next \<open>file_state\<close>, or \<open>None\<close> to leave the loop.\<close>

definition receive_step ::
  "rtc_codec \<Rightarrow> (string, string) hash_map \<Rightarrow> file_dto list \<Rightarrow> rtc_file_state option \<Rightarrow> dc_message \<Rightarrow>
     rtc_file_state option option io" where
  "receive_step C file_tokens file_list file_state msg =
     (if is_string msg then
        io_bind
          (case file_state of
             None \<Rightarrow> io_return False
           | Some s \<Rightarrow>
               io_bind (file_response (fs_file_id s)) (\<lambda>r.
               io_bind (dc_send (text_message (ser_file_response C r))) (\<lambda>_.
               io_return (is_delimiter msg)))) (\<lambda>end_of_all.
        if end_of_all then io_return None
        else io_bind (open_file C file_tokens file_list (data msg)) (\<lambda>s. io_return (Some s)))
      else
        (case file_state of
           Some s \<Rightarrow> io_bind (store_chunk s (data msg)) (\<lambda>_. io_return (Some (Some s)))
         | None \<Rightarrow>
             io_bind (send_file_error ''unknown'' ''Received binary data without a header'')
               (\<lambda>_. io_return (Some None))))"

fun receive_messages ::
  "rtc_codec \<Rightarrow> (string, string) hash_map \<Rightarrow> file_dto list \<Rightarrow> rtc_file_state option \<Rightarrow>
     dc_message list \<Rightarrow> unit io" where
  "receive_messages C file_tokens file_list file_state [] w = (Ok (), w)"
| "receive_messages C file_tokens file_list file_state (msg # ms) w =
     (case receive_step C file_tokens file_list file_state msg (w\<lparr> inbox := ms \<rparr>) of
        (Ok None, w1) \<Rightarrow> (Ok (), w1)
      | (Ok (Some file_state'), w1) \<Rightarrow> receive_messages C file_tokens file_list file_state' ms w1
      | (Err e, w1) \<Rightarrow> (Err e, w1)
      | (Panic p, w1) \<Rightarrow> (Panic p, w1))"

definition receive_loop ::
  "rtc_codec \<Rightarrow> (string, string) hash_map \<Rightarrow> file_dto list \<Rightarrow> unit io" where
  "receive_loop C file_tokens file_list w =
     receive_messages C file_tokens file_list None (inbox w) w"

record ('sk, 'vk, 'rk) receive_config =
  rc_opened :: bool
  rc_signing_key :: 'sk
  rc_expecting_public_key :: "('vk, 'rk) verifying_token_key option"
  rc_pin :: "pin_config option"
  rc_rng :: "nat \<Rightarrow> bytes"
  rc_pin_answers :: "string option list"
  rc_files_listener :: bool
  rc_choose :: "file_dto list \<Rightarrow> user_selection"
  rc_new_v4 :: "nat \<Rightarrow> string"

definition receiver_handshake ::
  "('sk, 'vk, 'rk) crypto_lib \<Rightarrow> rtc_codec \<Rightarrow> ('sk, 'vk, 'rk) receive_config \<Rightarrow> unit io" where
  "receiver_handshake L C cfg =
     io_bind (receiver_nonce_exchange L C (rc_rng cfg)) (\<lambda>nonce.
     io_bind (receiver_token_exchange L C (rc_signing_key cfg) (rc_expecting_public_key cfg)
                (rc_pin cfg) nonce) (\<lambda>remote_token.
     receiver_pin_phase C (rc_pin cfg)))"

definition receive_task ::
  "('sk, 'vk, 'rk) crypto_lib \<Rightarrow> rtc_codec \<Rightarrow> ('sk, 'vk, 'rk) receive_config \<Rightarrow> unit io" where
  "receive_task L C cfg =
     (if \<not> rc_opened cfg then io_fail (Anyhow ''Data channel not found'')
      else
        io_bind (receiver_handshake L C cfg) (\<lambda>_.
        io_bind (await_file_list C (rc_pin_answers cfg)) (\<lambda>file_list.
        io_bind (answer_file_list C (rc_files_listener cfg) (rc_choose cfg) (rc_new_v4 cfg) file_list)
          (\<lambda>selection.
        case selection of
          None \<Rightarrow> io_return ()
        | Some file_tokens \<Rightarrow> receive_loop C file_tokens file_list))))"

section \<open>Specification vocabulary\<close>

text \<open>What a file looks like on the channel, and the answer to a file that was stored.\<close>

definition file_wire :: "rtc_codec \<Rightarrow> (string, string) hash_map \<Rightarrow> rtc_file \<Rightarrow> dc_message list" where
  "file_wire C file_map f =
     text_message (ser_header C \<lparr> hdr_id = rf_file_id f, hdr_token = the (map_of file_map (rf_file_id f)) \<rparr>) #
     map binary_message (chunks_of CHUNK_SIZE (concat (rf_binary f)))"

definition delimiter :: dc_message where
  "delimiter = text_message (as_bytes ''0'')"

definition success_response :: "rtc_codec \<Rightarrow> string \<Rightarrow> dc_message" where
  "success_response C i =
     text_message (ser_file_response C \<lparr> fr_id = i, fr_success = True, fr_error = None \<rparr>)"

definition stored_file :: "rtc_file \<Rightarrow> string \<times> bytes list" where
  "stored_file f = (rf_file_id f, chunks_of CHUNK_SIZE (concat (rf_binary f)))"

text \<open>The files a sender is asked for: selected by the receiver and offered in the list.\<close>

definition transferable :: "(string, string) hash_map \<Rightarrow> file_dto list \<Rightarrow> rtc_file \<Rightarrow> bool" where
  "transferable file_tokens file_list f \<longleftrightarrow>
     map_of file_tokens (rf_file_id f) \<noteq> None \<and> rf_file_id f \<in> file_dto_id ` set file_list"

text \<open>A stored file is justified by a header with its token, and its data came in binary messages.\<close>

definition justified ::
  "rtc_codec \<Rightarrow> (string, string) hash_map \<Rightarrow> file_dto list \<Rightarrow> dc_message list \<Rightarrow> string \<times> bytes list \<Rightarrow> bool" where
  "justified C file_tokens file_list msgs entry \<longleftrightarrow>
     (\<exists>m \<in> set msgs. \<exists>h. is_string m \<and> de_header C (data m) = Some h \<and> hdr_id h = fst entry \<and>
        map_of file_tokens (fst entry) = Some (hdr_token h)) \<and>
     fst entry \<in> file_dto_id ` set file_list \<and>
     (\<forall>c \<in> set (snd entry). \<exists>m \<in> set msgs. \<not> is_string m \<and> data m = c)"

text \<open>
  The peer's first two messages prove its identity: a nonce, and a token that verifies under the
  expected key against both nonces.
\<close>

definition receiver_identified ::
  "('sk, 'vk, 'rk) crypto_lib \<Rightarrow> rtc_codec \<Rightarrow> ('vk, 'rk) verifying_token_key \<Rightarrow> bytes \<Rightarrow> dc_message list \<Rightarrow> bool" where
  "receiver_identified L C key local_nonce msgs \<longleftrightarrow>
     (\<exists>m1 m2 rest s remote_nonce token. msgs = m1 # m2 # rest \<and>
        de_nonce C (data m1) = Some s \<and> base64_decode L s = Some remote_nonce \<and>
        (de_token_response C (data m2) = Some (TokenOk token) \<or>
         de_token_response C (data m2) = Some (TokenPinRequired token)) \<and>
        verify_token_nonce L key token (local_nonce @ remote_nonce) = Ok True)"

definition sender_identified ::
  "('sk, 'vk, 'rk) crypto_lib \<Rightarrow> rtc_codec \<Rightarrow> ('vk, 'rk) verifying_token_key \<Rightarrow> bytes \<Rightarrow> dc_message list \<Rightarrow> bool" where
  "sender_identified L C key local_nonce msgs \<longleftrightarrow>
     (\<exists>m1 m2 rest s remote_nonce token. msgs = m1 # m2 # rest \<and>
        de_nonce C (data m1) = Some s \<and> base64_decode L s = Some remote_nonce \<and>
        de_token_request C (data m2) = Some token \<and>
        verify_token_nonce L key token (remote_nonce @ local_nonce) = Ok True)"

definition pin_received :: "rtc_codec \<Rightarrow> pin_config \<Rightarrow> dc_message list \<Rightarrow> bool" where
  "pin_received C p msgs \<longleftrightarrow> pin p = [] \<or> (\<exists>m \<in> set msgs. de_pin C (data m) = Some (pin p))"

text \<open>A string on the channel, and the first message of a peer.\<close>

definition chunked :: "bytes \<Rightarrow> dc_message list" where
  "chunked b = map binary_message (chunks_of CHUNK_SIZE b) @ [delimiter]"

definition nonce_message :: "('sk, 'vk, 'rk) crypto_lib \<Rightarrow> rtc_codec \<Rightarrow> (nat \<Rightarrow> bytes) \<Rightarrow> dc_message" where
  "nonce_message L C rng = text_message (ser_nonce C (encode L (generate_nonce rng)))"

definition accepts_key ::
  "('sk, 'vk, 'rk) crypto_lib \<Rightarrow> ('vk, 'rk) verifying_token_key option \<Rightarrow> 'sk \<Rightarrow> bool" where
  "accepts_key L expecting sk \<longleftrightarrow> (\<forall>key. expecting = Some key \<longrightarrow> key = to_verifying_key L sk)"

text \<open>Two concrete peers: each expects the other's key, two files are offered, one is sent.\<close>

definition demo_file :: "string \<Rightarrow> u64 \<Rightarrow> file_dto" where
  "demo_file i n =
     \<lparr> file_dto_id = i, file_name = i, file_size = n, file_type = ''text/plain'', file_sha256 = None,
       file_preview = None, file_dto_metadata = None \<rparr>"

definition demo_sender :: "(bytes, bytes, bytes) send_config" where
  "demo_sender =
     \<lparr> sc_opened = True, sc_signing_key = [1],
       sc_expecting_public_key = Some (Ed25519VerifyingKey [2]), sc_pin = None,
       sc_files = [demo_file ''a'' 3, demo_file ''b'' 0], sc_rng = demo_rng 7, sc_pin_answers = [],
       sc_pair_reply = PairListenerGone, sc_selection_listener = True,
       sc_sending = [\<lparr> rf_file_id = ''a'', rf_binary = [[1, 2], [3]] \<rparr>] \<rparr>"

definition demo_receiver :: "(bytes, bytes, bytes) receive_config" where
  "demo_receiver =
     \<lparr> rc_opened = True, rc_signing_key = [2],
       rc_expecting_public_key = Some (Ed25519VerifyingKey [1]), rc_pin = None,
       rc_rng = demo_rng 8, rc_pin_answers = [], rc_files_listener = True,
       rc_choose = (\<lambda>_. SelectedFiles [''a'']), rc_new_v4 = (\<lambda>i. ''token'') \<rparr>"

definition demo_result :: rtc_send_file_response where
  "demo_result = \<lparr> fr_id = ''a'', fr_success = True, fr_error = None \<rparr>"

definition demo_token :: "bytes \<Rightarrow> string" where
  "demo_token key =
     (let salt = replicate 32 7 @ replicate 32 8 in
      join_with CHR ''.'' [''sha256'', rfc4648_encode (key @ salt), rfc4648_encode salt,
           ''ed25519'', rfc4648_encode (key @ key @ salt)])"

definition demo_sender_token :: string where
  "demo_sender_token = demo_token [1]"

definition demo_receiver_token :: string where
  "demo_receiver_token = demo_token [2]"

section \<open>Facts on the file phase\<close>

lemma send_delimiter_eq: "send_delimiter = dc_send delimiter"
  by (simp add: send_delimiter_def delimiter_def)

lemma delimiter_simps [simp]:
  "is_string delimiter" "is_delimiter delimiter" "data delimiter = as_bytes ''0''"
  by (simp_all add: delimiter_def is_delimiter_def)

lemma send_file_ok:
  assumes "fault_free w" "map_of file_map (rf_file_id f) \<noteq> None"
  shows "send_file C file_map f w =
     (Ok (), w\<lparr> outbox := outbox w @ file_wire C file_map f,
               dc_sends := dc_sends w + length (file_wire C file_map f) \<rparr>)"
  using assms
  by (auto simp: send_file_def io_simps process_in_chunks_eq run_each_send_chunk file_wire_def)

lemma send_files_ok [io_simps]:
  assumes "fault_free w" "list_all (\<lambda>f. map_of file_map (rf_file_id f) \<noteq> None) fs"
  shows "send_files C file_map fs w =
     (Ok (), w\<lparr> outbox := outbox w @ concat (map (file_wire C file_map) fs),
               dc_sends := dc_sends w + length (concat (map (file_wire C file_map) fs)) \<rparr>)"
  using assms
proof (induction fs arbitrary: w)
  case Nil
  then show ?case by (simp add: io_return_def)
next
  case (Cons f fs)
  then show ?case
    by (simp add: io_bind_def send_file_ok add.assoc)
qed

lemma receive_chunks:
  assumes "fault_free w" "received w = xs @ [(i, ds)]" "inbox w = map binary_message cs @ ms"
  shows "receive_messages C T F (Some st) (map binary_message cs @ ms) w =
         receive_messages C T F (Some st) ms (w\<lparr> inbox := ms, received := xs @ [(i, ds @ cs)] \<rparr>)"
  using assms
proof (induction cs arbitrary: w ds)
  case Nil
  then have "w\<lparr> inbox := ms, received := xs @ [(i, ds)] \<rparr> = w" by (cases w) simp
  then show ?case by simp
next
  case (Cons c cs)
  then have "receive_step C T F (Some st) (binary_message c) (w\<lparr> inbox := map binary_message cs @ ms \<rparr>) =
      (Ok (Some (Some st)), w\<lparr> inbox := map binary_message cs @ ms, received := xs @ [(i, ds @ [c])] \<rparr>)"
    by (simp add: receive_step_def io_bind_def store_chunk_def fault_free_def io_return_def)
  with Cons.IH [of "w\<lparr> inbox := map binary_message cs @ ms, received := xs @ [(i, ds @ [c])] \<rparr>" "ds @ [c]"] Cons.prems
  show ?case by simp
qed

lemma open_file_ok:
  assumes "codec_ok C" "transferable T F f"
  obtains st where "fs_file_id st = rf_file_id f"
    and "\<And>w. open_file C T F (ser_header C \<lparr> hdr_id = rf_file_id f, hdr_token = the (map_of T (rf_file_id f)) \<rparr>) w =
      (Ok (Some st), w\<lparr> received := received w @ [(rf_file_id f, [])] \<rparr>)"
proof -
  from assms(2) obtain dto where "find (\<lambda>d. file_dto_id d = rf_file_id f) F = Some dto"
    by (cases "find (\<lambda>d. file_dto_id d = rf_file_id f) F") (auto simp: transferable_def find_None_iff)
  with assms show ?thesis
    by (intro that [of "\<lparr> fs_file_id = rf_file_id f, fs_size = file_size dto \<rparr>"])
      (auto simp: open_file_def transferable_def)
qed

text \<open>The header and the data of one file, after which the next text message is awaited.\<close>

lemma receive_file:
  assumes "codec_ok C" "transferable T F f" "fault_free w" "inbox w = file_wire C T f @ ms"
  obtains st where "fs_file_id st = rf_file_id f"
    and "receive_messages C T F None (file_wire C T f @ ms) w =
      receive_messages C T F (Some st) ms (w\<lparr> inbox := ms, received := received w @ [stored_file f] \<rparr>)"
    and "\<And>s r rs. file_results w = r # rs \<Longrightarrow> fr_success r \<Longrightarrow>
      receive_messages C T F (Some s) (file_wire C T f @ ms) w =
      receive_messages C T F (Some st) ms
        (w\<lparr> file_results := rs, outbox := outbox w @ [success_response C (fs_file_id s)],
            dc_sends := Suc (dc_sends w), inbox := ms, received := received w @ [stored_file f] \<rparr>)"
proof -
  from open_file_ok [OF assms(1,2)] obtain st where st: "fs_file_id st = rf_file_id f"
    and op: "\<And>w. open_file C T F (ser_header C \<lparr> hdr_id = rf_file_id f, hdr_token = the (map_of T (rf_file_id f)) \<rparr>) w =
      (Ok (Some st), w\<lparr> received := received w @ [(rf_file_id f, [])] \<rparr>)" by blast
  show ?thesis
  proof (rule that [OF st])
    show "receive_messages C T F None (file_wire C T f @ ms) w =
      receive_messages C T F (Some st) ms (w\<lparr> inbox := ms, received := received w @ [stored_file f] \<rparr>)"
      using assms(3)
      by (simp add: file_wire_def receive_step_def io_bind_def io_return_def op receive_chunks stored_file_def)
  next
    fix s r rs
    assume "file_results w = r # rs" "fr_success r"
    with assms(1,3) show "receive_messages C T F (Some s) (file_wire C T f @ ms) w =
      receive_messages C T F (Some st) ms
        (w\<lparr> file_results := rs, outbox := outbox w @ [success_response C (fs_file_id s)],
            dc_sends := Suc (dc_sends w), inbox := ms, received := received w @ [stored_file f] \<rparr>)"
      by (simp add: file_wire_def receive_step_def io_bind_def io_return_def op receive_chunks stored_file_def
          file_response_def success_response_def io_simps is_delimiter_def)
  qed
qed

lemma receive_remaining_files:
  assumes "codec_ok C" "list_all (transferable T F) fs" "fault_free w"
    and "inbox w = concat (map (file_wire C T) fs) @ delimiter # later"
    and "length fs < length (file_results w)" "list_all fr_success (file_results w)"
  shows "receive_messages C T F (Some s) (concat (map (file_wire C T) fs) @ delimiter # later) w =
     (Ok (), w\<lparr> file_results := drop (Suc (length fs)) (file_results w),
               outbox := outbox w @ map (success_response C) (fs_file_id s # map rf_file_id fs),
               dc_sends := dc_sends w + Suc (length fs), inbox := later,
               received := received w @ map stored_file fs \<rparr>)"
  using assms
proof (induction fs arbitrary: w s)
  case Nil
  then obtain r rs where r: "file_results w = r # rs" "fr_success r" by (cases "file_results w") auto
  with Nil show ?case
    by (simp add: receive_step_def io_bind_def file_response_def io_simps io_return_def success_response_def)
next
  case (Cons f fs)
  then obtain r rs where r: "file_results w = r # rs" "fr_success r" by (cases "file_results w") auto
  let ?ms = "concat (map (file_wire C T) fs) @ delimiter # later"
  from Cons.prems have "transferable T F f" "inbox w = file_wire C T f @ ?ms" by simp_all
  from receive_file [OF Cons.prems(1) this(1) Cons.prems(3) this(2)] obtain st
    where st: "fs_file_id st = rf_file_id f"
      and step: "receive_messages C T F (Some s) (file_wire C T f @ ?ms) w =
        receive_messages C T F (Some st) ?ms
          (w\<lparr> file_results := rs, outbox := outbox w @ [success_response C (fs_file_id s)],
            dc_sends := Suc (dc_sends w), inbox := ?ms, received := received w @ [stored_file f] \<rparr>)"
    using r by metis
  show ?case
    using Cons.IH [of "w\<lparr> file_results := rs, outbox := outbox w @ [success_response C (fs_file_id s)],
            dc_sends := Suc (dc_sends w), inbox := ?ms, received := received w @ [stored_file f] \<rparr>" st]
      Cons.prems r st step by simp
qed

lemma receive_loop_files:
  assumes "codec_ok C" "list_all (transferable T F) fs" "fs \<noteq> []" "fault_free w"
    and "inbox w = concat (map (file_wire C T) fs) @ delimiter # later"
    and "length fs \<le> length (file_results w)" "list_all fr_success (file_results w)"
  shows "receive_loop C T F w =
     (Ok (), w\<lparr> file_results := drop (length fs) (file_results w),
               outbox := outbox w @ map (success_response C \<circ> rf_file_id) fs,
               dc_sends := dc_sends w + length fs, inbox := later,
               received := received w @ map stored_file fs \<rparr>)"
proof -
  from assms(3) obtain f fs' where fs: "fs = f # fs'" by (cases fs) auto
  let ?ms = "concat (map (file_wire C T) fs') @ delimiter # later"
  have f: "transferable T F f" "inbox w = file_wire C T f @ ?ms" using assms(2,5) by (simp_all add: fs)
  obtain st where st: "fs_file_id st = rf_file_id f"
    and step: "receive_messages C T F None (file_wire C T f @ ?ms) w =
      receive_messages C T F (Some st) ?ms (w\<lparr> inbox := ?ms, received := received w @ [stored_file f] \<rparr>)"
    using receive_file [OF assms(1) f(1) assms(4) f(2)] by metis
  show ?thesis
    using receive_remaining_files [of C T F fs' "w\<lparr> inbox := ?ms, received := received w @ [stored_file f] \<rparr>" later st]
      assms f(2) st step
    by (simp add: receive_loop_def fs Suc_le_eq comp_def)
qed

text \<open>Whatever the peer sends: the loop keeps every stored file justified.\<close>

lemma justified_mono: "justified C T F ms e \<Longrightarrow> set ms \<subseteq> set ms' \<Longrightarrow> justified C T F ms' e"
  unfolding justified_def by (meson subsetD)

lemma open_file_justified:
  assumes "open_file C T F (data m) v = (q, v')" "list_all (justified C T F seen) (received v)"
    and "is_string m" "m \<in> set seen"
  shows "list_all (justified C T F seen) (received v') \<and> (\<forall>s. q = Ok (Some s) \<longrightarrow> received v' \<noteq> [])"
proof (cases "\<exists>s. q = Ok (Some s)")
  case True
  then obtain h f where h: "de_header C (data m) = Some h" "map_of T (hdr_id h) = Some (hdr_token h)"
    and f: "find (\<lambda>f. file_dto_id f = hdr_id h) F = Some f"
    and v': "v' = v\<lparr> received := received v @ [(hdr_id h, [])] \<rparr>"
    using assms(1)
    by (auto simp: open_file_def io_bind_def send_file_error_def io_return_def split: option.splits if_splits)
  from f have "hdr_id h \<in> file_dto_id ` set F" by (auto simp: find_Some_iff image_iff) (metis nth_mem)
  with h assms(3,4) have "justified C T F seen (hdr_id h, [])"
    unfolding justified_def by auto
  with v' assms(2) show ?thesis by simp
next
  case False
  with assms(1,2) show ?thesis
    by (auto simp: open_file_def io_bind_def send_file_error_def io_return_def split: option.splits if_splits)
qed

lemma store_chunk_justified:
  assumes "store_chunk s (data m) v = (q, v')" "list_all (justified C T F seen) (received v)"
    and "received v \<noteq> []" "\<not> is_string m" "m \<in> set seen"
  shows "list_all (justified C T F seen) (received v') \<and> received v' \<noteq> []"
proof -
  obtain xs e where x: "received v = xs @ [e]" using assms(3) by (cases "received v" rule: rev_cases) auto
  with assms(2) have e: "list_all (justified C T F seen) xs" "justified C T F seen e" by simp_all
  with assms(4,5) have "justified C T F seen (fst e, snd e @ [data m])"
    unfolding justified_def by auto
  with e x assms(1,2) show ?thesis by (auto simp: store_chunk_def split: if_splits)
qed

lemma receive_step_justified:
  assumes "list_all (justified C T F seen) (received w)" "m \<in> set seen"
    and "\<And>s. st = Some s \<Longrightarrow> received w \<noteq> []"
    and "receive_step C T F st m w = (r, w')"
  shows "list_all (justified C T F seen) (received w') \<and> (\<forall>s. r = Ok (Some (Some s)) \<longrightarrow> received w' \<noteq> [])"
proof (cases "is_string m")
  case True
  define answer where "answer = (case st of
             None \<Rightarrow> io_return False
           | Some s \<Rightarrow>
               io_bind (file_response (fs_file_id s)) (\<lambda>r.
               io_bind (dc_send (text_message (ser_file_response C r))) (\<lambda>_.
               io_return (is_delimiter m))))"
  obtain q v where a: "answer w = (q, v)" by fastforce
  then have v: "received v = received w"
    by (auto simp: answer_def io_bind_def io_return_def file_response_def Let_def dc_send_def
        split: option.splits list.splits)
  have step: "(r, w') = io_bind answer (\<lambda>end_of_all. if end_of_all then io_return None
        else io_bind (open_file C T F (data m)) (\<lambda>s. io_return (Some s))) w"
    using True assms(4) by (simp add: receive_step_def answer_def)
  obtain q' v' where o: "open_file C T F (data m) v = (q', v')" by fastforce
  from open_file_justified [OF o _ True assms(2)] assms(1) v
  have "list_all (justified C T F seen) (received v') \<and> (\<forall>s. q' = Ok (Some s) \<longrightarrow> received v' \<noteq> [])"
    by simp
  with step a v o assms(1) show ?thesis
    by (auto simp: io_bind_def io_return_def split: res.splits if_splits)
next
  case False
  show ?thesis
  proof (cases st)
    case None
    with False assms(1,4) show ?thesis
      by (auto simp: receive_step_def io_bind_def send_file_error_def io_return_def)
  next
    case (Some s)
    obtain q v where o: "store_chunk s (data m) w = (q, v)" by fastforce
    from store_chunk_justified [OF o assms(1) _ False assms(2)] assms(3) Some
    have "list_all (justified C T F seen) (received v) \<and> received v \<noteq> []" by simp
    with False Some o assms(4) show ?thesis
      by (auto simp: receive_step_def io_bind_def io_return_def split: res.splits)
  qed
qed

lemma receive_messages_justified:
  assumes "list_all (justified C T F seen) (received w)" "set ms \<subseteq> set seen"
    and "\<And>s. st = Some s \<Longrightarrow> received w \<noteq> []"
  shows "list_all (justified C T F seen) (received (snd (receive_messages C T F st ms w)))"
  using assms
proof (induction ms arbitrary: st w)
  case (Cons m ms)
  obtain r w' where step: "receive_step C T F st m (w\<lparr> inbox := ms \<rparr>) = (r, w')" by fastforce
  have j: "list_all (justified C T F seen) (received w') \<and> (\<forall>s. r = Ok (Some (Some s)) \<longrightarrow> received w' \<noteq> [])"
    by (rule receive_step_justified [OF _ _ _ step]) (use Cons.prems in auto)
  show ?case
  proof (cases "\<exists>st'. r = Ok (Some st')")
    case True
    then obtain st' where "r = Ok (Some st')" by blast
    with Cons.IH [of w' st'] Cons.prems(2) j step show ?thesis by auto
  next
    case False
    with j step show ?thesis by (auto split: res.splits option.splits)
  qed
qed simp

section \<open>Facts on the phases before\<close>

text \<open>
  The locale of \<open>Data_Channel\<close> extended to the phases of the handshake: a frame that the statuses of
  the handshake respect. \<open>Q\<close> selects the statuses the frame tolerates. The tasks themselves report
  neither the exchange of descriptions nor the end; the session around them does.
\<close>

definition task_status :: "rtc_status \<Rightarrow> bool" where
  [simp]: "task_status st \<longleftrightarrow> st \<noteq> SdpExchanged \<and> st \<noteq> Finished"

locale handshake_frame = io_frame +
  fixes Q :: "rtc_status \<Rightarrow> bool"
  assumes R_status: "Q st \<Longrightarrow> R w (snd (send_status st w))"
    and Q_handshake: "st \<noteq> Connected \<Longrightarrow> task_status st \<Longrightarrow> Q st"
begin

lemma moves_status: "Q st \<Longrightarrow> moves R (send_status st)"
  by (simp add: moves_def R_status)

lemma moves_pin_response: "moves R (receive_pin_response b)"
  unfolding receive_pin_response_def
  by (auto intro!: moves_basic split: option.splits)

lemma moves_handle_pin: "moves R (handle_pin C b parse answers)"
proof (induction answers)
  case Nil
  show ?case by (auto intro!: moves_basic moves_status Q_handshake)
next
  case (Cons a answers)
  then show ?case
    by (cases a) (auto intro!: moves_basic moves_status Q_handshake moves_pin_response split: challenge_pin_result.splits)
qed

lemma moves_exchanges:
  "moves R (sender_nonce_exchange L C rng)"
  "moves R (receiver_nonce_exchange L C rng)"
  "moves R (sender_token_exchange L C sk expecting nonce)"
  "moves R (receiver_token_exchange L C sk expecting pin_cfg nonce)"
  unfolding sender_nonce_exchange_def receiver_nonce_exchange_def Let_def send_nonce_def receive_nonce_def
    sender_token_exchange_def receiver_token_exchange_def
  by (auto intro!: moves_basic split: option.splits rtc_token_response.splits)

lemma moves_verify_pin_loop:
  assumes "\<And>r. moves R (send_result r)"
  shows "moves R (verify_pin_loop C cfg send_result notice remote_pin pin_try)"
proof (induction "unat (max_tries cfg) - unat pin_try" arbitrary: pin_try notice remote_pin)
  case 0
  then have over: "pin_try \<ge> max_tries cfg" by (simp add: word_le_nat_alt)
  have "moves R (io_bind (io_ignore (send_result VerifyTooManyAttempts)) (\<lambda>_.
     io_bind (send_status TooManyAttempts) (\<lambda>_. io_fail (Anyhow ''Too many requests''))))"
    by (auto intro!: moves_basic moves_status Q_handshake assms)
  with over show ?case
    by (cases "remote_pin = pin cfg") (auto simp: moves_def verify_pin_loop_over verify_pin_loop_match R_refl)
next
  case (Suc n)
  then have go: "pin_try < max_tries cfg" by (simp add: word_less_nat_alt)
  have rec: "moves R (verify_pin_loop C cfg send_result False p (pin_try + 1))" for p
    using Suc.hyps(1) [of "pin_try + 1"] Suc.hyps(2) tries_left_Suc [OF go] by simp
  have "moves R (io_bind (if notice \<or> pin_try > 0 then send_result VerifyPinRequired else io_return ()) (\<lambda>_.
     io_bind dc_recv (\<lambda>m.
     case m of
       None \<Rightarrow> io_fail (Anyhow ''Failed to receive pin'')
     | Some msg \<Rightarrow>
         (case de_pin C (data msg) of
            None \<Rightarrow> io_fail (Lib ''serde_json'')
          | Some p \<Rightarrow> verify_pin_loop C cfg send_result False p (pin_try + 1)))))"
    by (auto intro!: moves_basic rec assms split: option.splits)
  with go show ?case
    by (cases "remote_pin = pin cfg") (auto simp: moves_def verify_pin_loop_try verify_pin_loop_match R_refl)
qed

lemma moves_verify_pin:
  "moves R (verify_pin C cfg notice (sender_send_pin_result C))"
  "moves R (verify_pin C cfg notice (receiver_send_pin_result C))"
  unfolding verify_pin_def
  by (auto intro!: moves_basic moves_status Q_handshake moves_verify_pin_loop
      simp: sender_send_pin_result_def receiver_send_pin_result_def)

lemma moves_handshake:
  "moves R (sender_handshake L C sc)"
  "moves R (receiver_handshake L C rc)"
  unfolding sender_handshake_def receiver_handshake_def sender_pin_phase_def receiver_pin_phase_def
  by (auto intro!: moves_basic moves_exchanges moves_handle_pin moves_verify_pin
      split: option.splits rtc_token_response.splits)

end

interpretation nch: handshake_frame no_new_connected "\<lambda>st. st \<noteq> Connected"
  by unfold_locales (auto simp: no_new_connected_def send_status_def)

interpretation csh: handshake_frame consumes "\<lambda>st. True"
  by unfold_locales (auto simp: consumes_def send_status_def)

text \<open>
  A frame that tolerates every status of a task and the user's side of the files holds for the whole
  tasks. Its instance: no task changes the environment it runs in, and it only adds statuses of a task.
\<close>

locale task_frame = handshake_frame R task_status for R +
  assumes R_file_error: "R w (snd (send_file_error i e w))"
    and R_results: "R w (w\<lparr> file_results := rs \<rparr>)"
    and R_received: "R w (w\<lparr> received := xs \<rparr>)"
    and R_inbox: "R w (w\<lparr> inbox := ms \<rparr>)"
begin

lemma moves_file_error: "moves R (send_file_error i e)"
  by (simp add: moves_def R_file_error)

lemma moves_report: "task_status st \<Longrightarrow> moves R m \<Longrightarrow> moves R (io_report st m)"
  by (auto simp del: task_status_def simp: moves_def io_report_def intro: R_trans R_status split: prod.splits res.splits)
     (metis R_status R_trans snd_conv)+

lemmas moves_task = moves_basic moves_status moves_file_error moves_report moves_exchanges
  moves_handle_pin moves_verify_pin moves_handshake moves_process

lemma moves_selection: "moves R (await_selection L C remote_token nonce reply)"
  unfolding await_selection_def receive_file_list_response_def pair_exchange_def selection_declined_def
    selection_error_def
  by (auto intro!: moves_task split: option.splits rtc_file_list_response.splits pair_reply.splits bool.splits)

lemma moves_send_file: "moves R (send_file C file_map f)"
  unfolding moves_def
proof
  fix w
  show "R w (snd (send_file C file_map f w))"
    using R_file_error R_send R_trans moves_process
    by (auto simp: send_file_def moves_def split: option.splits prod.splits res.splits) (metis snd_conv)+
qed

lemma moves_send_files: "moves R (send_files C file_map fs)"
  by (induction fs) (auto intro!: moves_task moves_send_file)

lemma moves_send_task: "moves R (send_task L C cfg)"
  unfolding send_task_def send_file_list_def publish_selection_def finish_sending_def
  by (auto intro!: moves_task moves_selection moves_send_files split: option.splits)

lemma moves_skip_file: "R w (snd (io_bind (send_file_error i e) (\<lambda>_. io_return x) w))"
proof -
  have "moves R (io_bind (send_file_error i e) (\<lambda>_. io_return x))"
    by (intro moves_bind moves_file_error moves_return)
  then show ?thesis by (simp add: moves_def)
qed

lemma moves_open_file: "moves R (open_file C T F d)"
  by (simp add: moves_def open_file_def R_refl R_received moves_skip_file split: option.split)

lemma moves_store_chunk: "moves R (store_chunk st d)"
  by (simp add: moves_def store_chunk_def R_refl R_received)

lemma moves_file_response: "moves R (file_response i)"
  by (simp add: moves_def file_response_def Let_def R_refl R_results split: list.splits)

lemma moves_receive_step: "moves R (receive_step C T F st msg)"
  unfolding receive_step_def
  by (auto intro!: moves_task moves_open_file moves_store_chunk moves_file_response split: option.splits)

lemma moves_receive_messages: "R w (snd (receive_messages C T F st ms w))"
proof (induction ms arbitrary: st w)
  case Nil
  then show ?case by (simp add: R_refl)
next
  case (Cons m ms)
  obtain r w1 where step: "receive_step C T F st m (w\<lparr> inbox := ms \<rparr>) = (r, w1)" by fastforce
  have "R w w1"
    using R_inbox R_trans moves_receive_step [of C T F st m] step by (metis moves_def snd_conv)
  with step Cons.IH [of w1] show ?case
    by (auto split: res.split option.split intro: R_trans)
qed

lemma moves_receive_loop: "moves R (receive_loop C T F)"
  by (simp add: moves_def receive_loop_def moves_receive_messages)

lemma moves_receive_task: "moves R (receive_task L C cfg)"
  unfolding receive_task_def await_file_list_def answer_file_list_def Let_def
  by (auto intro!: moves_task moves_receive_loop split: option.splits user_selection.splits
      rtc_pin_sending_response.splits)

end

definition same_environment :: "task_world \<Rightarrow> task_world \<Rightarrow> bool" where
  "same_environment w w' \<longleftrightarrow>
     dc_fault w' = dc_fault w \<and> status_dropped w' = status_dropped w \<and> sink_dropped w' = sink_dropped w \<and>
     (\<exists>xs. statuses w' = statuses w @ xs \<and> list_all task_status xs)"

interpretation se: task_frame same_environment
  by unfold_locales
    (auto simp: same_environment_def dc_send_def dc_recv_def send_status_def send_file_error_def
      split: option.splits list.splits)

text \<open>A task that became connected got past every phase before.\<close>

lemma connected_past:
  assumes "moves no_new_connected m" "Connected \<notin> set (statuses w)"
    and "Connected \<in> set (statuses (snd (io_bind m f w)))"
  obtains x w1 where "m w = (Ok x, w1)" "Connected \<notin> set (statuses w1)" "snd (io_bind m f w) = snd (f x w1)"
proof -
  obtain r w1 where m: "m w = (r, w1)" by fastforce
  with assms(1,2) have "Connected \<notin> set (statuses w1)" by (metis moves_def no_new_connected_def snd_conv)
  with m assms(3) that show ?thesis by (cases r) (auto simp: io_bind_def)
qed

lemma sender_exchanges_identify:
  assumes "sender_nonce_exchange L C rng w = (Ok nonce, w1)"
    and "sender_token_exchange L C sk (Some key) nonce w1 = (Ok (token, response), w2)"
  shows "receiver_identified L C key (generate_nonce rng) (inbox w) \<and> suffix (inbox w2) (inbox w)"
proof -
  from assms(1) obtain m1 ms s n where n: "inbox w = m1 # ms" "de_nonce C (data m1) = Some s"
    "base64_decode L s = Some n" "inbox w1 = ms" "nonce = generate_nonce rng @ n"
    by (auto simp: sender_nonce_exchange_def Let_def io_Ok_iffs send_nonce_eq_Ok receive_nonce_eq_Ok)
  from assms(2) obtain m2 ms' where t: "inbox w1 = m2 # ms'" "inbox w2 = ms'"
    "de_token_response C (data m2) = Some response"
    by (cases "inbox w1") (auto simp: sender_token_exchange_def io_Ok_iffs Let_def
      split: option.split_asm if_split_asm rtc_token_response.split_asm)
  from sender_token_exchange_Ok [OF assms(2)] n t show ?thesis
    unfolding receiver_identified_def by (auto simp: suffix_def)
qed

lemma receiver_exchanges_identify:
  assumes "receiver_nonce_exchange L C rng w = (Ok nonce, w1)"
    and "receiver_token_exchange L C sk (Some key) pin_cfg nonce w1 = (Ok token, w2)"
  shows "sender_identified L C key (generate_nonce rng) (inbox w) \<and> suffix (inbox w2) (inbox w)"
proof -
  from assms(1) obtain m1 ms s n where n: "inbox w = m1 # ms" "de_nonce C (data m1) = Some s"
    "base64_decode L s = Some n" "inbox w1 = ms" "nonce = n @ generate_nonce rng"
    by (auto simp: receiver_nonce_exchange_def Let_def io_Ok_iffs send_nonce_eq_Ok receive_nonce_eq_Ok)
  from assms(2) obtain m2 ms' where t: "inbox w1 = m2 # ms'" "inbox w2 = ms'"
    "de_token_request C (data m2) = Some token"
    by (cases "inbox w1") (auto simp: receiver_token_exchange_def io_Ok_iffs
      split: option.split_asm if_split_asm)
  from receiver_token_exchange_Ok [OF assms(2)] n t show ?thesis
    unfolding sender_identified_def by (auto simp: suffix_def)
qed

lemma movesD: "moves R m \<Longrightarrow> m w = (r, w') \<Longrightarrow> R w w'"
  by (metis moves_def snd_conv)

lemma pin_received_suffix: "pin_received C p ms \<Longrightarrow> suffix ms ms' \<Longrightarrow> pin_received C p ms'"
  by (auto simp: pin_received_def suffix_def)

lemma verify_pin_Ok_received:
  assumes "verify_pin C p notice send_result w = (Ok (), w')"
    and "\<And>q v. inbox (snd (send_result q v)) = inbox v"
  shows "pin_received C p (inbox w)"
proof -
  let ?w = "w\<lparr> statuses := statuses w @ [PinRequired] \<rparr>"
  have "verify_pin_loop C p send_result notice [] 0 ?w = (Ok (), w')"
    using assms(1) by (auto simp: verify_pin_def io_bind_def send_status_def split: if_splits)
  with verify_pin_loop_sound [where send_result = send_result and cfg = p and pin_try = 0
          and C = C and notice = notice and remote_pin = "[]" and w = ?w, OF assms(2) refl]
  show ?thesis by (auto simp: pin_received_def dest: in_set_takeD)
qed

lemma sender_handshake_Ok:
  assumes "sender_handshake L C cfg w = (Ok x, w')"
  shows "sc_expecting_public_key cfg = Some key \<Longrightarrow>
      receiver_identified L C key (generate_nonce (sc_rng cfg)) (inbox w)"
    and "sc_pin cfg = Some p \<Longrightarrow> pin_received C p (inbox w)"
proof -
  from assms obtain nonce w1 token response w2 where
    n: "sender_nonce_exchange L C (sc_rng cfg) w = (Ok nonce, w1)" and
    t: "sender_token_exchange L C (sc_signing_key cfg) (sc_expecting_public_key cfg) nonce w1 = (Ok (token, response), w2)" and
    p: "sender_pin_phase C (sc_pin cfg) (sc_pin_answers cfg) response w2 = (Ok (), w')"
    by (auto simp: sender_handshake_def io_bind_eq_Ok io_return_eq)
  show "receiver_identified L C key (generate_nonce (sc_rng cfg)) (inbox w)"
    if "sc_expecting_public_key cfg = Some key"
    using sender_exchanges_identify [OF n] t that by auto
  show "pin_received C p (inbox w)" if "sc_pin cfg = Some p"
  proof -
    from p that obtain w3 where h: "(case response of
          TokenPinRequired t \<Rightarrow> handle_pin C False (sender_parse_pin_response C) (sc_pin_answers cfg)
        | _ \<Rightarrow> io_return ()) w2 = (Ok (), w3)"
      and v: "verify_pin C p True (sender_send_pin_result C) w3 = (Ok (), w')"
      by (auto simp: sender_pin_phase_def io_bind_eq_Ok)
    have "consumes w2 w3"
      using h movesD [OF csh.moves_handle_pin] by (auto simp: io_return_eq cs.R_refl split: rtc_token_response.splits)
    moreover have "consumes w w1" "consumes w1 w2"
      using movesD [OF csh.moves_exchanges(1) n] movesD [OF csh.moves_exchanges(3) t] by simp_all
    ultimately have "suffix (inbox w3) (inbox w)"
      using cs.R_trans by (metis consumes_def)
    with verify_pin_Ok_received [OF v inbox_sender_result] show ?thesis by (rule pin_received_suffix)
  qed
qed

lemma receiver_handshake_Ok:
  assumes "receiver_handshake L C cfg w = (Ok x, w')"
  shows "rc_expecting_public_key cfg = Some key \<Longrightarrow>
      sender_identified L C key (generate_nonce (rc_rng cfg)) (inbox w)"
    and "rc_pin cfg = Some p \<Longrightarrow> pin_received C p (inbox w)"
proof -
  from assms obtain nonce w1 token w2 where
    n: "receiver_nonce_exchange L C (rc_rng cfg) w = (Ok nonce, w1)" and
    t: "receiver_token_exchange L C (rc_signing_key cfg) (rc_expecting_public_key cfg) (rc_pin cfg) nonce w1 = (Ok token, w2)" and
    p: "receiver_pin_phase C (rc_pin cfg) w2 = (Ok x, w')"
    by (auto simp: receiver_handshake_def io_bind_eq_Ok)
  show "sender_identified L C key (generate_nonce (rc_rng cfg)) (inbox w)"
    if "rc_expecting_public_key cfg = Some key"
    using receiver_exchanges_identify [OF n] t that by auto
  show "pin_received C p (inbox w)" if "rc_pin cfg = Some p"
  proof -
    from p that obtain w3 where v: "verify_pin C p False (receiver_send_pin_result C) w2 = (Ok (), w3)"
      by (auto simp: receiver_pin_phase_def io_bind_eq_Ok)
    have "suffix (inbox w2) (inbox w)"
      using movesD [OF csh.moves_exchanges(2) n] movesD [OF csh.moves_exchanges(4) t] cs.R_trans by (metis consumes_def)
    with verify_pin_Ok_received [OF v inbox_receiver_result] show ?thesis by (rule pin_received_suffix)
  qed
qed

section \<open>Properties\<close>

text \<open>
  C8: whatever a sender puts on the channel, the receiving loop stores data only for files whose
  header carried the token handed out for a selected file of the offered list, and only data of
  binary messages.
\<close>

theorem receiver_stores_only_selected:
  assumes "received w = []" "receive_loop C T F w = (r, w')"
  shows "list_all (justified C T F (inbox w)) (received w')"
  using assms receive_messages_justified [of C T F "inbox w" w "inbox w" None]
  by (simp add: receive_loop_def)

theorem receiver_stores_only_selected_witness:
  "let run = receive_loop plain_codec [(''a'', ''t'')] [demo_file ''a'' 1]
       (fresh_world [text_message (ser_header plain_codec \<lparr> hdr_id = ''a'', hdr_token = ''t'' \<rparr>),
          binary_message [5], delimiter] [demo_result])
   in fst run = Ok () \<and> received (snd run) = [(''a'', [[5]])] \<and>
      list_all (justified plain_codec [(''a'', ''t'')] [demo_file ''a'' 1]
        [text_message (ser_header plain_codec \<lparr> hdr_id = ''a'', hdr_token = ''t'' \<rparr>),
          binary_message [5], delimiter]) (received (snd run))"
proof -
  let ?w = "fresh_world [text_message (ser_header plain_codec \<lparr> hdr_id = ''a'', hdr_token = ''t'' \<rparr>),
          binary_message [5], delimiter] [demo_result]"
  let ?run = "receive_loop plain_codec [(''a'', ''t'')] [demo_file ''a'' 1] ?w"
  have "fst ?run = Ok ()" "received (snd ?run) = [(''a'', [[5]])]" by code_simp+
  moreover have "list_all (justified plain_codec [(''a'', ''t'')] [demo_file ''a'' 1] (inbox ?w)) (received (snd ?run))"
    by (rule receiver_stores_only_selected [of _ _ _ _ "fst ?run"]) (simp_all add: fresh_world_def)
  moreover have "inbox ?w = [text_message (ser_header plain_codec \<lparr> hdr_id = ''a'', hdr_token = ''t'' \<rparr>),
          binary_message [5], delimiter]" by (simp add: fresh_world_def)
  ultimately show ?thesis by (simp add: Let_def)
qed

text \<open>
  C39: a transfer in which the user sends no file ends in an error at the receiver: the closing
  delimiter arrives while no file is open and is parsed as a file header.
\<close>

theorem empty_transfer_fails_at_receiver:
  assumes "de_header C (as_bytes ''0'') = None" "fault_free ws" "outbox ws = []"
    and "io_bind (send_files C T []) (\<lambda>_. finish_sending) ws = (rs, ws')" "inbox wr = outbox ws'"
  shows "rs = Ok () \<and> fst (receive_loop C T F wr) = Err (Lib ''serde_json'')"
proof -
  from assms(2-4) have "rs = Ok ()" "outbox ws' = [delimiter]"
    by (auto simp: io_bind_def io_return_def finish_sending_def send_delimiter_eq io_simps dc_recv_def
        split: list.splits)
  with assms(1,5) show ?thesis
    by (simp add: receive_loop_def receive_step_def io_bind_def io_return_def open_file_def)
qed

theorem empty_transfer_fails_at_receiver_witness:
  "\<exists>ws' rs. io_bind (send_files plain_codec [] []) (\<lambda>_. finish_sending) (fresh_world [] []) = (rs, ws') \<and> rs = Ok () \<and>
     fst (receive_loop plain_codec [] [] (fresh_world (outbox ws') [])) = Err (Lib ''serde_json'')"
proof -
  obtain rs ws' where r: "io_bind (send_files plain_codec [] []) (\<lambda>_. finish_sending) (fresh_world [] []) = (rs, ws')"
    by fastforce
  have "rs = Ok () \<and> fst (receive_loop plain_codec [] [] (fresh_world (outbox ws') [])) = Err (Lib ''serde_json'')"
    by (rule empty_transfer_fails_at_receiver [OF _ _ _ r])
      (simp_all add: fresh_world_def fault_free_def plain_codec_def, code_simp)
  with r show ?thesis by blast
qed

text \<open>
  A receiver configured with the empty PIN announces a PIN challenge, accepts it without reading
  an answer, and then takes the PIN its peer sent for the end of the file list: the transfer fails.
\<close>

theorem empty_pin_breaks_transfer:
  assumes "pin p = []" "fault_free w" "inbox w = pin_message C guess # ms" "de_pin_sending C [] = None"
  shows "fst (io_bind (receiver_pin_phase C (Some p)) (\<lambda>_. await_file_list C answers) w) =
     Err (Anyhow ''Failed to deserialize file list response'')"
  using assms
  by (simp add: receiver_pin_phase_def io_bind_def verify_pin_def io_simps verify_pin_loop_match
      await_file_list_def receive_string_from_chunks_def io_fail_def)

theorem empty_pin_breaks_transfer_witness:
  "fst (io_bind (receiver_pin_phase plain_codec (Some \<lparr> pin = [], max_tries = 3 \<rparr>)) (\<lambda>_. await_file_list plain_codec [])
     (fresh_world (pin_message plain_codec ''1'' # chunked (ser_pin_sending plain_codec (PinSendingOk []))) [])) =
   Err (Anyhow ''Failed to deserialize file list response'')"
  by (rule empty_pin_breaks_transfer [OF _ fault_free_fresh]) (simp_all add: fresh_world_def plain_codec_def)

end
