(* ===== verification/Peer_Connection.thy ===== *)
theory Peer_Connection
  imports File_Transfer Signaling_Server Signaling_Client
begin

text \<open>
  The functions \<open>send_offer\<close> and \<open>accept_offer\<close> of \<open>core/src/webrtc/webrtc.rs\<close> around
  their tasks: creating the peer connection, exchanging the session descriptions over the signaling
  connection, waiting for the task or the end of the connection, and closing.

  The WebRTC library is the record \<open>peer_lib\<close> of its answers. The task cannot do anything before
  both descriptions are set, so it is run where its result is awaited. When the connection is lost
  first, the select drops the handle of the task, which detaches it: it goes on with its own end of
  the status channel while the session is being closed and afterwards. The facts: both sides set the
  description the other one produced; in which order the application sees the statuses.
\<close>

section \<open>Worlds and results\<close>

text \<open>What the WebRTC library answers in one session; \<open>None\<close> and \<open>False\<close> are errors.\<close>

record peer_lib =
  pl_new_peer_connection :: "string list \<Rightarrow> bool"
  pl_create_data_channel :: "string \<Rightarrow> bool"
  pl_create_offer :: "string option"
  pl_create_answer :: "string option"
  pl_set_local :: "string \<Rightarrow> bool"
  pl_local_description :: "string option"
  pl_offer_valid :: "string \<Rightarrow> bool"
  pl_answer_valid :: "string \<Rightarrow> bool"
  pl_set_remote :: "string \<Rightarrow> bool"
  pl_close :: bool
  pl_join_error :: "string \<Rightarrow> string"

record peer_world =
  pw_task :: task_world
  pw_queued :: "ws_client_message list"
  pw_remote :: "string option"
  pw_closed :: bool

text \<open>A step returns or waits for ever.\<close>

datatype 'a progress = Returns "'a res" | Waits

type_synonym 'a peer_io = "peer_world \<Rightarrow> 'a progress \<times> peer_world"

definition p_bind :: "'a peer_io \<Rightarrow> ('a \<Rightarrow> 'b peer_io) \<Rightarrow> 'b peer_io" where
  "p_bind m f w =
     (case m w of
        (Returns (Ok x), w') \<Rightarrow> f x w'
      | (Returns (Err e), w') \<Rightarrow> (Returns (Err e), w')
      | (Returns (Panic p), w') \<Rightarrow> (Returns (Panic p), w')
      | (Waits, w') \<Rightarrow> (Waits, w'))"

definition p_of :: "'a res \<Rightarrow> 'a peer_io" where
  "p_of r w = (Returns r, w)"

definition p_check :: "string \<Rightarrow> bool \<Rightarrow> unit peer_io" where
  "p_check call ok = p_of (if ok then Ok () else Err (Lib call))"

definition p_task :: "'a io \<Rightarrow> 'a peer_io" where
  "p_task m w = (case m (pw_task w) of (r, t) \<Rightarrow> (Returns r, w\<lparr> pw_task := t \<rparr>))"

definition p_queue :: "(ws_client_message list \<Rightarrow> unit res \<times> ws_client_message list) \<Rightarrow> unit peer_io" where
  "p_queue f w = (case f (pw_queued w) of (r, q) \<Rightarrow> (Returns r, w\<lparr> pw_queued := q \<rparr>))"

section \<open>Steps both sides share\<close>

definition CHANNEL_LABEL :: string where
  "CHANNEL_LABEL = ''data''"

definition create_peer_connection :: "peer_lib \<Rightarrow> string list \<Rightarrow> unit peer_io" where
  "create_peer_connection P stun = p_check ''new_peer_connection'' (pl_new_peer_connection P stun)"

text \<open>\<open>create_offer\<close> or \<open>create_answer\<close>, then the local description after gathering.\<close>

definition local_description :: "peer_lib \<Rightarrow> string option \<Rightarrow> string \<Rightarrow> string peer_io" where
  "local_description P created missing =
     p_bind (p_of (of_option (Lib ''create'') created)) (\<lambda>description.
     p_bind (p_check ''set_local_description'' (pl_set_local P description)) (\<lambda>_.
     p_of (of_option (Anyhow missing) (pl_local_description P))))"

definition set_remote_description :: "peer_lib \<Rightarrow> string \<Rightarrow> unit peer_io" where
  "set_remote_description P sdp w =
     (if pl_set_remote P sdp then (Returns (Ok ()), w\<lparr> pw_remote := Some sdp \<rparr>)
      else (Returns (Err (Lib ''set_remote_description'')), w))"

definition close_connection :: "peer_lib \<Rightarrow> unit peer_io" where
  "close_connection P w =
     (if pl_close P then (Returns (Ok ()), w\<lparr> pw_closed := True \<rparr>)
      else (Returns (Err (Lib ''close'')), w))"

text \<open>\<open>if let Err(e) = status_tx.send(SdpExchanged) { close; return Err(e) }\<close>\<close>

definition sdp_exchanged :: "peer_lib \<Rightarrow> unit peer_io" where
  "sdp_exchanged P w =
     (case send_status SdpExchanged (pw_task w) of
        (Err e, t) \<Rightarrow> p_bind (close_connection P) (\<lambda>_. p_of (Err e)) (w\<lparr> pw_task := t \<rparr>)
      | (r, t) \<Rightarrow> (Returns r, w\<lparr> pw_task := t \<rparr>))"

text \<open>
  \<open>tokio::select!\<close>: either the task ends first, or the connection is lost first. Then the task has
  had some effect so far, and detached it has further ones while the session is being closed and
  after that. A panic of the task is an error of its handle.
\<close>

datatype select_branch =
    TaskEnds
  | Disconnected (so_far: "task_world \<Rightarrow> task_world") (while_closing: "task_world \<Rightarrow> task_world")
      (afterwards: "task_world \<Rightarrow> task_world")

definition select_task :: "peer_lib \<Rightarrow> string \<Rightarrow> unit io \<Rightarrow> select_branch \<Rightarrow> unit peer_io" where
  "select_task P prefix_text task branch w =
     (case branch of
        Disconnected progress closing after \<Rightarrow> (Returns (Ok ()), w\<lparr> pw_task := progress (pw_task w) \<rparr>)
      | TaskEnds \<Rightarrow>
          (case task (pw_task w) of
             (Ok u, t) \<Rightarrow> (Returns (Ok ()), w\<lparr> pw_task := t \<rparr>)
           | (Err e, t) \<Rightarrow> (Returns (Err e), w\<lparr> pw_task := t \<rparr>)
           | (Panic p, t) \<Rightarrow> (Returns (Err (Anyhow (prefix_text @ pl_join_error P p))), w\<lparr> pw_task := t \<rparr>)))"

text \<open>What a detached task does between the status Finished and the end of the session, and later.\<close>

definition detached_closing :: "select_branch \<Rightarrow> unit peer_io" where
  "detached_closing branch w =
     (Returns (Ok ()),
      case branch of TaskEnds \<Rightarrow> w | Disconnected progress closing after \<Rightarrow> w\<lparr> pw_task := closing (pw_task w) \<rparr>)"

definition detached_afterwards :: "select_branch \<Rightarrow> peer_world \<Rightarrow> peer_world" where
  "detached_afterwards branch w =
     (case branch of TaskEnds \<Rightarrow> w | Disconnected progress closing after \<Rightarrow> w\<lparr> pw_task := after (pw_task w) \<rparr>)"

definition finish_session :: "peer_lib \<Rightarrow> select_branch \<Rightarrow> unit peer_io" where
  "finish_session P branch =
     p_bind (p_task (io_ignore (send_status Finished))) (\<lambda>_.
     p_bind (detached_closing branch) (\<lambda>_. close_connection P))"

section \<open>The offering side\<close>

text \<open>
  Waiting for the answer: \<open>early\<close> is what the listener gets between sending the offer and
  registering the callback, \<open>late\<close> everything after. The callback of this session is \<open>True\<close>. It
  stays in the table when the signaling connection ends, so the wait does not end then; it ends with
  an error only when another registration of the session drops the callback.
\<close>

definition wait_result :: "string \<Rightarrow> bool listener \<Rightarrow> string progress" where
  "wait_result session_id l =
     (case find fst (called l) of
        Some (own, sdp) \<Rightarrow> Returns (Ok (sdp_sdp sdp))
      | None \<Rightarrow> if map_of (callbacks l) session_id = Some True then Waits else Returns (Err (Lib ''rx_answer'')))"

definition await_answer :: "string \<Rightarrow> bool listener_event list \<Rightarrow> bool listener_event list \<Rightarrow> string progress" where
  "await_answer session_id early late =
     wait_result session_id
       (run_listener late (on_answer session_id True (run_listener early start_listener)))"

record session_env =
  se_stun_servers :: "string list"
  se_writer_gone :: bool
  se_branch :: select_branch

definition open_data_channel :: "peer_lib \<Rightarrow> session_env \<Rightarrow> unit peer_io" where
  "open_data_channel P env =
     p_bind (create_peer_connection P (se_stun_servers env)) (\<lambda>_.
     p_check ''create_data_channel'' (pl_create_data_channel P CHANNEL_LABEL))"

definition offer_session ::
  "('sk, 'vk, 'rk) crypto_lib \<Rightarrow> zlib_lib \<Rightarrow> rtc_codec \<Rightarrow> peer_lib \<Rightarrow> session_env \<Rightarrow> uuid \<Rightarrow> string \<Rightarrow>
     bool listener_event list \<Rightarrow> bool listener_event list \<Rightarrow> ('sk, 'vk, 'rk) send_config \<Rightarrow> unit peer_io" where
  "offer_session L Z C P env target_id session_id early late cfg =
     p_bind (open_data_channel P env) (\<lambda>_.
     p_bind (local_description P (pl_create_offer P) ''Could not generate local_description'') (\<lambda>local_sdp.
     p_bind (p_queue (send_offer (se_writer_gone env) session_id target_id (encode_sdp L Z local_sdp))) (\<lambda>_.
     p_bind (\<lambda>w. (await_answer session_id early late, w)) (\<lambda>remote_desc.
     p_bind (sdp_exchanged P) (\<lambda>_.
     p_bind (p_of (decode_sdp L Z remote_desc)) (\<lambda>answer.
     p_bind (p_check ''answer'' (pl_answer_valid P answer)) (\<lambda>_.
     p_bind (set_remote_description P answer) (\<lambda>_.
     p_bind (select_task P ''Sending error: '' (send_task L C cfg) (se_branch env)) (\<lambda>_.
     finish_session P (se_branch env))))))))))"

section \<open>The accepting side\<close>

text \<open>\<open>on_data_channel\<close>: only a channel with the right label is handed to the task.\<close>

definition channel_found :: "string list \<Rightarrow> bool" where
  "channel_found opened_labels = list_ex (\<lambda>label. label = CHANNEL_LABEL) opened_labels"

definition accept_session ::
  "('sk, 'vk, 'rk) crypto_lib \<Rightarrow> zlib_lib \<Rightarrow> rtc_codec \<Rightarrow> peer_lib \<Rightarrow> session_env \<Rightarrow> ws_server_sdp_message \<Rightarrow>
     string list \<Rightarrow> ('sk, 'vk, 'rk) receive_config \<Rightarrow> unit peer_io" where
  "accept_session L Z C P env offer opened_labels cfg =
     p_bind (create_peer_connection P (se_stun_servers env)) (\<lambda>_.
     p_bind (p_of (decode_sdp L Z (sdp_sdp offer))) (\<lambda>remote_desc_sdp.
     p_bind (p_check ''offer'' (pl_offer_valid P remote_desc_sdp)) (\<lambda>_.
     p_bind (set_remote_description P remote_desc_sdp) (\<lambda>_.
     p_bind (local_description P (pl_create_answer P) ''generate local_description failed!'') (\<lambda>local_sdp.
     p_bind (p_queue (send_answer (se_writer_gone env) (sdp_session_id offer) (ci_id (sdp_peer offer))
               (encode_sdp L Z local_sdp))) (\<lambda>_.
     p_bind (sdp_exchanged P) (\<lambda>_.
     p_bind (select_task P ''Receiving error: ''
               (receive_task L C (cfg\<lparr> rc_opened := channel_found opened_labels \<rparr>)) (se_branch env)) (\<lambda>_.
     finish_session P (se_branch env)))))))))"

section \<open>Specification vocabulary\<close>

text \<open>What the wait ends with, read off the events after the registration.\<close>

fun first_answer :: "string \<Rightarrow> bool listener_event list \<Rightarrow> string progress" where
  "first_answer session_id [] = Waits"
| "first_answer session_id (Register s cb # es) =
     (if s = session_id then Returns (Err (Lib ''rx_answer'')) else first_answer session_id es)"
| "first_answer session_id (Incoming m # es) =
     (case m of
        Answer sdp \<Rightarrow>
          if sdp_session_id sdp = session_id then Returns (Ok (sdp_sdp sdp)) else first_answer session_id es
      | _ \<Rightarrow> first_answer session_id es)"
| "first_answer session_id (e # es) = first_answer session_id es"

text \<open>Registrations of other sessions.\<close>

fun foreign :: "bool listener_event \<Rightarrow> bool" where
  "foreign (Register s cb) \<longleftrightarrow> \<not> cb"
| "foreign e \<longleftrightarrow> True"

text \<open>
  A session queues nothing, or one message made of its local description; it sets no remote
  description, or one that \<open>ok\<close> accepts.
\<close>

definition announces :: "peer_lib \<Rightarrow> (string \<Rightarrow> ws_client_message) \<Rightarrow> peer_world \<Rightarrow> bool" where
  "announces P message w \<longleftrightarrow>
     pw_queued w = [] \<or> (\<exists>sdp. pl_local_description P = Some sdp \<and> pw_queued w = [message sdp])"

definition adopts :: "(string \<Rightarrow> bool) \<Rightarrow> peer_world \<Rightarrow> bool" where
  "adopts ok w \<longleftrightarrow> pw_remote w = None \<or> (\<exists>a. pw_remote w = Some a \<and> ok a)"

text \<open>
  The application listens to the statuses. Whatever part of the task is over when the connection is
  lost, and whatever it does detached, are steps of a task.
\<close>

definition listens :: "peer_world \<Rightarrow> bool" where
  "listens w \<longleftrightarrow> status_dropped (pw_task w) = (\<lambda>_. False)"

definition task_steps :: "select_branch \<Rightarrow> bool" where
  "task_steps branch \<longleftrightarrow>
     (case branch of
        TaskEnds \<Rightarrow> True
      | Disconnected progress closing after \<Rightarrow>
          (\<forall>t. same_environment t (progress t) \<and> same_environment t (closing t) \<and> same_environment t (after t)))"

text \<open>
  The statuses of a session that reached its end: the exchange of descriptions, those of the task,
  Finished, and those of the task once it is detached.
\<close>

definition finished_report :: "rtc_status list \<Rightarrow> select_branch \<Rightarrow> rtc_status list \<Rightarrow> bool" where
  "finished_report past branch sts \<longleftrightarrow>
     (\<exists>before detached. sts = past @ SdpExchanged # before @ Finished # detached \<and>
        list_all task_status (before @ detached) \<and> (branch = TaskEnds \<longrightarrow> detached = []))"

text \<open>Two concrete sessions whose connection is lost as soon as both descriptions are set.\<close>

definition demo_peer :: "string \<Rightarrow> peer_lib" where
  "demo_peer sdp =
     \<lparr> pl_new_peer_connection = (\<lambda>_. True), pl_create_data_channel = (\<lambda>_. True), pl_create_offer = Some sdp,
       pl_create_answer = Some sdp, pl_set_local = (\<lambda>_. True), pl_local_description = Some sdp,
       pl_offer_valid = (\<lambda>_. True), pl_answer_valid = (\<lambda>_. True), pl_set_remote = (\<lambda>_. True),
       pl_close = True, pl_join_error = id \<rparr>"

definition demo_zlib :: zlib_lib where
  "demo_zlib = \<lparr> zlib_compress = rev, zlib_decompress = (\<lambda>b. Some (rev b)) \<rparr>"

definition demo_env :: session_env where
  "demo_env = \<lparr> se_stun_servers = [], se_writer_gone = False, se_branch = Disconnected id id id \<rparr>"

definition fresh_session :: peer_world where
  "fresh_session = \<lparr> pw_task = fresh_world [] [], pw_queued = [], pw_remote = None, pw_closed = False \<rparr>"

definition demo_message :: "string \<Rightarrow> uuid \<Rightarrow> ws_client_sdp_message" where
  "demo_message sdp target =
     \<lparr> csdp_session_id = ''s'', csdp_target = target, csdp_sdp = encode_sdp demo_crypto demo_zlib sdp \<rparr>"

definition demo_offer :: ws_server_sdp_message where
  "demo_offer =
     \<lparr> sdp_peer = client_info_from (demo_info ''A'') 1, sdp_session_id = ''s'',
       sdp_sdp = encode_sdp demo_crypto demo_zlib ''v=A'' \<rparr>"

definition demo_answers :: "bool listener_event list" where
  "demo_answers =
     [Register ''t'' False,
      Incoming (wrapper_message (client_info_from (demo_info ''B'') 2) (WrapAnswer (demo_message ''v=B'' 1)))]"

section \<open>Waiting for the answer\<close>

text \<open>The callbacks of this session that are still in the table, and whether one was called.\<close>

definition no_own_call :: "bool listener \<Rightarrow> bool" where
  "no_own_call l \<longleftrightarrow> find fst (called l) = None"

lemma find_append_left: "find P xs = Some x \<Longrightarrow> find P (xs @ ys) = Some x"
  by (induction xs) auto

lemma find_append_None: "find P xs = None \<Longrightarrow> find P (xs @ ys) = find P ys"
  by (induction xs) (auto split: if_splits)

lemma listener_exec_found:
  "listener_exec e l = Some l' \<Longrightarrow> find fst (called l) = Some x \<Longrightarrow> find fst (called l') = Some x"
  by (cases e) (auto simp: on_answer_def called_run_callback find_append_left
      split: if_splits list.splits listener_state.splits)

lemma run_found:
  "run_events listener_exec es l = Some l' \<Longrightarrow> find fst (called l) = Some x \<Longrightarrow> find fst (called l') = Some x"
proof (induction es arbitrary: l)
  case (Cons e es)
  then obtain k where "listener_exec e l = Some k" "run_events listener_exec es k = Some l'"
    by (auto simp: bind_eq_Some_conv)
  with Cons.IH Cons.prems(2) listener_exec_found show ?case by blast
qed simp

text \<open>A step leaves the callbacks and the calls alone but for a registration or an answer.\<close>

lemma listener_exec_table:
  assumes "listener_exec e l = Some l'"
  shows "called l' = called l @ (case e of
        Incoming (Answer sdp) \<Rightarrow> (case map_of (callbacks l) (sdp_session_id sdp) of Some cb \<Rightarrow> [(cb, sdp)] | None \<Rightarrow> [])
      | _ \<Rightarrow> [])"
    and "map_of (callbacks l') s = (case e of
        Register s' cb \<Rightarrow> if s = s' then Some cb else map_of (callbacks l) s
      | Incoming (Answer sdp) \<Rightarrow> if sdp_session_id sdp = s then None else map_of (callbacks l) s
      | _ \<Rightarrow> map_of (callbacks l) s)"
  using assms
  by (cases e; auto simp: on_answer_def called_run_callback callbacks_run_callback alist_simps
      split: if_splits list.splits listener_state.splits ws_server_message.splits)+

definition no_own_callback :: "bool listener \<Rightarrow> bool" where
  "no_own_callback l \<longleftrightarrow> no_own_call l \<and> (\<forall>s. map_of (callbacks l) s \<noteq> Some True)"

definition only_own_callback :: "string \<Rightarrow> bool listener \<Rightarrow> bool" where
  "only_own_callback sid l \<longleftrightarrow> no_own_call l \<and> (\<forall>s. map_of (callbacks l) s = Some True \<longleftrightarrow> s = sid)"

lemma no_own_step: "listener_exec e l = Some l' \<Longrightarrow> foreign e \<Longrightarrow> no_own_callback l \<Longrightarrow> no_own_callback l'"
  by (cases e) (auto simp: no_own_callback_def no_own_call_def listener_exec_table find_append_None
      simp del: listener_exec.simps split: ws_server_message.splits option.splits if_splits)

lemma no_own_run:
  "run_events listener_exec es l = Some l' \<Longrightarrow> list_all foreign es \<Longrightarrow> no_own_callback l \<Longrightarrow> no_own_callback l'"
proof (induction es arbitrary: l)
  case (Cons e es)
  then show ?case using no_own_step by (auto simp: bind_eq_Some_conv simp del: listener_exec.simps)
qed simp

lemma only_own_step:
  assumes "listener_exec e l = Some l'" "foreign e" "only_own_callback sid l"
    and "\<And>cb. e \<noteq> Register sid cb" "\<And>sdp. e = Incoming (Answer sdp) \<Longrightarrow> sdp_session_id sdp \<noteq> sid"
  shows "only_own_callback sid l'"
  using assms
  by (cases e) (auto simp: only_own_callback_def no_own_call_def listener_exec_table find_append_None
      simp del: listener_exec.simps split: ws_server_message.splits option.splits if_splits)

lemma wait_result_run:
  "run_events listener_exec es l = Some l' \<Longrightarrow> list_all foreign es \<Longrightarrow> only_own_callback sid l \<Longrightarrow>
   wait_result sid l' = first_answer sid es"
proof (induction es arbitrary: l)
  case Nil
  then show ?case by (auto simp: wait_result_def no_own_call_def only_own_callback_def)
next
  case (Cons e es)
  then obtain k where k: "listener_exec e l = Some k" "run_events listener_exec es k = Some l'"
    by (auto simp: bind_eq_Some_conv)
  have own: "no_own_call l" "map_of (callbacks l) s = Some True \<longleftrightarrow> s = sid" for s
    using Cons.prems(3) by (auto simp: only_own_callback_def)
  consider (again) cb where "e = Register sid cb"
    | (answer) sdp where "e = Incoming (Answer sdp)" "sdp_session_id sdp = sid"
    | (other) "\<And>cb. e \<noteq> Register sid cb" "\<And>sdp. e = Incoming (Answer sdp) \<Longrightarrow> sdp_session_id sdp \<noteq> sid"
    by blast
  then show ?case
  proof cases
    case again
    with k(1) Cons.prems(2) have k': "k = on_answer sid cb l" "\<not> cb" by simp_all
    have "map_of (callbacks k) s \<noteq> Some True" for s
      using own(2) [of s] k'(2) by (simp add: k'(1) on_answer_def alist_simps)
    then have "no_own_callback k"
      using own(1) by (simp add: no_own_callback_def no_own_call_def k'(1) on_answer_def)
    from no_own_run [OF k(2) _ this] Cons.prems(2) again show ?thesis
      by (simp add: wait_result_def no_own_callback_def no_own_call_def)
  next
    case answer
    have "find fst (called k) = Some (True, sdp)"
      using own(1) own(2) [of sid] answer by (simp add: listener_exec_table(1) [OF k(1)] no_own_call_def find_append_None)
    from run_found [OF k(2) this] answer show ?thesis by (simp add: wait_result_def)
  next
    case other
    from only_own_step [OF k(1) _ Cons.prems(3) other] Cons.prems(2) have "only_own_callback sid k" by simp
    from Cons.IH [OF k(2) _ this] Cons.prems(2) have "wait_result sid l' = first_answer sid es" by simp
    with other show ?thesis by (cases e) (auto split: ws_server_message.split)
  qed
qed

section \<open>Weakest preconditions\<close>

text \<open>
  \<open>Q\<close> holds of a result, \<open>E\<close> of the world an error or an endless wait leaves behind; there is no
  panic.
\<close>

definition p_wp :: "'a peer_io \<Rightarrow> ('a \<Rightarrow> peer_world \<Rightarrow> bool) \<Rightarrow> (peer_world \<Rightarrow> bool) \<Rightarrow> peer_world \<Rightarrow> bool" where
  "p_wp m Q E w \<longleftrightarrow>
     (case m w of
        (Returns (Ok x), w') \<Rightarrow> Q x w'
      | (Returns (Err e), w') \<Rightarrow> E w'
      | (Returns (Panic p), w') \<Rightarrow> False
      | (Waits, w') \<Rightarrow> E w')"

named_theorems wp_simps \<open>weakest preconditions of the steps of a session\<close>

lemma p_wp_bind [wp_simps]: "p_wp (p_bind m f) Q E w \<longleftrightarrow> p_wp m (\<lambda>x. p_wp (f x) Q E) E w"
  by (auto simp: p_wp_def p_bind_def split: prod.splits progress.splits res.splits)

lemma p_wp_of [wp_simps]:
  "p_wp (p_of r) Q E w \<longleftrightarrow> (\<forall>x. r = Ok x \<longrightarrow> Q x w) \<and> (\<forall>e. r = Err e \<longrightarrow> E w) \<and> (\<forall>p. r \<noteq> Panic p)"
  by (cases r) (auto simp: p_wp_def p_of_def)

lemma p_wp_check [wp_simps]: "p_wp (p_check c ok) Q E w \<longleftrightarrow> (if ok then Q () w else E w)"
  by (simp add: p_check_def p_wp_of)

lemma p_wp_queue [wp_simps]:
  "p_wp (p_queue (queue_message gone m)) Q E w \<longleftrightarrow>
     (if gone then E w else Q () (w\<lparr> pw_queued := pw_queued w @ [m] \<rparr>))"
  by (simp add: p_wp_def p_queue_def queue_message_def)

lemma p_wp_set_remote [wp_simps]:
  "p_wp (set_remote_description P sdp) Q E w \<longleftrightarrow>
     (if pl_set_remote P sdp then Q () (w\<lparr> pw_remote := Some sdp \<rparr>) else E w)"
  by (simp add: p_wp_def set_remote_description_def)

lemma p_wp_close [wp_simps]:
  "p_wp (close_connection P) Q E w \<longleftrightarrow> (if pl_close P then Q () (w\<lparr> pw_closed := True \<rparr>) else E w)"
  by (simp add: p_wp_def close_connection_def)

lemma p_wp_sdp_exchanged [wp_simps]:
  "p_wp (sdp_exchanged P) Q E w \<longleftrightarrow>
     (if status_dropped (pw_task w) (length (statuses (pw_task w)))
      then (if pl_close P then E (w\<lparr> pw_closed := True \<rparr>) else E w)
      else Q () (w\<lparr> pw_task := (pw_task w)\<lparr> statuses := statuses (pw_task w) @ [SdpExchanged] \<rparr> \<rparr>))"
  by (simp add: p_wp_def sdp_exchanged_def send_status_def p_bind_def close_connection_def p_of_def)

lemma p_wp_select [wp_simps]:
  "p_wp (select_task P pre task branch) Q E w \<longleftrightarrow>
     (case branch of
        Disconnected progress closing after \<Rightarrow> Q () (w\<lparr> pw_task := progress (pw_task w) \<rparr>)
      | TaskEnds \<Rightarrow>
          (case fst (task (pw_task w)) of
             Ok u \<Rightarrow> Q () (w\<lparr> pw_task := snd (task (pw_task w)) \<rparr>)
           | _ \<Rightarrow> E (w\<lparr> pw_task := snd (task (pw_task w)) \<rparr>)))"
  by (simp add: p_wp_def select_task_def split: select_branch.split prod.split res.split)

lemma detached_closing_frame [simp]:
  "pw_queued (snd (detached_closing branch w)) = pw_queued w"
  "pw_remote (snd (detached_closing branch w)) = pw_remote w"
  "pw_closed (snd (detached_closing branch w)) = pw_closed w"
  by (simp_all add: detached_closing_def split: select_branch.split)

lemma p_wp_finish [wp_simps]:
  "p_wp (finish_session P branch) Q E w \<longleftrightarrow>
     (let w' = snd (detached_closing branch (w\<lparr> pw_task := snd (send_status Finished (pw_task w)) \<rparr>)) in
      if pl_close P then Q () (w'\<lparr> pw_closed := True \<rparr>) else E w')"
  by (simp add: finish_session_def p_wp_def p_bind_def p_task_def io_ignore_def close_connection_def
      detached_closing_def Let_def)

lemma p_wp_local_description [wp_simps]:
  "p_wp (local_description P created missing) Q E w \<longleftrightarrow>
     (case created of
        None \<Rightarrow> E w
      | Some d \<Rightarrow> if pl_set_local P d then (case pl_local_description P of None \<Rightarrow> E w | Some l \<Rightarrow> Q l w) else E w)"
  by (cases created; cases "pl_local_description P") (simp_all add: local_description_def wp_simps)

lemma p_wp_await [wp_simps]:
  "p_wp (\<lambda>w. (await_answer sid early late, w)) Q E w \<longleftrightarrow>
     (\<forall>d. await_answer sid early late = Returns (Ok d) \<longrightarrow> Q d w) \<and>
     ((\<forall>d. await_answer sid early late \<noteq> Returns (Ok d)) \<longrightarrow> E w)"
  by (auto simp: p_wp_def await_answer_def wait_result_def split: option.split prod.split)

lemma p_wp_D:
  assumes "p_wp m (\<lambda>x w'. I w') I w" "m w = (r, w')"
  shows "I w'"
  using assms by (auto simp: p_wp_def split: progress.splits res.splits)

lemma decode_sdp_no_panic [simp]: "decode_sdp L Z s \<noteq> Panic p"
  by (auto simp: decode_sdp_def res_bind_eq_Panic map_err_eq_Panic decode_def)

section \<open>Exchange of descriptions\<close>

lemma own_registration:
  assumes "list_all foreign early"
  shows "only_own_callback sid (on_answer sid True (run_listener early start_listener))"
proof -
  have start: "no_own_callback start_listener"
    by (simp add: start_listener_def no_own_callback_def no_own_call_def)
  obtain pre post where "early = pre @ post" "run_events listener_exec pre start_listener = Some (run_listener early (start_listener :: bool listener))"
    using run_listener_prefix by blast
  with no_own_run start assms have "no_own_callback (run_listener early start_listener)" by auto
  then show ?thesis
    by (auto simp: no_own_callback_def only_own_callback_def no_own_call_def on_answer_def alist_simps)
qed

text \<open>The wait sees the events up to the first one that cannot happen.\<close>

lemma await_answer_prefix:
  assumes "list_all foreign early" "list_all foreign late"
  obtains pre post where "late = pre @ post" "await_answer session_id early late = first_answer session_id pre"
proof -
  let ?l = "on_answer session_id True (run_listener early start_listener)"
  obtain pre post where pre: "late = pre @ post" "run_events listener_exec pre ?l = Some (run_listener late ?l)"
    using run_listener_prefix by blast
  with wait_result_run [OF pre(2) _ own_registration [OF assms(1)]] assms(2)
  have "await_answer session_id early late = first_answer session_id pre" by (simp add: await_answer_def)
  with pre(1) that show ?thesis by blast
qed

text \<open>What a session leaves behind, whatever its result.\<close>

lemma offer_session_effects:
  assumes "offer_session L Z C P env target sid early late cfg w = (r, w')"
    and "pw_queued w = []" "pw_remote w = None"
  shows "announces P (\<lambda>sdp. ClientOffer
           \<lparr> csdp_session_id = sid, csdp_target = target, csdp_sdp = encode_sdp L Z sdp \<rparr>) w' \<and>
         adopts (\<lambda>a. \<exists>d. await_answer sid early late = Returns (Ok d) \<and> decode_sdp L Z d = Ok a) w'"
    (is "?I w'")
proof -
  have "p_wp (offer_session L Z C P env target sid early late cfg) (\<lambda>x. ?I) ?I w"
    using assms(2,3)
    by (auto simp: offer_session_def open_data_channel_def create_peer_connection_def send_offer_def announces_def adopts_def wp_simps Let_def
        split: option.split select_branch.split res.split)
  from p_wp_D [OF this assms(1)] show ?thesis .
qed

lemma accept_session_effects:
  assumes "accept_session L Z C P env offer labels cfg w = (r, w')"
    and "pw_queued w = []" "pw_remote w = None"
  shows "announces P (\<lambda>sdp. ClientAnswer
           \<lparr> csdp_session_id = sdp_session_id offer, csdp_target = ci_id (sdp_peer offer),
             csdp_sdp = encode_sdp L Z sdp \<rparr>) w' \<and>
         adopts (\<lambda>a. decode_sdp L Z (sdp_sdp offer) = Ok a) w'"
    (is "?I w'")
proof -
  have "p_wp (accept_session L Z C P env offer labels cfg) (\<lambda>x. ?I) ?I w"
    using assms(2,3)
    by (auto simp: accept_session_def create_peer_connection_def send_answer_def announces_def adopts_def wp_simps Let_def
        split: option.split select_branch.split res.split)
  from p_wp_D [OF this assms(1)] show ?thesis .
qed

lemma first_answer_append: "first_answer sid pre = Waits \<Longrightarrow> first_answer sid (pre @ es) = first_answer sid es"
proof (induction pre)
  case (Cons e pre)
  then show ?case by (cases e) (auto split: ws_server_message.splits if_splits)
qed simp

lemma first_answer_shorter: "first_answer sid (pre @ es) = Waits \<Longrightarrow> first_answer sid pre = Waits"
proof (induction pre)
  case (Cons e pre)
  then show ?case by (cases e) (auto split: ws_server_message.splits if_splits)
qed simp

text \<open>A prefix of the events contains the first answer or none.\<close>

lemma first_answer_prefix:
  assumes "before @ Incoming (Answer sdp) # after = pre @ post" "first_answer sid before = Waits" "sdp_session_id sdp = sid"
  shows "first_answer sid pre \<in> {Waits, Returns (Ok (sdp_sdp sdp))}"
proof (cases "length pre \<le> length before")
  case True
  with assms(1) have "before = pre @ drop (length pre) before"
    by (metis append_eq_append_conv_if append_take_drop_id)
  with first_answer_shorter assms(2) show ?thesis by (metis insertI1)
next
  case False
  with assms(1) obtain r where r: "pre = before @ r" "r @ post = Incoming (Answer sdp) # after" "r \<noteq> []"
    by (auto simp: append_eq_append_conv2)
  then obtain r' where "pre = before @ Incoming (Answer sdp) # r'" by (cases r) auto
  with first_answer_append [OF assms(2)] assms(3) show ?thesis by simp
qed

section \<open>The end of a session\<close>

lemma same_environment_task:
  "same_environment w (snd (send_task L C cfg w))" "same_environment w (snd (receive_task L C rcfg w))"
  using se.moves_send_task [of L C cfg] se.moves_receive_task [of L C rcfg] by (auto simp: moves_def)

text \<open>The select leaves a world of the same listener with statuses of the task added.\<close>

lemma select_reports:
  fixes w :: peer_world
  assumes "task_steps branch" "\<And>t. same_environment t (snd (task t))"
    and "\<And>w'. same_environment (pw_task w) (pw_task w') \<Longrightarrow> pw_closed w' = pw_closed w \<Longrightarrow> Q () w' \<and> E w'"
  shows "p_wp (select_task P pre task branch) Q E w"
  using assms(1) assms(2) [of "pw_task w"]
  by (auto simp: wp_simps task_steps_def assms(3) split: select_branch.split res.split)

lemma finish_reports:
  assumes "task_steps branch" "listens w" "statuses (pw_task w) = past @ SdpExchanged # before" "list_all task_status before"
    and "\<not> pw_closed w"
  shows "p_wp (finish_session P branch)
     (\<lambda>x w'. pw_closed w' \<and> listens w' \<and> finished_report past branch (statuses (pw_task w')))
     (\<lambda>w'. \<not> pw_closed w' \<and> listens w') w"
proof -
  let ?t = "(pw_task w)\<lparr> statuses := statuses (pw_task w) @ [Finished] \<rparr>"
  have sent: "snd (send_status Finished (pw_task w)) = ?t"
    using assms(2) by (simp add: send_status_def listens_def)
  obtain t where t: "snd (detached_closing branch (w\<lparr> pw_task := ?t \<rparr>)) = w\<lparr> pw_task := t \<rparr>"
      "same_environment ?t t" "branch = TaskEnds \<longrightarrow> t = ?t"
  proof (cases branch)
    case TaskEnds
    then show ?thesis by (intro that [of ?t]) (simp_all add: detached_closing_def same_environment_def)
  next
    case (Disconnected progress closing after)
    then show ?thesis using assms(1) by (intro that [of "closing ?t"]) (simp_all add: detached_closing_def task_steps_def)
  qed
  then obtain detached where d: "statuses t = past @ SdpExchanged # before @ Finished # detached"
      "list_all task_status detached" "branch = TaskEnds \<longrightarrow> detached = []"
    using assms(3) by (auto simp: same_environment_def)
  then have "finished_report past branch (statuses t)"
    using assms(4) unfolding finished_report_def by (intro exI [of _ before] exI [of _ detached]) simp
  with t assms(2,5) show ?thesis by (simp add: wp_simps sent listens_def same_environment_def)
qed

lemma session_tail:
  assumes "task_steps branch" "listens w" "\<not> pw_closed w" "statuses (pw_task w) = past @ [SdpExchanged]"
    and "\<And>t. same_environment t (snd (task t))"
  shows "p_wp (p_bind (select_task P pre task branch) (\<lambda>_. finish_session P branch))
     (\<lambda>x w'. pw_closed w' \<and> listens w' \<and> finished_report past branch (statuses (pw_task w')))
     (\<lambda>w'. \<not> pw_closed w' \<and> listens w') w"
  unfolding p_wp_bind
proof (rule select_reports [OF assms(1,5)])
  fix w' :: peer_world
  assume w': "same_environment (pw_task w) (pw_task w')" "pw_closed w' = pw_closed w"
  then obtain before where "statuses (pw_task w') = past @ SdpExchanged # before" "list_all task_status before"
    using assms(4) by (auto simp: same_environment_def)
  moreover have "listens w'" using w'(1) assms(2) by (simp add: listens_def same_environment_def)
  ultimately show "p_wp (finish_session P branch)
      (\<lambda>x w'. pw_closed w' \<and> listens w' \<and> finished_report past branch (statuses (pw_task w')))
      (\<lambda>w'. \<not> pw_closed w' \<and> listens w') w' \<and> \<not> pw_closed w' \<and> listens w'"
    using finish_reports assms(1,3) w'(2) by blast
qed

lemma listens_simps:
  "listens w \<Longrightarrow> \<not> status_dropped (pw_task w) n"
  "listens (w\<lparr> pw_queued := q \<rparr>) = listens w" "listens (w\<lparr> pw_remote := d \<rparr>) = listens w"
  "listens (w\<lparr> pw_closed := b \<rparr>) = listens w"
  "listens (w\<lparr> pw_task := (pw_task w')\<lparr> statuses := sts \<rparr> \<rparr>) = listens w'"
  by (simp_all add: listens_def)

lemma session_ends:
  assumes "listens w" "\<not> pw_closed w" "task_steps (se_branch env)"
  shows "p_wp (offer_session L Z C P env target sid early late cfg)
     (\<lambda>x w'. pw_closed w' \<and> listens w' \<and> finished_report (statuses (pw_task w)) (se_branch env) (statuses (pw_task w')))
     (\<lambda>w'. \<not> pw_closed w' \<and> listens w') w" (is ?offer)
    and "p_wp (accept_session L Z C P env offer labels rcfg)
     (\<lambda>x w'. pw_closed w' \<and> listens w' \<and> finished_report (statuses (pw_task w)) (se_branch env) (statuses (pw_task w')))
     (\<lambda>w'. \<not> pw_closed w' \<and> listens w') w" (is ?accept)
proof -
  note tail = session_tail [OF assms(3), unfolded p_wp_bind]
  note before = open_data_channel_def create_peer_connection_def send_offer_def send_answer_def
    p_wp_bind p_wp_of p_wp_check p_wp_queue p_wp_set_remote p_wp_sdp_exchanged p_wp_local_description p_wp_await
  show ?offer
    unfolding offer_session_def
    using assms(1,2) by (auto simp: before listens_simps intro!: tail same_environment_task split: option.split)
  show ?accept
    unfolding accept_session_def
    using assms(1,2) by (auto simp: before listens_simps intro!: tail same_environment_task split: option.split)
qed

section \<open>Properties\<close>

text \<open>
  C40: in every possible order of events, the offering side takes the first answer of its session
  that the listener handles after it registered for it; an answer handled between sending the offer
  and registering is lost, and without another one the wait never ends.
\<close>

theorem awaited_answer_exact:
  assumes "list_all foreign early" "list_all foreign late"
    and "run_events listener_exec (early @ Register session_id True # late) start_listener = Some l"
  shows "await_answer session_id early late = first_answer session_id late"
proof -
  from assms(3) obtain k where k: "run_events listener_exec early start_listener = Some k"
      "run_events listener_exec late (on_answer session_id True k) = Some l"
    by (auto simp: run_events_append bind_eq_Some_conv)
  have "run_listener early start_listener = k" using run_listener_run k(1) .
  with wait_result_run [OF k(2) assms(2)] own_registration [OF assms(1), of session_id] run_listener_run [OF k(2)]
  show ?thesis by (simp add: await_answer_def)
qed

theorem awaited_answer_exact_witness:
  "await_answer ''s'' demo_answers [] = Waits \<and>
   await_answer ''s'' [] demo_answers = Returns (Ok (encode_sdp demo_crypto demo_zlib ''v=B''))"
proof -
  have foreign: "list_all foreign demo_answers" by (simp add: demo_answers_def)
  obtain k l where "run_events listener_exec (demo_answers @ Register ''s'' True # []) start_listener = Some k"
      "run_events listener_exec ([] @ Register ''s'' True # demo_answers) start_listener = Some l"
    by (simp add: demo_answers_def start_listener_def on_answer_def send_on_def run_callback_def demo_message_def LISTENER_CAPACITY_def)
  from awaited_answer_exact [OF foreign _ this(1)] awaited_answer_exact [OF _ foreign this(2)] show ?thesis
    by (simp add: demo_answers_def demo_message_def)
qed

text \<open>
  C11: when the server relays the offer of one side and the answer of the other, neither side ever
  sets a remote description that is not the local description of its peer, and the answer goes to
  the sender of the offer under its session.
\<close>

theorem descriptions_agree:
  assumes "base64_engine (base64_encode L) (base64_decode L)"
    and "\<And>b. zlib_decompress Z (zlib_compress Z b) = Some b"
    and "\<And>sdp. pl_local_description PA = Some sdp \<or> pl_local_description PB = Some sdp \<Longrightarrow>
           utf8_valid (map unat (as_bytes sdp))"
    and "offer_session L Z CA PA envA target sid early late cfgA wA = (rA, wA')"
    and "accept_session L Z CB PB envB offer labels cfgB wB = (rB, wB')"
    and "pw_queued wA = []" "pw_remote wA = None" "pw_queued wB = []" "pw_remote wB = None"
    and "ClientOffer m \<in> set (pw_queued wA')" "wrapper_message infoA (WrapOffer m) = Offer offer"
    and "ClientAnswer m' \<in> set (pw_queued wB')"
    and "late = before @ Incoming (wrapper_message infoB (WrapAnswer m')) # after"
    and "list_all foreign early" "list_all foreign late" "first_answer sid before = Waits"
  shows "pw_remote wB' \<in> {None, pl_local_description PA} \<and> pw_remote wA' \<in> {None, pl_local_description PB} \<and>
     csdp_target m = target \<and> csdp_session_id m' = sid \<and> csdp_target m' = ci_id infoA"
proof -
  note A = offer_session_effects [OF assms(4,6,7)] and B = accept_session_effects [OF assms(5,8,9)]
  from A assms(10) obtain sdpA where a: "pl_local_description PA = Some sdpA"
    "m = \<lparr> csdp_session_id = sid, csdp_target = target, csdp_sdp = encode_sdp L Z sdpA \<rparr>"
    by (auto simp: announces_def)
  with assms(11) have offer: "offer = \<lparr> sdp_peer = infoA, sdp_session_id = sid, sdp_sdp = encode_sdp L Z sdpA \<rparr>"
    by simp
  from B assms(12) obtain sdpB where b: "pl_local_description PB = Some sdpB"
    "m' = \<lparr> csdp_session_id = sid, csdp_target = ci_id infoA, csdp_sdp = encode_sdp L Z sdpB \<rparr>"
    by (auto simp: announces_def offer)
  obtain pre post where late: "late = pre @ post" "await_answer sid early late = first_answer sid pre"
    using await_answer_prefix [OF assms(14,15)] .
  have "await_answer sid early late \<in> {Waits, Returns (Ok (encode_sdp L Z sdpB))}"
    using first_answer_prefix [OF _ assms(16), of "\<lparr> sdp_peer = infoB, sdp_session_id = sid, sdp_sdp = encode_sdp L Z sdpB \<rparr>"
        after pre post] late assms(13) b(2) by simp
  moreover have "decode_sdp L Z (encode_sdp L Z sdpA) = Ok sdpA" "decode_sdp L Z (encode_sdp L Z sdpB) = Ok sdpB"
    using sdp_roundtrip [OF assms(1,2)] assms(3) a(1) b(1) by simp_all
  ultimately show ?thesis using A B a b offer by (auto simp: adopts_def)
qed

theorem descriptions_agree_witness:
  "(let (rA, wA') = offer_session demo_crypto demo_zlib plain_codec (demo_peer ''v=A'') demo_env 2 ''s'' []
          demo_answers demo_sender fresh_session;
        (rB, wB') = accept_session demo_crypto demo_zlib plain_codec (demo_peer ''v=B'') demo_env demo_offer
          [''data''] demo_receiver fresh_session
    in pw_remote wB' \<noteq> None \<and> pw_remote wB' \<in> {None, Some ''v=A''} \<and>
       pw_remote wA' \<noteq> None \<and> pw_remote wA' \<in> {None, Some ''v=B''})"
proof -
  let ?a = "offer_session demo_crypto demo_zlib plain_codec (demo_peer ''v=A'') demo_env 2 ''s'' []
          demo_answers demo_sender fresh_session"
  let ?b = "accept_session demo_crypto demo_zlib plain_codec (demo_peer ''v=B'') demo_env demo_offer
          [''data''] demo_receiver fresh_session"
  have a: "ClientOffer (demo_message ''v=A'' 2) \<in> set (pw_queued (snd ?a))" "pw_remote (snd ?a) \<noteq> None" by code_simp+
  have b: "ClientAnswer (demo_message ''v=B'' 1) \<in> set (pw_queued (snd ?b))" "pw_remote (snd ?b) \<noteq> None" by code_simp+
  have utf8: "utf8_valid (map unat (as_bytes ''v=A''))" "utf8_valid (map unat (as_bytes ''v=B''))" by code_simp+
  have "pw_remote (snd ?b) \<in> {None, pl_local_description (demo_peer ''v=A'')} \<and>
      pw_remote (snd ?a) \<in> {None, pl_local_description (demo_peer ''v=B'')} \<and>
      csdp_target (demo_message ''v=A'' 2) = 2 \<and> csdp_session_id (demo_message ''v=B'' 1) = ''s'' \<and>
      csdp_target (demo_message ''v=B'' 1) = ci_id (client_info_from (demo_info ''A'') 1)"
    by (rule descriptions_agree [OF demo_base64 _ _ prod.collapse [symmetric] prod.collapse [symmetric]
          _ _ _ _ a(1) _ b(1), where before = "[Register ''t'' False]" and after = "[]"
            and infoB = "client_info_from (demo_info ''B'') 2"])
      (use utf8 in \<open>auto simp: demo_zlib_def demo_peer_def fresh_session_def demo_answers_def demo_message_def demo_offer_def\<close>)
  then show ?thesis using a(2) b(2) by (simp add: case_prod_beta demo_peer_def)
qed

end
