(* ===== verification/App_Bridge.thy ===== *)
theory App_Bridge
  imports Peer_Connection
begin

text \<open>
  The part of \<open>app/rust/src\<close> that is written by hand: signing the client description, starting
  the transfer sessions, the controllers through which the application answers them, the buffering
  of received data, and key pairs.

  The receiving end of a channel is the list of what its sender will send; a slot that is taken once
  is an \<open>option\<close>; the sending end of a oneshot channel is whether somebody still waits for it.
  The facts: the application sees how a session ended, a selection or a refusal reaches the task at
  most once, and buffering changes neither the bytes nor their order.
\<close>

section \<open>Connecting\<close>

record proposing_client_info =
  pc_alias :: string
  pc_version :: string
  pc_device_model :: "string option"
  pc_device_type :: "device_type option"

definition sign ::
  "('sk, 'vk, 'rk) crypto_lib \<Rightarrow> u64 option \<Rightarrow> proposing_client_info \<Rightarrow> 'sk \<Rightarrow> client_info_without_id res" where
  "sign L now info signing_key =
     res_bind (generate_token_timestamp L now signing_key) (\<lambda>token.
     Ok \<lparr> cw_alias = pc_alias info, cw_version = pc_version info, cw_device_model = pc_device_model info,
          cw_device_type = pc_device_type info, cw_token = token \<rparr>)"

datatype 'a sink_event = SinkItem 'a | SinkError string

text \<open>
  What \<open>connect\<close> puts into the sink and how it ends: one error, or, once the application's callback
  has taken the connection, every message it receives from the listener until the socket ends. It
  waits for ever where the signaling client does, the callback never answers, or the socket stays
  open. \<open>w\<close> is whatever state the callback works on.
\<close>

definition receive_all :: "ws_server_message list \<Rightarrow> ws_server_message list" where
  "receive_all messages =
     taken_messages (run_listener (concat (map (\<lambda>m. [Incoming m, AppReceives]) messages)) (start_listener :: unit listener))"

definition bridge_connect ::
  "('sk, 'vk, 'rk) crypto_lib \<Rightarrow> u64 option \<Rightarrow> (client_info_without_id \<Rightarrow> string option) \<Rightarrow>
     (string \<Rightarrow> ws_server_message option) \<Rightarrow> (string \<Rightarrow> ws_socket option) \<Rightarrow>
     string \<Rightarrow> proposing_client_info \<Rightarrow> string \<Rightarrow> (client_info \<Rightarrow> 'w \<Rightarrow> unit progress \<times> 'w) \<Rightarrow>
     'w \<Rightarrow> (ws_server_message sink_event list \<times> unit progress) \<times> 'w" where
  "bridge_connect L now to_json from_json connect_async uri info private_key on_connection w =
     (case parse_private_key L private_key of
        Panic p \<Rightarrow> (([], Returns (Panic p)), w)
      | Err e \<Rightarrow> (([SinkError ''Invalid private key''], Returns (Ok ())), w)
      | Ok signing_key \<Rightarrow>
          (case sign L now info signing_key of
             Panic p \<Rightarrow> (([], Returns (Panic p)), w)
           | Err e \<Rightarrow> (([SinkError ''Invalid client info''], Returns (Ok ())), w)
           | Ok client_info \<Rightarrow>
               (case signaling_connect L to_json from_json connect_async uri client_info of
                  None \<Rightarrow> (([], Waits), w)
                | Some (Panic p) \<Rightarrow> (([], Returns (Panic p)), w)
                | Some (Err e) \<Rightarrow> (([SinkError (error_text e)], Returns (Ok ())), w)
                | Some (Ok client) \<Rightarrow>
                    (let socket = the (connect_async (signaling_uri L (the (to_json client_info)) uri));
                         messages = reader_messages from_json True (ws_frames socket)
                     in case on_connection client w of
                          (Returns (Ok u), w') \<Rightarrow>
                            ((map SinkItem (receive_all messages),
                              if ws_closed socket then Returns (Ok ()) else Waits), w')
                        | (r, w') \<Rightarrow> (([], r), w')))))"

lemma receive_all_eq [simp]: "receive_all messages = messages"
  by (simp add: receive_all_def receiving_application) (simp add: receiving_application start_listener_def)

section \<open>Starting the sessions\<close>

record expecting_public_key =
  ep_public_key :: string
  ep_kind :: string

definition task_keys ::
  "('sk, 'vk, 'rk) crypto_lib \<Rightarrow> string \<Rightarrow> expecting_public_key option \<Rightarrow>
     ('sk \<times> ('vk, 'rk) verifying_token_key option) res" where
  "task_keys L private_key expecting =
     res_bind (parse_private_key L private_key) (\<lambda>signing_key.
     case expecting of
       None \<Rightarrow> Ok (signing_key, None)
     | Some key \<Rightarrow>
         res_bind (parse_public_key L (ep_public_key key) (ep_kind key)) (\<lambda>k. Ok (signing_key, Some k)))"

text \<open>The spawned task reports a failure as a status; a pairing request is always refused.\<close>

definition report_failure :: "unit peer_io \<Rightarrow> unit peer_io" where
  "report_failure session w =
     (case session w of
        (Returns (Err e), w') \<Rightarrow> p_task (io_ignore (send_status (StatusError (error_text e)))) w'
      | r \<Rightarrow> r)"

definition bridge_pair_reply :: pair_reply where
  "bridge_pair_reply = PairReply False"

text \<open>
  The calls fail on bad keys before anything is spawned, otherwise they return the spawned session.
  \<open>user\<close> holds what the application will answer through the controller.
\<close>

definition bridge_send_offer ::
  "('sk, 'vk, 'rk) crypto_lib \<Rightarrow> zlib_lib \<Rightarrow> rtc_codec \<Rightarrow> peer_lib \<Rightarrow> session_env \<Rightarrow> string \<Rightarrow>
     bool listener_event list \<Rightarrow> bool listener_event list \<Rightarrow> ('sk, 'vk, 'rk) send_config \<Rightarrow>
     uuid \<Rightarrow> string \<Rightarrow> expecting_public_key option \<Rightarrow> pin_config option \<Rightarrow> file_dto list \<Rightarrow> unit peer_io res" where
  "bridge_send_offer L Z C P env session_id early late user target private_key expecting pin_cfg files =
     res_bind (task_keys L private_key expecting) (\<lambda>(signing_key, key).
     Ok (report_failure (offer_session L Z C P env target session_id early late
       (user\<lparr> sc_signing_key := signing_key, sc_expecting_public_key := key, sc_pin := pin_cfg,
              sc_files := files, sc_pair_reply := bridge_pair_reply \<rparr>))))"

definition bridge_accept_offer ::
  "('sk, 'vk, 'rk) crypto_lib \<Rightarrow> zlib_lib \<Rightarrow> rtc_codec \<Rightarrow> peer_lib \<Rightarrow> session_env \<Rightarrow> string list \<Rightarrow>
     ('sk, 'vk, 'rk) receive_config \<Rightarrow> ws_server_sdp_message \<Rightarrow> string \<Rightarrow> expecting_public_key option \<Rightarrow>
     pin_config option \<Rightarrow> unit peer_io res" where
  "bridge_accept_offer L Z C P env opened_labels user offer private_key expecting pin_cfg =
     res_bind (task_keys L private_key expecting) (\<lambda>(signing_key, key).
     Ok (report_failure (accept_session L Z C P env offer opened_labels
       (user\<lparr> rc_signing_key := signing_key, rc_expecting_public_key := key, rc_pin := pin_cfg \<rparr>))))"

section \<open>Streams, slots and PIN prompts\<close>

text \<open>\<open>while let Some(x) = rx.recv().await { let _ = sink.add(x) }\<close> on a receiver that is kept.\<close>

definition drain_stream :: "'a list \<Rightarrow> 'a sink_event list" where
  "drain_stream rx = map SinkItem rx"

text \<open>The same on a receiver that is taken out of its slot first.\<close>

definition listen_stream :: "string \<Rightarrow> 'a list option \<Rightarrow> 'a sink_event list \<times> 'a list option" where
  "listen_stream already slot =
     (case slot of None \<Rightarrow> ([SinkError already], None) | Some rx \<Rightarrow> (drain_stream rx, None))"

text \<open>A oneshot receiver in a slot; inside, \<open>None\<close> means that its sender is dropped.\<close>

definition listen_once :: "string \<Rightarrow> string \<Rightarrow> 'a option option \<Rightarrow> 'a res \<times> 'a option option" where
  "listen_once already closed slot =
     (case slot of
        None \<Rightarrow> (Err (Anyhow already), None)
      | Some channel \<Rightarrow> (of_option (Anyhow closed) channel, None))"

text \<open>A oneshot sender in a slot: the result, the slot, and the value that was delivered.\<close>

definition send_once :: "string \<Rightarrow> string \<Rightarrow> 'a \<Rightarrow> bool option \<Rightarrow> unit res \<times> bool option \<times> 'a option" where
  "send_once already closed x slot =
     (case slot of
        None \<Rightarrow> (Err (Anyhow already), None, None)
      | Some alive \<Rightarrow> if alive then (Ok (), None, Some x) else (Err (Anyhow closed), None, None))"

definition send_pin :: "string \<Rightarrow> bool option \<Rightarrow> unit res \<times> bool option \<times> string option" where
  "send_pin p = send_once ''Pin already sent'' ''Pin channel closed'' p"

text \<open>A new prompt replaces the sender of an unanswered one.\<close>

definition pin_requested :: "bool \<Rightarrow> bool option \<Rightarrow> bool option" where
  "pin_requested alive slot = Some alive"

section \<open>The sender's controller\<close>

record send_controller =
  tx_status_rx :: "rtc_status list"
  tx_selected_rx :: "string list option option"
  tx_error_rx :: "rtc_file_error list"
  tx_pin_tx :: "bool option"
  tx_task_gone :: bool
  tx_files :: "rtc_file list"

text \<open>The controller \<open>send_offer\<close> returns, for what its task will send.\<close>

definition new_send_controller ::
  "rtc_status list \<Rightarrow> string list option \<Rightarrow> rtc_file_error list \<Rightarrow> send_controller" where
  "new_send_controller sts selected errors =
     \<lparr> tx_status_rx = sts, tx_selected_rx = Some selected, tx_error_rx = errors, tx_pin_tx = None,
       tx_task_gone = False, tx_files = [] \<rparr>"

definition tx_listen_status :: "send_controller \<Rightarrow> rtc_status sink_event list \<times> send_controller" where
  "tx_listen_status c = (drain_stream (tx_status_rx c), c\<lparr> tx_status_rx := [] \<rparr>)"

definition tx_listen_error :: "send_controller \<Rightarrow> rtc_file_error sink_event list \<times> send_controller" where
  "tx_listen_error c = (drain_stream (tx_error_rx c), c\<lparr> tx_error_rx := [] \<rparr>)"

definition listen_selected_files :: "send_controller \<Rightarrow> string list res \<times> send_controller" where
  "listen_selected_files c =
     (case listen_once ''Selected files already received'' ''Selected files channel closed'' (tx_selected_rx c) of
        (r, slot) \<Rightarrow> (r, c\<lparr> tx_selected_rx := slot \<rparr>))"

definition tx_send_pin :: "string \<Rightarrow> send_controller \<Rightarrow> (unit res \<times> string option) \<times> send_controller" where
  "tx_send_pin p c =
     (case send_pin p (tx_pin_tx c) of (r, slot, delivered) \<Rightarrow> ((r, delivered), c\<lparr> tx_pin_tx := slot \<rparr>))"

text \<open>
  \<open>send_file\<close> hands a new channel to the task and returns its sending end, here the position of the
  file in \<open>tx_files\<close>; \<open>RTCFileSender::send\<close> adds a block to it.
\<close>

definition tx_send_file :: "string \<Rightarrow> send_controller \<Rightarrow> nat res \<times> send_controller" where
  "tx_send_file file_id c =
     (if tx_task_gone c then (Err (Lib ''send_tx''), c)
      else (Ok (length (tx_files c)),
            c\<lparr> tx_files := tx_files c @ [\<lparr> rf_file_id = file_id, rf_binary = [] \<rparr>] \<rparr>))"

definition file_sender_send :: "nat \<Rightarrow> bytes \<Rightarrow> send_controller \<Rightarrow> unit res \<times> send_controller" where
  "file_sender_send k d c =
     (if tx_task_gone c then (Err (Lib ''binary_tx''), c)
      else (Ok (), c\<lparr> tx_files := (tx_files c)[k := (tx_files c ! k)\<lparr> rf_binary := rf_binary (tx_files c ! k) @ [d] \<rparr>] \<rparr>))"

section \<open>The receiver's controller\<close>

record receive_controller =
  rx_status_rx :: "rtc_status list option"
  rx_files_rx :: "file_dto list option option"
  rx_selected_tx :: "bool option"
  rx_error_rx :: "rtc_file_error list option"
  rx_pin_tx :: "bool option"
  rx_receiving_rx :: "rtc_file list option"
  rx_task_gone :: bool
  rx_selection :: "string list option option"
  rx_file_statuses :: "rtc_send_file_response list"

text \<open>The controller \<open>accept_offer\<close> returns.\<close>

definition new_receive_controller ::
  "bool \<Rightarrow> rtc_status list \<Rightarrow> file_dto list option \<Rightarrow> rtc_file_error list \<Rightarrow> rtc_file list \<Rightarrow> receive_controller" where
  "new_receive_controller alive sts files errors receiving =
     \<lparr> rx_status_rx = Some sts, rx_files_rx = Some files, rx_selected_tx = Some alive, rx_error_rx = Some errors,
       rx_pin_tx = None, rx_receiving_rx = Some receiving, rx_task_gone = False, rx_selection = None,
       rx_file_statuses = [] \<rparr>"

definition listen_status :: "receive_controller \<Rightarrow> rtc_status sink_event list \<times> receive_controller" where
  "listen_status c =
     (case listen_stream ''Status stream already listened to'' (rx_status_rx c) of
        (events, slot) \<Rightarrow> (events, c\<lparr> rx_status_rx := slot \<rparr>))"

definition listen_error :: "receive_controller \<Rightarrow> rtc_file_error sink_event list \<times> receive_controller" where
  "listen_error c =
     (case listen_stream ''Error stream already listened to'' (rx_error_rx c) of
        (events, slot) \<Rightarrow> (events, c\<lparr> rx_error_rx := slot \<rparr>))"

definition listen_files :: "receive_controller \<Rightarrow> file_dto list res \<times> receive_controller" where
  "listen_files c =
     (case listen_once ''Files already received'' ''Files channel closed'' (rx_files_rx c) of
        (r, slot) \<Rightarrow> (r, c\<lparr> rx_files_rx := slot \<rparr>))"

definition rx_send_pin :: "string \<Rightarrow> receive_controller \<Rightarrow> (unit res \<times> string option) \<times> receive_controller" where
  "rx_send_pin p c =
     (case send_pin p (rx_pin_tx c) of (r, slot, delivered) \<Rightarrow> ((r, delivered), c\<lparr> rx_pin_tx := slot \<rparr>))"

text \<open>\<open>rx_selection\<close> is what has reached the task: the selected files, or \<open>None\<close> inside for a refusal.\<close>

definition answer_selection :: "string list option \<Rightarrow> receive_controller \<Rightarrow> unit res \<times> receive_controller" where
  "answer_selection answer c =
     (case send_once ''Selected files already sent'' ''Selected files channel closed'' answer (rx_selected_tx c) of
        (r, slot, delivered) \<Rightarrow>
          (r, c\<lparr> rx_selected_tx := slot,
                 rx_selection := (case delivered of None \<Rightarrow> rx_selection c | Some a \<Rightarrow> Some a) \<rparr>))"

definition send_selection :: "string list \<Rightarrow> receive_controller \<Rightarrow> unit res \<times> receive_controller" where
  "send_selection selection = answer_selection (Some selection)"

definition decline :: "receive_controller \<Rightarrow> unit res \<times> receive_controller" where
  "decline = answer_selection None"

text \<open>Each file of the task becomes a receiver that can be listened to once.\<close>

record file_receiver =
  fv_file_id :: string
  fv_binary_rx :: "bytes list option"

definition listen_receiving :: "receive_controller \<Rightarrow> file_receiver sink_event list \<times> receive_controller" where
  "listen_receiving c =
     (case rx_receiving_rx c of
        None \<Rightarrow> ([SinkError ''Receiving stream already listened to''], c)
      | Some files \<Rightarrow>
          (map (\<lambda>f. SinkItem \<lparr> fv_file_id = rf_file_id f, fv_binary_rx = Some (rf_binary f) \<rparr>) files,
           c\<lparr> rx_receiving_rx := None \<rparr>))"

definition send_file_status :: "rtc_send_file_response \<Rightarrow> receive_controller \<Rightarrow> unit res \<times> receive_controller" where
  "send_file_status st c =
     (if rx_task_gone c then (Err (Lib ''file_status_tx''), c)
      else (Ok (), c\<lparr> rx_file_statuses := rx_file_statuses c @ [st] \<rparr>))"

section \<open>Buffering received data\<close>

definition BUFFER_SIZE :: nat where
  "BUFFER_SIZE = 1024 * 1024"

text \<open>
  \<open>alive k\<close>: the \<open>k\<close>-th send finds its receiver; a failed one ends the task.
\<close>

fun buffer_loop :: "(nat \<Rightarrow> bool) \<Rightarrow> nat \<Rightarrow> bytes \<Rightarrow> bytes list \<Rightarrow> bytes list" where
  "buffer_loop alive k buffer [] = (if buffer \<noteq> [] \<and> alive k then [buffer] else [])"
| "buffer_loop alive k buffer (d # ds) =
     (let buffer' = buffer @ d in
      if length buffer' \<ge> BUFFER_SIZE then
        (if alive k then buffer' # buffer_loop alive (Suc k) [] ds else [])
      else buffer_loop alive k buffer' ds)"

definition buffer_receiver :: "(nat \<Rightarrow> bool) \<Rightarrow> bytes list \<Rightarrow> bytes list" where
  "buffer_receiver alive rx_input = buffer_loop alive 0 [] rx_input"

text \<open>\<open>RTCFileReceiver\<close>: the slot is taken once.\<close>

definition get_file_id :: "file_receiver \<Rightarrow> string" where
  "get_file_id f = fv_file_id f"

definition receive_file_data :: "(nat \<Rightarrow> bool) \<Rightarrow> file_receiver \<Rightarrow> bytes sink_event list res \<times> file_receiver" where
  "receive_file_data alive f =
     (case fv_binary_rx f of
        None \<Rightarrow> (Err (Anyhow ''File receiver listened to''), f)
      | Some rx \<Rightarrow> (Ok (drain_stream (buffer_receiver alive rx)), f\<lparr> fv_binary_rx := None \<rparr>))"

section \<open>Keys and certificates\<close>

record key_pair =
  kp_private_key :: string
  kp_public_key :: string

definition generate_key_pair :: "('sk, 'vk, 'rk) crypto_lib \<Rightarrow> bytes \<Rightarrow> key_pair res" where
  "generate_key_pair L os_rng =
     (let signing_key = generate_key L os_rng in
      res_bind (export_private_key L signing_key) (\<lambda>private_key.
      res_bind (export_public_key L signing_key) (\<lambda>public_key.
      Ok \<lparr> kp_private_key = private_key, kp_public_key = public_key \<rparr>)))"

definition bridge_verify_cert :: "('cert, 'spki, 'pk) x509_lib \<Rightarrow> string \<Rightarrow> string \<Rightarrow> unit res" where
  "bridge_verify_cert X cert public_key = verify_cert_from_pem X cert (Some public_key)"

section \<open>Specification vocabulary\<close>

datatype selection_call = CallSelect "string list" | CallDecline

fun call_answer :: "selection_call \<Rightarrow> string list option" where
  "call_answer (CallSelect s) = Some s"
| "call_answer CallDecline = None"

fun run_call :: "selection_call \<Rightarrow> receive_controller \<Rightarrow> unit res \<times> receive_controller" where
  "run_call (CallSelect s) c = send_selection s c"
| "run_call CallDecline c = decline c"

fun run_calls :: "selection_call list \<Rightarrow> receive_controller \<Rightarrow> unit res list \<times> receive_controller" where
  "run_calls [] c = ([], c)"
| "run_calls (x # xs) c =
     (let (r, c1) = run_call x c; (rs, c2) = run_calls xs c1 in (r # rs, c2))"

section \<open>Facts\<close>

lemma run_call_answer: "run_call x c = answer_selection (call_answer x) c"
  by (cases x) (simp_all add: send_selection_def decline_def)

lemma run_calls_taken:
  "rx_selected_tx c = None \<Longrightarrow>
   run_calls xs c = (replicate (length xs) (Err (Anyhow ''Selected files already sent'')), c)"
proof (induction xs arbitrary: c)
  case (Cons x xs)
  have "c\<lparr> rx_selected_tx := None, rx_selection := rx_selection c \<rparr> = c"
    using Cons.prems by (cases c) simp
  with Cons show ?case by (simp add: run_call_answer answer_selection_def send_once_def Let_def)
qed simp

lemma concat_buffer_loop:
  "(\<And>k. alive k) \<Longrightarrow> concat (buffer_loop alive k buffer ds) = buffer @ concat ds"
  by (induction alive k buffer ds rule: buffer_loop.induct) (auto simp: Let_def)

lemma buffer_loop_prefix:
  "prefix (concat (buffer_loop alive k buffer ds)) (buffer @ concat ds)"
proof (induction alive k buffer ds rule: buffer_loop.induct)
  case (2 alive k buffer d ds)
  then show ?case by (auto simp: Let_def)
qed simp

lemma buffer_loop_nonempty: "[] \<notin> set (buffer_loop alive k buffer ds)"
  by (induction alive k buffer ds rule: buffer_loop.induct) (auto simp: Let_def BUFFER_SIZE_def)

lemma buffer_loop_full: "list_all (\<lambda>b. BUFFER_SIZE \<le> length b) (butlast (buffer_loop alive k buffer ds))"
  by (induction alive k buffer ds rule: buffer_loop.induct) (auto simp: Let_def)

lemma detached_afterwards_statuses:
  assumes "task_steps branch"
  shows "\<exists>later. statuses (pw_task (detached_afterwards branch w)) = statuses (pw_task w) @ later \<and>
     list_all task_status later \<and> (branch = TaskEnds \<longrightarrow> later = [])"
  using assms by (cases branch) (auto simp: detached_afterwards_def task_steps_def same_environment_def)

lemma finished_report_append:
  "finished_report past branch sts \<Longrightarrow> list_all task_status later \<Longrightarrow> (branch = TaskEnds \<longrightarrow> later = []) \<Longrightarrow>
   finished_report past branch (sts @ later)"
  unfolding finished_report_def by fastforce

section \<open>Properties\<close>

text \<open>
  Buffering hands on exactly the received bytes in order while the application listens, and a
  prefix of them when it stops; no block is empty and all but the last hold at least one mebibyte.
\<close>

theorem buffering_preserves_stream:
  "concat (buffer_receiver (\<lambda>k. True) ds) = concat ds \<and>
   prefix (concat (buffer_receiver alive ds)) (concat ds) \<and>
   list_all (\<lambda>b. b \<noteq> []) (buffer_receiver alive ds) \<and>
   list_all (\<lambda>b. BUFFER_SIZE \<le> length b) (butlast (buffer_receiver alive ds))"
  using concat_buffer_loop [of "\<lambda>k. True" 0 "[]" ds] buffer_loop_prefix [of alive 0 "[]" ds]
    buffer_loop_nonempty [of alive 0 "[]" ds] buffer_loop_full [of alive 0 "[]" ds]
  by (auto simp: buffer_receiver_def list_all_iff)

text \<open>
  Of any calls that select files or decline, only the first can succeed; the task gets exactly
  the answer of that call, and every later call is refused.
\<close>

theorem selection_answered_once:
  "run_calls (x # xs) (new_receive_controller alive sts files errors receiving) =
     ((if alive then Ok () else Err (Anyhow ''Selected files channel closed'')) #
      replicate (length xs) (Err (Anyhow ''Selected files already sent'')),
      (new_receive_controller alive sts files errors receiving)\<lparr> rx_selected_tx := None,
        rx_selection := (if alive then Some (call_answer x) else None) \<rparr>)"
  by (simp add: run_call_answer answer_selection_def send_once_def new_receive_controller_def run_calls_taken Let_def)

text \<open>
  C12: the application always learns how a session ended, provided it listens. A session that
  succeeded is closed and reports the exchange of descriptions, the statuses of its task, and
  Finished once: last when the task ended first, followed only by what the detached task still
  reports when the connection was lost first. A session that failed is not closed and reports its
  error after everything else, again but for a detached task. A session never panics, even when its
  task does.
\<close>

theorem session_reports_outcome:
  assumes "listens w" "\<not> pw_closed w" "task_steps (se_branch env)"
    and "session = offer_session L Z C P env target sid early late scfg \<or>
         session = accept_session L Z C P env offer labels rcfg"
  shows "case (session w, report_failure session w) of ((r, w1), (r', w2)) \<Rightarrow>
     (let reported = statuses (pw_task (detached_afterwards (se_branch env) w2)) in
      case r of
        Returns (Ok u) \<Rightarrow>
          w2 = w1 \<and> pw_closed w2 \<and>
          (\<exists>before detached. reported = statuses (pw_task w) @ SdpExchanged # before @ Finished # detached \<and>
             list_all task_status (before @ detached) \<and> (se_branch env = TaskEnds \<longrightarrow> detached = []))
      | Returns (Err e) \<Rightarrow>
          r' = Returns (Ok ()) \<and> \<not> pw_closed w2 \<and>
          (\<exists>detached. reported = statuses (pw_task w1) @ StatusError (error_text e) # detached \<and>
             list_all task_status detached \<and> (se_branch env = TaskEnds \<longrightarrow> detached = []))
      | Returns (Panic p) \<Rightarrow> False
      | Waits \<Rightarrow> w2 = w1 \<and> \<not> pw_closed w2)"
proof -
  obtain r w1 where run: "session w = (r, w1)" by fastforce
  have wp: "p_wp session (\<lambda>x w'. pw_closed w' \<and> listens w' \<and>
       finished_report (statuses (pw_task w)) (se_branch env) (statuses (pw_task w')))
     (\<lambda>w'. \<not> pw_closed w' \<and> listens w') w"
    using session_ends [OF assms(1-3)] assms(4) by blast
  note after = detached_afterwards_statuses [OF assms(3)]
  show ?thesis
  proof (cases r)
    case (Returns x)
    show ?thesis
    proof (cases x)
      case (Ok u)
      with wp run Returns have "pw_closed w1"
          "finished_report (statuses (pw_task w)) (se_branch env) (statuses (pw_task w1))"
        by (simp_all add: p_wp_def)
      moreover obtain later where "statuses (pw_task (detached_afterwards (se_branch env) w1)) = statuses (pw_task w1) @ later"
          "list_all task_status later" "se_branch env = TaskEnds \<longrightarrow> later = []"
        using after by blast
      ultimately have "pw_closed w1" "finished_report (statuses (pw_task w)) (se_branch env)
          (statuses (pw_task (detached_afterwards (se_branch env) w1)))"
        using finished_report_append by simp_all
      then show ?thesis by (simp add: run Returns Ok report_failure_def finished_report_def Let_def)
    next
      case (Err e)
      with wp run Returns have w1: "\<not> pw_closed w1" "listens w1" by (simp_all add: p_wp_def)
      then have "report_failure session w =
          (Returns (Ok ()), w1\<lparr> pw_task := (pw_task w1)\<lparr> statuses := statuses (pw_task w1) @ [StatusError (error_text e)] \<rparr> \<rparr>)"
        by (simp add: run Returns Err report_failure_def p_task_def io_ignore_def send_status_def listens_def)
      with w1(1) after [of "snd (report_failure session w)"] show ?thesis
        by (auto simp: run Returns Err Let_def)
    next
      case (Panic p)
      with wp run Returns show ?thesis by (simp add: p_wp_def)
    qed
  next
    case Waits
    with wp run show ?thesis by (simp add: p_wp_def report_failure_def)
  qed
qed

theorem session_reports_outcome_witness:
  "(let env = demo_env\<lparr> se_branch := Disconnected id id (\<lambda>t. snd (send_status TooManyAttempts t)) \<rparr> in
    case report_failure (offer_session demo_crypto demo_zlib plain_codec (demo_peer ''v=A'') env 2 ''s'' []
        demo_answers demo_sender) fresh_session of
      (r, w) \<Rightarrow> r = Returns (Ok ()) \<and> pw_closed w \<and>
        statuses (pw_task (detached_afterwards (se_branch env) w)) = [SdpExchanged, Finished, TooManyAttempts]) \<and>
   (case report_failure (accept_session demo_crypto demo_zlib plain_codec (demo_peer ''v=B'') (demo_env\<lparr> se_branch := TaskEnds \<rparr>)
        demo_offer [''data''] demo_receiver) fresh_session of
      (r, w) \<Rightarrow> last (statuses (pw_task w)) = StatusError ''Failed to receive nonce'' \<and> \<not> pw_closed w)"
proof -
  let ?env = "demo_env\<lparr> se_branch := Disconnected id id (\<lambda>t. snd (send_status TooManyAttempts t)) \<rparr>"
  let ?a = "offer_session demo_crypto demo_zlib plain_codec (demo_peer ''v=A'') ?env 2 ''s'' []
        demo_answers demo_sender"
  let ?b = "accept_session demo_crypto demo_zlib plain_codec (demo_peer ''v=B'') (demo_env\<lparr> se_branch := TaskEnds \<rparr>)
        demo_offer [''data''] demo_receiver"
  have w: "listens fresh_session" "\<not> pw_closed fresh_session" "task_steps (se_branch ?env)"
    "task_steps (se_branch (demo_env\<lparr> se_branch := TaskEnds \<rparr>))"
    by (simp_all add: listens_def fresh_session_def fresh_world_def task_steps_def same_environment_def send_status_def)
  have a: "fst (?a fresh_session) = Returns (Ok ())"
    "statuses (pw_task (detached_afterwards (se_branch ?env) (snd (?a fresh_session)))) =
       [SdpExchanged, Finished, TooManyAttempts]" by code_simp+
  have b: "fst (?b fresh_session) = Returns (Err (Anyhow ''Failed to receive nonce''))" by code_simp
  show ?thesis
    using session_reports_outcome [OF w(1-3) disjI1, OF refl,
        of demo_crypto demo_zlib plain_codec "demo_peer ''v=A''" 2 "''s''" "[]" demo_answers demo_sender] a
      session_reports_outcome [OF w(1,2,4) disjI2, OF refl,
        of demo_crypto demo_zlib plain_codec "demo_peer ''v=B''" demo_offer "[''data'']" demo_receiver] b
    by (auto simp: report_failure_def Let_def detached_afterwards_def [of TaskEnds] split: prod.splits)
qed

end
