(* ===== verification/Bridge_Codec.thy ===== *)
theory Bridge_Codec
  imports App_Bridge
begin

text \<open>
  The serialisation of the application bridge, \<open>app/rust/src/frb_generated.rs\<close>: the
  \<open>SseEncode\<close> and \<open>SseDecode\<close> instances through which every argument, result and stream
  item passes between the application and the crate.

  A decoder reads from the front of the bytes and returns the rest, or panics. \<open>big\<close> says whether
  the machine is big-endian. Lengths are the \<open>i32\<close> the code casts them to. The locale
  \<open>sse_codec\<close> is the contract of one instance; the facts are what it gives: decoding undoes
  encoding whatever follows, no encoding is a prefix of another, and truncated data panics.
\<close>

section \<open>Decoders\<close>

type_synonym 'a decoder = "bytes \<Rightarrow> ('a \<times> bytes) res"

definition d_return :: "'a \<Rightarrow> 'a decoder" where
  "d_return x bs = Ok (x, bs)"

definition d_panic :: "string \<Rightarrow> 'a decoder" where
  "d_panic p bs = Panic p"

definition d_bind :: "'a decoder \<Rightarrow> ('a \<Rightarrow> 'b decoder) \<Rightarrow> 'b decoder" where
  "d_bind m f bs =
     (case m bs of Ok (x, rest) \<Rightarrow> f x rest | Err e \<Rightarrow> Err e | Panic p \<Rightarrow> Panic p)"

text \<open>\<open>cursor.read_..\<close> with its \<open>unwrap\<close>.\<close>

definition read_bytes :: "nat \<Rightarrow> bytes decoder" where
  "read_bytes n bs =
     (if length bs < n then Panic ''failed to fill whole buffer'' else Ok (take n bs, drop n bs))"

section \<open>Numbers\<close>

fun nat_bytes :: "nat \<Rightarrow> nat \<Rightarrow> bytes" where
  "nat_bytes 0 v = []"
| "nat_bytes (Suc n) v = word_of_nat v # nat_bytes n (v div 256)"

fun bytes_nat :: "bytes \<Rightarrow> nat" where
  "bytes_nat [] = 0"
| "bytes_nat (b # bs) = unat b + 256 * bytes_nat bs"

definition native :: "bool \<Rightarrow> bytes \<Rightarrow> bytes" where
  "native big bs = (if big then rev bs else bs)"

definition enc_word :: "bool \<Rightarrow> nat \<Rightarrow> 'a::len word \<Rightarrow> bytes" where
  "enc_word big n w = native big (nat_bytes n (unat w))"

definition dec_word :: "bool \<Rightarrow> nat \<Rightarrow> 'a::len word decoder" where
  "dec_word big n = d_bind (read_bytes n) (\<lambda>bs. d_return (word_of_nat (bytes_nat (native big bs))))"

definition enc_u8 :: "u8 \<Rightarrow> bytes" where
  "enc_u8 b = [b]"

definition dec_u8 :: "u8 decoder" where
  "dec_u8 = d_bind (read_bytes 1) (\<lambda>bs. d_return (hd bs))"

definition enc_u16 :: "bool \<Rightarrow> u16 \<Rightarrow> bytes" where
  "enc_u16 big = enc_word big 2"

definition dec_u16 :: "bool \<Rightarrow> u16 decoder" where
  "dec_u16 big = dec_word big 2"

definition enc_i32 :: "bool \<Rightarrow> u32 \<Rightarrow> bytes" where
  "enc_i32 big = enc_word big 4"

definition dec_i32 :: "bool \<Rightarrow> u32 decoder" where
  "dec_i32 big = dec_word big 4"

definition enc_u64 :: "bool \<Rightarrow> u64 \<Rightarrow> bytes" where
  "enc_u64 big = enc_word big 8"

definition dec_u64 :: "bool \<Rightarrow> u64 decoder" where
  "dec_u64 big = dec_word big 8"

text \<open>On a 64-bit machine \<open>usize\<close> and \<open>isize\<close> are cast without loss.\<close>

definition enc_usize :: "bool \<Rightarrow> u64 \<Rightarrow> bytes" where
  "enc_usize big = enc_word big 8"

definition dec_usize :: "bool \<Rightarrow> u64 decoder" where
  "dec_usize big = dec_word big 8"

definition enc_bool :: "bool \<Rightarrow> bytes" where
  "enc_bool b = enc_u8 (if b then 1 else 0)"

definition dec_bool :: "bool decoder" where
  "dec_bool = d_bind dec_u8 (\<lambda>b. d_return (b \<noteq> 0))"

definition enc_unit :: "unit \<Rightarrow> bytes" where
  "enc_unit u = []"

definition dec_unit :: "unit decoder" where
  "dec_unit = d_return ()"

section \<open>Vectors, options and strings\<close>

text \<open>\<open>self.len() as _\<close> keeps the low 32 bits; \<open>0..len_\<close> is empty for a negative \<open>len_\<close>.\<close>

definition enc_vec :: "bool \<Rightarrow> ('a \<Rightarrow> bytes) \<Rightarrow> 'a list \<Rightarrow> bytes" where
  "enc_vec big enc xs = enc_i32 big (word_of_nat (length xs)) @ concat (map enc xs)"

fun dec_items :: "'a decoder \<Rightarrow> nat \<Rightarrow> 'a list decoder" where
  "dec_items dec 0 = d_return []"
| "dec_items dec (Suc n) = d_bind dec (\<lambda>x. d_bind (dec_items dec n) (\<lambda>xs. d_return (x # xs)))"

definition dec_vec :: "bool \<Rightarrow> 'a decoder \<Rightarrow> 'a list decoder" where
  "dec_vec big dec = d_bind (dec_i32 big) (\<lambda>len. dec_items dec (nat (sint len)))"

definition enc_option :: "('a \<Rightarrow> bytes) \<Rightarrow> 'a option \<Rightarrow> bytes" where
  "enc_option enc v = enc_bool (v \<noteq> None) @ (case v of None \<Rightarrow> [] | Some x \<Rightarrow> enc x)"

definition dec_option :: "'a decoder \<Rightarrow> 'a option decoder" where
  "dec_option dec =
     d_bind dec_bool (\<lambda>b. if b then d_bind dec (\<lambda>x. d_return (Some x)) else d_return None)"

definition enc_string :: "bool \<Rightarrow> string \<Rightarrow> bytes" where
  "enc_string big s = enc_vec big enc_u8 (as_bytes s)"

definition dec_string :: "bool \<Rightarrow> string decoder" where
  "dec_string big =
     d_bind (dec_vec big dec_u8) (\<lambda>inner.
     case from_utf8 inner of None \<Rightarrow> d_panic ''FromUtf8Error'' | Some s \<Rightarrow> d_return s)"

text \<open>The 16 bytes of an identifier are in network order.\<close>

definition enc_uuid :: "bool \<Rightarrow> uuid \<Rightarrow> bytes" where
  "enc_uuid big u = enc_vec big enc_u8 (rev (nat_bytes 16 (unat u)))"

definition dec_uuid :: "bool \<Rightarrow> uuid decoder" where
  "dec_uuid big =
     d_bind (dec_vec big dec_u8) (\<lambda>inner.
     if length inner = 16 then d_return (word_of_nat (bytes_nat (rev inner))) else d_panic ''fail to decode uuid'')"

text \<open>A \<open>HashSet\<close> is a list without repetitions.\<close>

definition enc_string_set :: "bool \<Rightarrow> string list \<Rightarrow> bytes" where
  "enc_string_set big = enc_vec big (enc_string big)"

definition dec_string_set :: "bool \<Rightarrow> string list decoder" where
  "dec_string_set big = d_bind (dec_vec big (dec_string big)) (\<lambda>inner. d_return (remdups inner))"

text \<open>An error crosses as its debug text, which the error library makes.\<close>

definition enc_error :: "bool \<Rightarrow> (error \<Rightarrow> string) \<Rightarrow> error \<Rightarrow> bytes" where
  "enc_error big debug_text e = enc_string big (debug_text e)"

definition dec_error :: "bool \<Rightarrow> error decoder" where
  "dec_error big = d_bind (dec_string big) (\<lambda>inner. d_return (Anyhow inner))"

section \<open>Structures\<close>

fun device_type_code :: "device_type \<Rightarrow> u32" where
  "device_type_code Mobile = 0"
| "device_type_code Desktop = 1"
| "device_type_code Web = 2"
| "device_type_code Headless = 3"
| "device_type_code Server = 4"

definition enc_device_type :: "bool \<Rightarrow> device_type \<Rightarrow> bytes" where
  "enc_device_type big d = enc_i32 big (device_type_code d)"

definition dec_device_type :: "bool \<Rightarrow> device_type decoder" where
  "dec_device_type big =
     d_bind (dec_i32 big) (\<lambda>inner.
     if inner = 0 then d_return Mobile
     else if inner = 1 then d_return Desktop
     else if inner = 2 then d_return Web
     else if inner = 3 then d_return Headless
     else if inner = 4 then d_return Server
     else d_panic ''Invalid variant for DeviceType'')"

definition enc_client_info :: "bool \<Rightarrow> client_info \<Rightarrow> bytes" where
  "enc_client_info big v =
     enc_uuid big (ci_id v) @
     enc_string big (ci_alias v) @
     enc_string big (ci_version v) @
     enc_option (enc_string big) (ci_device_model v) @
     enc_option (enc_device_type big) (ci_device_type v) @
     enc_string big (ci_token v)"

definition dec_client_info :: "bool \<Rightarrow> client_info decoder" where
  "dec_client_info big =
     d_bind (dec_uuid big) (\<lambda>x0.
     d_bind (dec_string big) (\<lambda>x1.
     d_bind (dec_string big) (\<lambda>x2.
     d_bind (dec_option (dec_string big)) (\<lambda>x3.
     d_bind (dec_option (dec_device_type big)) (\<lambda>x4.
     d_bind (dec_string big) (\<lambda>x5.
     d_return \<lparr> ci_id = x0, ci_alias = x1, ci_version = x2, ci_device_model = x3, ci_device_type = x4, ci_token = x5 \<rparr>))))))"

definition enc_client_info_without_id :: "bool \<Rightarrow> client_info_without_id \<Rightarrow> bytes" where
  "enc_client_info_without_id big v =
     enc_string big (cw_alias v) @
     enc_string big (cw_version v) @
     enc_option (enc_string big) (cw_device_model v) @
     enc_option (enc_device_type big) (cw_device_type v) @
     enc_string big (cw_token v)"

definition dec_client_info_without_id :: "bool \<Rightarrow> client_info_without_id decoder" where
  "dec_client_info_without_id big =
     d_bind (dec_string big) (\<lambda>x0.
     d_bind (dec_string big) (\<lambda>x1.
     d_bind (dec_option (dec_string big)) (\<lambda>x2.
     d_bind (dec_option (dec_device_type big)) (\<lambda>x3.
     d_bind (dec_string big) (\<lambda>x4.
     d_return \<lparr> cw_alias = x0, cw_version = x1, cw_device_model = x2, cw_device_type = x3, cw_token = x4 \<rparr>)))))"

definition enc_expecting_public_key :: "bool \<Rightarrow> expecting_public_key \<Rightarrow> bytes" where
  "enc_expecting_public_key big v =
     enc_string big (ep_public_key v) @
     enc_string big (ep_kind v)"

definition dec_expecting_public_key :: "bool \<Rightarrow> expecting_public_key decoder" where
  "dec_expecting_public_key big =
     d_bind (dec_string big) (\<lambda>x0.
     d_bind (dec_string big) (\<lambda>x1.
     d_return \<lparr> ep_public_key = x0, ep_kind = x1 \<rparr>))"

definition enc_file_metadata :: "bool \<Rightarrow> file_metadata \<Rightarrow> bytes" where
  "enc_file_metadata big v =
     enc_option (enc_string big) (modified v) @
     enc_option (enc_string big) (accessed v)"

definition dec_file_metadata :: "bool \<Rightarrow> file_metadata decoder" where
  "dec_file_metadata big =
     d_bind (dec_option (dec_string big)) (\<lambda>x0.
     d_bind (dec_option (dec_string big)) (\<lambda>x1.
     d_return \<lparr> modified = x0, accessed = x1 \<rparr>))"

definition enc_file_dto :: "bool \<Rightarrow> file_dto \<Rightarrow> bytes" where
  "enc_file_dto big v =
     enc_string big (file_dto_id v) @
     enc_string big (file_name v) @
     enc_u64 big (file_size v) @
     enc_string big (file_type v) @
     enc_option (enc_string big) (file_sha256 v) @
     enc_option (enc_string big) (file_preview v) @
     enc_option (enc_file_metadata big) (file_dto_metadata v)"

definition dec_file_dto :: "bool \<Rightarrow> file_dto decoder" where
  "dec_file_dto big =
     d_bind (dec_string big) (\<lambda>x0.
     d_bind (dec_string big) (\<lambda>x1.
     d_bind (dec_u64 big) (\<lambda>x2.
     d_bind (dec_string big) (\<lambda>x3.
     d_bind (dec_option (dec_string big)) (\<lambda>x4.
     d_bind (dec_option (dec_string big)) (\<lambda>x5.
     d_bind (dec_option (dec_file_metadata big)) (\<lambda>x6.
     d_return \<lparr> file_dto_id = x0, file_name = x1, file_size = x2, file_type = x3, file_sha256 = x4, file_preview = x5, file_dto_metadata = x6 \<rparr>)))))))"

definition enc_key_pair :: "bool \<Rightarrow> key_pair \<Rightarrow> bytes" where
  "enc_key_pair big v =
     enc_string big (kp_private_key v) @
     enc_string big (kp_public_key v)"

definition dec_key_pair :: "bool \<Rightarrow> key_pair decoder" where
  "dec_key_pair big =
     d_bind (dec_string big) (\<lambda>x0.
     d_bind (dec_string big) (\<lambda>x1.
     d_return \<lparr> kp_private_key = x0, kp_public_key = x1 \<rparr>))"

definition enc_pin_config :: "bool \<Rightarrow> pin_config \<Rightarrow> bytes" where
  "enc_pin_config big v =
     enc_string big (pin v) @
     enc_u8 (max_tries v)"

definition dec_pin_config :: "bool \<Rightarrow> pin_config decoder" where
  "dec_pin_config big =
     d_bind (dec_string big) (\<lambda>x0.
     d_bind (dec_u8) (\<lambda>x1.
     d_return \<lparr> pin = x0, max_tries = x1 \<rparr>))"

definition enc_proposing_client_info :: "bool \<Rightarrow> proposing_client_info \<Rightarrow> bytes" where
  "enc_proposing_client_info big v =
     enc_string big (pc_alias v) @
     enc_string big (pc_version v) @
     enc_option (enc_string big) (pc_device_model v) @
     enc_option (enc_device_type big) (pc_device_type v)"

definition dec_proposing_client_info :: "bool \<Rightarrow> proposing_client_info decoder" where
  "dec_proposing_client_info big =
     d_bind (dec_string big) (\<lambda>x0.
     d_bind (dec_string big) (\<lambda>x1.
     d_bind (dec_option (dec_string big)) (\<lambda>x2.
     d_bind (dec_option (dec_device_type big)) (\<lambda>x3.
     d_return \<lparr> pc_alias = x0, pc_version = x1, pc_device_model = x2, pc_device_type = x3 \<rparr>))))"

definition enc_rtc_file_error :: "bool \<Rightarrow> rtc_file_error \<Rightarrow> bytes" where
  "enc_rtc_file_error big v =
     enc_string big (fe_file_id v) @
     enc_string big (fe_error v)"

definition dec_rtc_file_error :: "bool \<Rightarrow> rtc_file_error decoder" where
  "dec_rtc_file_error big =
     d_bind (dec_string big) (\<lambda>x0.
     d_bind (dec_string big) (\<lambda>x1.
     d_return \<lparr> fe_file_id = x0, fe_error = x1 \<rparr>))"

definition enc_rtc_send_file_response :: "bool \<Rightarrow> rtc_send_file_response \<Rightarrow> bytes" where
  "enc_rtc_send_file_response big v =
     enc_string big (fr_id v) @
     enc_bool (fr_success v) @
     enc_option (enc_string big) (fr_error v)"

definition dec_rtc_send_file_response :: "bool \<Rightarrow> rtc_send_file_response decoder" where
  "dec_rtc_send_file_response big =
     d_bind (dec_string big) (\<lambda>x0.
     d_bind (dec_bool) (\<lambda>x1.
     d_bind (dec_option (dec_string big)) (\<lambda>x2.
     d_return \<lparr> fr_id = x0, fr_success = x1, fr_error = x2 \<rparr>)))"

definition enc_ws_server_sdp_message :: "bool \<Rightarrow> ws_server_sdp_message \<Rightarrow> bytes" where
  "enc_ws_server_sdp_message big v =
     enc_client_info big (sdp_peer v) @
     enc_string big (sdp_session_id v) @
     enc_string big (sdp_sdp v)"

definition dec_ws_server_sdp_message :: "bool \<Rightarrow> ws_server_sdp_message decoder" where
  "dec_ws_server_sdp_message big =
     d_bind (dec_client_info big) (\<lambda>x0.
     d_bind (dec_string big) (\<lambda>x1.
     d_bind (dec_string big) (\<lambda>x2.
     d_return \<lparr> sdp_peer = x0, sdp_session_id = x1, sdp_sdp = x2 \<rparr>)))"

section \<open>Enumerations with data\<close>

fun enc_rtc_status :: "bool \<Rightarrow> rtc_status \<Rightarrow> bytes" where
  "enc_rtc_status big SdpExchanged = enc_i32 big 0"
| "enc_rtc_status big Connected = enc_i32 big 1"
| "enc_rtc_status big PinRequired = enc_i32 big 2"
| "enc_rtc_status big TooManyAttempts = enc_i32 big 3"
| "enc_rtc_status big Declined = enc_i32 big 4"
| "enc_rtc_status big Sending = enc_i32 big 5"
| "enc_rtc_status big Finished = enc_i32 big 6"
| "enc_rtc_status big (StatusError m) = enc_i32 big 7 @ enc_string big m"

definition dec_rtc_status :: "bool \<Rightarrow> rtc_status decoder" where
  "dec_rtc_status big =
     d_bind (dec_i32 big) (\<lambda>tag.
     if tag = 0 then d_return SdpExchanged
     else if tag = 1 then d_return Connected
     else if tag = 2 then d_return PinRequired
     else if tag = 3 then d_return TooManyAttempts
     else if tag = 4 then d_return Declined
     else if tag = 5 then d_return Sending
     else if tag = 6 then d_return Finished
     else if tag = 7 then d_bind (dec_string big) (\<lambda>m. d_return (StatusError m))
     else d_panic ''not implemented'')"

fun enc_ws_server_message :: "bool \<Rightarrow> ws_server_message \<Rightarrow> bytes" where
  "enc_ws_server_message big (Hello client peers) =
     enc_i32 big 0 @ enc_client_info big client @ enc_vec big (enc_client_info big) peers"
| "enc_ws_server_message big (Join peer) = enc_i32 big 1 @ enc_client_info big peer"
| "enc_ws_server_message big (Update peer) = enc_i32 big 2 @ enc_client_info big peer"
| "enc_ws_server_message big (Left peer_id) = enc_i32 big 3 @ enc_uuid big peer_id"
| "enc_ws_server_message big (Offer sdp) = enc_i32 big 4 @ enc_ws_server_sdp_message big sdp"
| "enc_ws_server_message big (Answer sdp) = enc_i32 big 5 @ enc_ws_server_sdp_message big sdp"
| "enc_ws_server_message big (Error code) = enc_i32 big 6 @ enc_u16 big code"

definition dec_ws_server_message :: "bool \<Rightarrow> ws_server_message decoder" where
  "dec_ws_server_message big =
     d_bind (dec_i32 big) (\<lambda>tag.
     if tag = 0 then
       d_bind (dec_client_info big) (\<lambda>client.
       d_bind (dec_vec big (dec_client_info big)) (\<lambda>peers. d_return (Hello client peers)))
     else if tag = 1 then d_bind (dec_client_info big) (\<lambda>peer. d_return (Join peer))
     else if tag = 2 then d_bind (dec_client_info big) (\<lambda>peer. d_return (Update peer))
     else if tag = 3 then d_bind (dec_uuid big) (\<lambda>peer_id. d_return (Left peer_id))
     else if tag = 4 then d_bind (dec_ws_server_sdp_message big) (\<lambda>sdp. d_return (Offer sdp))
     else if tag = 5 then d_bind (dec_ws_server_sdp_message big) (\<lambda>sdp. d_return (Answer sdp))
     else if tag = 6 then d_bind (dec_u16 big) (\<lambda>code. d_return (Error code))
     else d_panic ''not implemented'')"

section \<open>Specification vocabulary\<close>

text \<open>What can be sent: strings are UTF-8, and every length fits an \<open>i32\<close>.\<close>

definition ok_vec :: "('a \<Rightarrow> bool) \<Rightarrow> 'a list \<Rightarrow> bool" where
  "ok_vec ok xs \<longleftrightarrow> length xs < 2 ^ 31 \<and> list_all ok xs"

definition ok_string :: "string \<Rightarrow> bool" where
  "ok_string s \<longleftrightarrow> length s < 2 ^ 31 \<and> utf8_valid (map unat (as_bytes s))"

definition ok_client_info :: "client_info \<Rightarrow> bool" where
  "ok_client_info v \<longleftrightarrow>
     ok_string (ci_alias v) \<and> ok_string (ci_version v) \<and> pred_option ok_string (ci_device_model v) \<and>
     ok_string (ci_token v)"

definition ok_client_info_without_id :: "client_info_without_id \<Rightarrow> bool" where
  "ok_client_info_without_id v \<longleftrightarrow>
     ok_string (cw_alias v) \<and> ok_string (cw_version v) \<and> pred_option ok_string (cw_device_model v) \<and>
     ok_string (cw_token v)"

definition ok_file_metadata :: "file_metadata \<Rightarrow> bool" where
  "ok_file_metadata v \<longleftrightarrow> pred_option ok_string (modified v) \<and> pred_option ok_string (accessed v)"

definition ok_file_dto :: "file_dto \<Rightarrow> bool" where
  "ok_file_dto v \<longleftrightarrow>
     ok_string (file_dto_id v) \<and> ok_string (file_name v) \<and> ok_string (file_type v) \<and>
     pred_option ok_string (file_sha256 v) \<and> pred_option ok_string (file_preview v) \<and>
     pred_option ok_file_metadata (file_dto_metadata v)"

definition ok_sdp :: "ws_server_sdp_message \<Rightarrow> bool" where
  "ok_sdp v \<longleftrightarrow> ok_client_info (sdp_peer v) \<and> ok_string (sdp_session_id v) \<and> ok_string (sdp_sdp v)"

fun ok_status :: "rtc_status \<Rightarrow> bool" where
  "ok_status (StatusError m) \<longleftrightarrow> ok_string m"
| "ok_status _ \<longleftrightarrow> True"

fun ok_message :: "ws_server_message \<Rightarrow> bool" where
  "ok_message (Hello client peers) \<longleftrightarrow> ok_client_info client \<and> ok_vec ok_client_info peers"
| "ok_message (Join peer) \<longleftrightarrow> ok_client_info peer"
| "ok_message (Update peer) \<longleftrightarrow> ok_client_info peer"
| "ok_message (Left peer_id) \<longleftrightarrow> True"
| "ok_message (Offer sdp) \<longleftrightarrow> ok_sdp sdp"
| "ok_message (Answer sdp) \<longleftrightarrow> ok_sdp sdp"
| "ok_message (Error code) \<longleftrightarrow> True"

text \<open>A decoder reports no error, and more data behind what it read changes nothing.\<close>

definition sound :: "'a decoder \<Rightarrow> bool" where
  "sound d \<longleftrightarrow> (\<forall>bs e. d bs \<noteq> Err e) \<and> (\<forall>bs x r q. d bs = Ok (x, r) \<longrightarrow> d (bs @ q) = Ok (x, r @ q))"

definition panics :: "'a res \<Rightarrow> bool" where
  "panics r \<longleftrightarrow> (case r of Panic p \<Rightarrow> True | _ \<Rightarrow> False)"

text \<open>A message and a file list with every optional field.\<close>

definition sample_client :: client_info where
  "sample_client =
     \<lparr> ci_id = 7, ci_alias = ''A'', ci_version = ''2.1'', ci_device_model = Some ''M'', ci_device_type = Some Web,
       ci_token = ''t'' \<rparr>"

definition sample_file :: file_dto where
  "sample_file =
     \<lparr> file_dto_id = ''a'', file_name = ''a.txt'', file_size = 300, file_type = ''text/plain'', file_sha256 = None,
       file_preview = Some ''p'', file_dto_metadata = Some \<lparr> modified = Some ''m'', accessed = None \<rparr> \<rparr>"

section \<open>Decoders that are sound\<close>

named_theorems sse_simps \<open>decoding what was encoded\<close>
named_theorems sound_intros \<open>sound decoders\<close>

lemma d_bind_Ok [sse_simps]: "m bs = Ok (x, r) \<Longrightarrow> d_bind m f bs = f x r"
  by (simp add: d_bind_def)

lemma d_return_eq [sse_simps]: "d_return x bs = Ok (x, bs)"
  by (simp add: d_return_def)

lemma sound_return [sound_intros]: "sound (d_return x)"
  by (simp add: sound_def d_return_def)

lemma sound_panic [sound_intros]: "sound (d_panic p)"
  by (simp add: sound_def d_panic_def)

lemma sound_bind [sound_intros]: "sound m \<Longrightarrow> (\<And>x. sound (f x)) \<Longrightarrow> sound (d_bind m f)"
  by (auto simp: sound_def d_bind_def split: res.splits prod.splits)

lemma sound_read [sound_intros]: "sound (read_bytes n)"
  by (auto simp: sound_def read_bytes_def split: if_splits)

lemma sound_if [sound_intros]: "sound d \<Longrightarrow> sound e \<Longrightarrow> sound (if b then d else e)"
  by simp

lemma sound_word [sound_intros]: "sound (dec_word big n)"
  unfolding dec_word_def by (intro sound_intros)

lemma sound_numbers [sound_intros]:
  "sound dec_u8" "sound (dec_u16 big)" "sound (dec_i32 big)" "sound (dec_u64 big)" "sound (dec_usize big)"
  "sound dec_bool" "sound dec_unit"
  unfolding dec_u8_def dec_u16_def dec_i32_def dec_u64_def dec_usize_def dec_bool_def dec_unit_def
  by (intro sound_intros)+

lemma sound_items [sound_intros]: "sound d \<Longrightarrow> sound (dec_items d n)"
  by (induction n) (simp_all add: sound_intros)

lemma sound_vec [sound_intros]: "sound d \<Longrightarrow> sound (dec_vec big d)"
  unfolding dec_vec_def by (intro sound_intros)

lemma sound_option [sound_intros]: "sound d \<Longrightarrow> sound (dec_option d)"
  unfolding dec_option_def by (intro sound_intros)

lemma sound_string [sound_intros]: "sound (dec_string big)"
  unfolding dec_string_def by (auto intro!: sound_intros split: option.split)

lemma sound_uuid [sound_intros]: "sound (dec_uuid big)"
  unfolding dec_uuid_def by (intro sound_intros)

section \<open>Numbers\<close>

lemma length_nat_bytes [simp]: "length (nat_bytes n v) = n"
  by (induction n v rule: nat_bytes.induct) auto

lemma bytes_nat_bytes: "v < 256 ^ n \<Longrightarrow> bytes_nat (nat_bytes n v) = v"
proof (induction n v rule: nat_bytes.induct)
  case (2 n v)
  then have "v div 256 < 256 ^ n" by (simp add: less_mult_imp_div_less mult.commute)
  with 2 show ?case by (simp add: unat_of_nat)
qed simp

lemma length_native [simp]: "length (native big bs) = length bs"
  by (simp add: native_def)

lemma native_native [simp]: "native big (native big bs) = bs"
  by (simp add: native_def)

lemma dec_enc_word [sse_simps]:
  fixes w :: "'a::len word"
  assumes "LENGTH('a) \<le> 8 * n"
  shows "dec_word big n (enc_word big n w @ rest) = Ok (w, rest)"
proof -
  have "unat w < 2 ^ LENGTH('a)" by simp
  also have "\<dots> \<le> 2 ^ (8 * n)" using assms by (simp add: power_increasing)
  also have "\<dots> = 256 ^ n" by (simp add: power_mult)
  finally have "bytes_nat (nat_bytes n (unat w)) = unat w" by (rule bytes_nat_bytes)
  then show ?thesis by (simp add: dec_word_def enc_word_def d_bind_def read_bytes_def d_return_def)
qed

section \<open>The contract of a codec\<close>

locale sse_codec =
  fixes enc :: "'a \<Rightarrow> bytes"
    and dec :: "'a decoder"
    and ok :: "'a \<Rightarrow> bool"
  assumes dec_enc: "ok x \<Longrightarrow> dec (enc x @ rest) = Ok (x, rest)"
    and dec_sound: "sound dec"
begin

lemma dec_enc_all: "ok x \<Longrightarrow> dec (enc x) = Ok (x, [])"
  using dec_enc [of x "[]"] by simp

lemma prefix_free: "ok x \<Longrightarrow> ok y \<Longrightarrow> enc x @ p = enc y @ q \<Longrightarrow> x = y \<and> p = q"
  by (metis dec_enc Pair_inject res.inject(1))

lemma truncated_panics:
  assumes "ok x" "k < length (enc x)"
  shows "panics (dec (take k (enc x)))"
proof (cases "dec (take k (enc x))")
  case (Ok yr)
  obtain y r where yr: "yr = (y, r)" by (cases yr)
  have "dec (take k (enc x) @ drop k (enc x)) = Ok (y, r @ drop k (enc x))"
    using dec_sound Ok unfolding sound_def yr by blast
  with dec_enc_all [OF assms(1)] assms(2) show ?thesis by simp
next
  case (Err e)
  with dec_sound show ?thesis by (simp add: sound_def)
qed (simp add: panics_def)

lemma dec_enc_items: "list_all ok xs \<Longrightarrow> dec_items dec (length xs) (concat (map enc xs) @ rest) = Ok (xs, rest)"
  by (induction xs) (simp_all add: sse_simps dec_enc)

lemma vec_codec: "sse_codec (enc_vec big enc) (dec_vec big dec) (ok_vec ok)"
proof
  fix xs rest assume xs: "ok_vec ok xs"
  then have "length xs < 2 ^ 31" by (simp add: ok_vec_def)
  then have "nat (sint (word_of_nat (length xs) :: u32)) = length xs"
    by (simp add: signed_of_nat signed_take_bit_int_eq_self)
  then show "dec_vec big dec (enc_vec big enc xs @ rest) = Ok (xs, rest)"
    using xs by (simp add: dec_vec_def enc_vec_def dec_i32_def enc_i32_def sse_simps dec_enc_items ok_vec_def)
qed (intro sound_intros dec_sound)

lemma option_codec: "sse_codec (enc_option enc) (dec_option dec) (pred_option ok)"
proof
  fix v rest assume "pred_option ok v"
  then show "dec_option dec (enc_option enc v @ rest) = Ok (v, rest)"
    by (cases v) (simp_all add: dec_option_def enc_option_def dec_bool_def enc_bool_def dec_u8_def enc_u8_def
        d_bind_def read_bytes_def d_return_def dec_enc)
qed (intro sound_intros dec_sound)

end

section \<open>The instances\<close>

lemmas number_defs = dec_u16_def enc_u16_def dec_i32_def enc_i32_def dec_u64_def enc_u64_def dec_usize_def enc_usize_def

lemma dec_enc_bool [sse_simps]: "dec_bool (enc_bool b @ rest) = Ok (b, rest)"
  by (simp add: dec_bool_def enc_bool_def dec_u8_def enc_u8_def d_bind_def read_bytes_def d_return_def)

lemma dec_enc_u8 [sse_simps]: "dec_u8 (enc_u8 b @ rest) = Ok (b, rest)"
  by (simp add: dec_u8_def enc_u8_def d_bind_def read_bytes_def d_return_def)

lemma dec_enc_numbers [sse_simps]:
  "dec_u16 big (enc_u16 big a @ rest) = Ok (a, rest)"
  "dec_i32 big (enc_i32 big b @ rest) = Ok (b, rest)"
  "dec_u64 big (enc_u64 big c @ rest) = Ok (c, rest)"
  "dec_usize big (enc_usize big c @ rest) = Ok (c, rest)"
  by (simp_all add: number_defs dec_enc_word)

interpretation c_u8: sse_codec enc_u8 dec_u8 "\<lambda>b. True"
  by unfold_locales (simp_all add: sse_simps sound_intros)

interpretation c_u64: sse_codec "enc_u64 big" "dec_u64 big" "\<lambda>b. True" for big
  by unfold_locales (simp_all add: sse_simps sound_intros)

interpretation c_bytes: sse_codec "enc_vec big enc_u8" "dec_vec big dec_u8" "ok_vec (\<lambda>b. True)" for big
  by (rule c_u8.vec_codec)

lemma from_utf8_as_bytes: "utf8_valid (map unat (as_bytes s)) \<Longrightarrow> from_utf8 (as_bytes s) = Some s"
  by (simp add: from_utf8_def)

interpretation c_string: sse_codec "enc_string big" "dec_string big" ok_string for big
proof
  fix s rest assume "ok_string s"
  then have "ok_vec (\<lambda>b. True) (as_bytes s)" "from_utf8 (as_bytes s) = Some s"
    by (simp_all add: ok_string_def ok_vec_def from_utf8_as_bytes list_all_iff)
  then show "dec_string big (enc_string big s @ rest) = Ok (s, rest)"
    by (simp add: dec_string_def enc_string_def sse_simps c_bytes.dec_enc)
qed (rule sound_string)

interpretation c_uuid: sse_codec "enc_uuid big" "dec_uuid big" "\<lambda>u. True" for big
proof
  fix u :: uuid and rest
  have "unat u < 256 ^ 16" using unsigned_less [of u] by simp
  then have "bytes_nat (nat_bytes 16 (unat u)) = unat u" by (rule bytes_nat_bytes)
  moreover have "ok_vec (\<lambda>b. True) (rev (nat_bytes 16 (unat u)))" by (simp add: ok_vec_def list_all_iff)
  ultimately show "dec_uuid big (enc_uuid big u @ rest) = Ok (u, rest)"
    by (simp add: dec_uuid_def enc_uuid_def sse_simps c_bytes.dec_enc)
qed (rule sound_uuid)

interpretation c_strings: sse_codec "enc_vec big (enc_string big)" "dec_vec big (dec_string big)" "ok_vec ok_string" for big
  by (rule c_string.vec_codec)

interpretation c_string_set: sse_codec "enc_string_set big" "dec_string_set big" "\<lambda>xs. ok_vec ok_string xs \<and> distinct xs" for big
proof
  fix xs rest assume "ok_vec ok_string xs \<and> distinct xs"
  then show "dec_string_set big (enc_string_set big xs @ rest) = Ok (xs, rest)"
    by (simp add: dec_string_set_def enc_string_set_def sse_simps c_strings.dec_enc distinct_remdups_id)
qed (simp add: dec_string_set_def sound_intros)

interpretation c_string_option: sse_codec "enc_option (enc_string big)" "dec_option (dec_string big)" "pred_option ok_string" for big
  by (rule c_string.option_codec)

interpretation c_device_type: sse_codec "enc_device_type big" "dec_device_type big" "\<lambda>d. True" for big
proof
  fix d rest
  show "dec_device_type big (enc_device_type big d @ rest) = Ok (d, rest)"
    by (cases d) (simp_all add: dec_device_type_def enc_device_type_def sse_simps)
qed (simp add: dec_device_type_def sound_intros)

interpretation c_device_type_option: sse_codec "enc_option (enc_device_type big)" "dec_option (dec_device_type big)"
    "pred_option (\<lambda>d. True)" for big
  by (rule c_device_type.option_codec)

lemmas leaf_codecs = c_string.dec_enc c_string_option.dec_enc c_device_type_option.dec_enc c_uuid.dec_enc

interpretation c_client_info: sse_codec "enc_client_info big" "dec_client_info big" ok_client_info for big
proof
  fix v rest assume "ok_client_info v"
  then show "dec_client_info big (enc_client_info big v @ rest) = Ok (v, rest)"
    by (simp add: dec_client_info_def enc_client_info_def ok_client_info_def sse_simps leaf_codecs pred_option_def)
qed (simp add: dec_client_info_def sound_intros c_device_type_option.dec_sound)

interpretation c_client_info_without_id:
  sse_codec "enc_client_info_without_id big" "dec_client_info_without_id big" ok_client_info_without_id for big
proof
  fix v rest assume "ok_client_info_without_id v"
  then show "dec_client_info_without_id big (enc_client_info_without_id big v @ rest) = Ok (v, rest)"
    by (simp add: dec_client_info_without_id_def enc_client_info_without_id_def ok_client_info_without_id_def
        sse_simps leaf_codecs pred_option_def)
qed (simp add: dec_client_info_without_id_def sound_intros c_device_type_option.dec_sound)

interpretation c_proposing: sse_codec "enc_proposing_client_info big" "dec_proposing_client_info big"
    "\<lambda>v. ok_string (pc_alias v) \<and> ok_string (pc_version v) \<and> pred_option ok_string (pc_device_model v)" for big
  by unfold_locales (simp_all add: dec_proposing_client_info_def enc_proposing_client_info_def sse_simps leaf_codecs
      sound_intros c_device_type_option.dec_sound pred_option_def)

interpretation c_expecting: sse_codec "enc_expecting_public_key big" "dec_expecting_public_key big"
    "\<lambda>v. ok_string (ep_public_key v) \<and> ok_string (ep_kind v)" for big
  by unfold_locales (simp_all add: dec_expecting_public_key_def enc_expecting_public_key_def sse_simps leaf_codecs sound_intros)

interpretation c_key_pair: sse_codec "enc_key_pair big" "dec_key_pair big"
    "\<lambda>v. ok_string (kp_private_key v) \<and> ok_string (kp_public_key v)" for big
  by unfold_locales (simp_all add: dec_key_pair_def enc_key_pair_def sse_simps leaf_codecs sound_intros)

interpretation c_pin_config: sse_codec "enc_pin_config big" "dec_pin_config big" "\<lambda>v. ok_string (pin v)" for big
  by unfold_locales (simp_all add: dec_pin_config_def enc_pin_config_def sse_simps leaf_codecs sound_intros)

interpretation c_file_error: sse_codec "enc_rtc_file_error big" "dec_rtc_file_error big"
    "\<lambda>v. ok_string (fe_file_id v) \<and> ok_string (fe_error v)" for big
  by unfold_locales (simp_all add: dec_rtc_file_error_def enc_rtc_file_error_def sse_simps leaf_codecs sound_intros)

interpretation c_file_response: sse_codec "enc_rtc_send_file_response big" "dec_rtc_send_file_response big"
    "\<lambda>v. ok_string (fr_id v) \<and> pred_option ok_string (fr_error v)" for big
  by unfold_locales (simp_all add: dec_rtc_send_file_response_def enc_rtc_send_file_response_def sse_simps leaf_codecs sound_intros)

interpretation c_metadata: sse_codec "enc_file_metadata big" "dec_file_metadata big" ok_file_metadata for big
  by unfold_locales (simp_all add: dec_file_metadata_def enc_file_metadata_def ok_file_metadata_def sse_simps leaf_codecs sound_intros)

interpretation c_metadata_option: sse_codec "enc_option (enc_file_metadata big)" "dec_option (dec_file_metadata big)"
    "pred_option ok_file_metadata" for big
  by (rule c_metadata.option_codec)

interpretation c_file_dto: sse_codec "enc_file_dto big" "dec_file_dto big" ok_file_dto for big
  by unfold_locales (simp_all add: dec_file_dto_def enc_file_dto_def ok_file_dto_def sse_simps leaf_codecs
      c_metadata_option.dec_enc c_metadata_option.dec_sound sound_intros)

interpretation c_files: sse_codec "enc_vec big (enc_file_dto big)" "dec_vec big (dec_file_dto big)" "ok_vec ok_file_dto" for big
  by (rule c_file_dto.vec_codec)

interpretation c_client_infos: sse_codec "enc_vec big (enc_client_info big)" "dec_vec big (dec_client_info big)"
    "ok_vec ok_client_info" for big
  by (rule c_client_info.vec_codec)

interpretation c_sdp: sse_codec "enc_ws_server_sdp_message big" "dec_ws_server_sdp_message big" ok_sdp for big
  by unfold_locales (simp_all add: dec_ws_server_sdp_message_def enc_ws_server_sdp_message_def ok_sdp_def sse_simps
      leaf_codecs c_client_info.dec_enc c_client_info.dec_sound sound_intros)

interpretation c_status: sse_codec "enc_rtc_status big" "dec_rtc_status big" ok_status for big
proof
  fix v rest assume "ok_status v"
  then show "dec_rtc_status big (enc_rtc_status big v @ rest) = Ok (v, rest)"
    by (cases v) (simp_all add: dec_rtc_status_def sse_simps leaf_codecs)
qed (simp add: dec_rtc_status_def sound_intros)

interpretation c_message: sse_codec "enc_ws_server_message big" "dec_ws_server_message big" ok_message for big
proof
  fix m rest assume "ok_message m"
  then show "dec_ws_server_message big (enc_ws_server_message big m @ rest) = Ok (m, rest)"
    by (cases m) (simp_all add: dec_ws_server_message_def sse_simps leaf_codecs c_client_info.dec_enc
        c_client_infos.dec_enc c_sdp.dec_enc)
qed (simp add: dec_ws_server_message_def sound_intros c_client_info.dec_sound c_client_infos.dec_sound c_sdp.dec_sound)

lemma negative_length:
  assumes "2 ^ 31 \<le> n" "n < 2 ^ 32"
  shows "nat (sint (word_of_nat n :: u32)) = 0"
proof -
  have "n div 2 ^ 31 = 1" by (rule div_nat_eqI) (use assms in simp_all)
  then have "bit n 31" by (simp only: bit_iff_odd odd_one not_False_eq_True)
  then have "bit (int n) 31" by (simp only: bit_of_nat_iff_bit)
  then have "signed_take_bit 31 (int n) < 0" by (simp only: signed_take_bit_negative_iff)
  then have "nat (signed_take_bit 31 (int n)) = 0" by (simp only: nat_le_iff nat_0_iff order_less_imp_le)
  then show ?thesis by (simp add: signed_of_nat)
qed

section \<open>Properties\<close>

text \<open>
  C21: what the application receives is what the crate sent: a signaling message and a list of files
  are read back whatever follows them, no message is a prefix of another, and a message cut short
  panics instead of being read as something else.
\<close>

theorem bridge_codec_exact:
  assumes "ok_message m" "ok_message m'" "ok_vec ok_file_dto fs" "k < length (enc_ws_server_message big m)"
  shows "dec_ws_server_message big (enc_ws_server_message big m @ rest) = Ok (m, rest) \<and>
     dec_vec big (dec_file_dto big) (enc_vec big (enc_file_dto big) fs @ rest) = Ok (fs, rest) \<and>
     (enc_ws_server_message big m @ p = enc_ws_server_message big m' @ q \<longrightarrow> m = m' \<and> p = q) \<and>
     panics (dec_ws_server_message big (take k (enc_ws_server_message big m)))"
  using c_message.dec_enc [OF assms(1)] c_files.dec_enc [OF assms(3)] c_message.prefix_free [OF assms(1,2)]
    c_message.truncated_panics [OF assms(1,4)]
  by blast

theorem bridge_codec_exact_witness:
  "dec_ws_server_message True (enc_ws_server_message True (Hello sample_client [sample_client]) @ [1]) =
     Ok (Hello sample_client [sample_client], [1]) \<and>
   dec_vec True (dec_file_dto True) (enc_vec True (enc_file_dto True) [sample_file] @ [1]) = Ok ([sample_file], [1]) \<and>
   panics (dec_ws_server_message True (take 5 (enc_ws_server_message True (Hello sample_client [sample_client]))))"
proof -
  have utf8: "list_all (\<lambda>s. utf8_valid (map unat (as_bytes s)))
      [''A'', ''2.1'', ''M'', ''t'', ''a'', ''a.txt'', ''text/plain'', ''p'', ''m'']" by code_simp
  have "ok_message (Hello sample_client [sample_client])" "ok_message (Left 1)" "ok_vec ok_file_dto [sample_file]"
    using utf8 by (simp_all add: ok_vec_def ok_client_info_def ok_string_def sample_client_def sample_file_def
        ok_file_dto_def ok_file_metadata_def)
  moreover have "5 < length (enc_ws_server_message True (Hello sample_client [sample_client]))" by code_simp
  ultimately show ?thesis using bridge_codec_exact [of _ "Left 1"] by blast
qed

text \<open>
  A vector of \<open>2\<^sup>3\<^sup>1\<close> elements or more does not cross: its length turns negative, it is
  read as the empty vector, and all its elements are left to be read as whatever comes next.
\<close>

theorem long_vector_lost:
  assumes "2 ^ 31 \<le> length xs" "length xs < 2 ^ 32"
  shows "dec_vec big dec (enc_vec big enc xs @ rest) = Ok ([], concat (map enc xs) @ rest)"
  by (simp add: dec_vec_def enc_vec_def sse_simps negative_length [OF assms])

theorem long_vector_lost_witness:
  "dec_vec False dec_u8 (enc_vec False enc_u8 (replicate (2 ^ 31) 0) @ [5]) =
     Ok ([], concat (map enc_u8 (replicate (2 ^ 31) 0)) @ [5])"
proof (rule long_vector_lost)
  show "2 ^ 31 \<le> length (replicate (2 ^ 31) (0 :: u8))" unfolding length_replicate by (rule order_refl)
  show "length (replicate (2 ^ 31) (0 :: u8)) < 2 ^ 32" unfolding length_replicate by (rule power_strict_increasing) simp_all
qed

end
