(* ===== verification/Dart_Values.thy ===== *)
theory Dart_Values
  imports Bridge_Codec
begin

text \<open>
  The second codec of \<open>app/rust/src/frb_generated.rs\<close>: the \<open>IntoDart\<close> instances, which turn a
  value into the tree of Dart objects the virtual machine is handed. A structure is the list of its
  fields, a variant the list of its number and its fields, a plain enumeration its number. Values of
  library types are leaves, one constructor for each type.

  The facts: no two values become the same tree, and nothing but an absent value becomes the null
  object.
\<close>

section \<open>Dart objects\<close>

datatype dart_abi =
    AbiNull
  | AbiBool bool
  | AbiU8 u8
  | AbiU16 u16
  | AbiI32 u32
  | AbiU64 u64
  | AbiString string
  | AbiUuid uuid
  | AbiList "dart_abi list"

definition into_dart_option :: "('a \<Rightarrow> dart_abi) \<Rightarrow> 'a option \<Rightarrow> dart_abi" where
  "into_dart_option f v = (case v of None \<Rightarrow> AbiNull | Some x \<Rightarrow> f x)"

definition into_dart_vec :: "('a \<Rightarrow> dart_abi) \<Rightarrow> 'a list \<Rightarrow> dart_abi" where
  "into_dart_vec f xs = AbiList (map f xs)"

section \<open>The instances\<close>

fun into_dart_device_type :: "device_type \<Rightarrow> dart_abi" where
  "into_dart_device_type Mobile = AbiI32 0"
| "into_dart_device_type Desktop = AbiI32 1"
| "into_dart_device_type Web = AbiI32 2"
| "into_dart_device_type Headless = AbiI32 3"
| "into_dart_device_type Server = AbiI32 4"

definition into_dart_client_info :: "client_info \<Rightarrow> dart_abi" where
  "into_dart_client_info v =
     AbiList [
       AbiUuid (ci_id v),
       AbiString (ci_alias v),
       AbiString (ci_version v),
       into_dart_option AbiString (ci_device_model v),
       into_dart_option into_dart_device_type (ci_device_type v),
       AbiString (ci_token v)]"

definition into_dart_client_info_without_id :: "client_info_without_id \<Rightarrow> dart_abi" where
  "into_dart_client_info_without_id v =
     AbiList [
       AbiString (cw_alias v),
       AbiString (cw_version v),
       into_dart_option AbiString (cw_device_model v),
       into_dart_option into_dart_device_type (cw_device_type v),
       AbiString (cw_token v)]"

definition into_dart_expecting_public_key :: "expecting_public_key \<Rightarrow> dart_abi" where
  "into_dart_expecting_public_key v =
     AbiList [
       AbiString (ep_public_key v),
       AbiString (ep_kind v)]"

definition into_dart_file_metadata :: "file_metadata \<Rightarrow> dart_abi" where
  "into_dart_file_metadata v =
     AbiList [
       into_dart_option AbiString (modified v),
       into_dart_option AbiString (accessed v)]"

definition into_dart_file_dto :: "file_dto \<Rightarrow> dart_abi" where
  "into_dart_file_dto v =
     AbiList [
       AbiString (file_dto_id v),
       AbiString (file_name v),
       AbiU64 (file_size v),
       AbiString (file_type v),
       into_dart_option AbiString (file_sha256 v),
       into_dart_option AbiString (file_preview v),
       into_dart_option into_dart_file_metadata (file_dto_metadata v)]"

definition into_dart_key_pair :: "key_pair \<Rightarrow> dart_abi" where
  "into_dart_key_pair v =
     AbiList [
       AbiString (kp_private_key v),
       AbiString (kp_public_key v)]"

definition into_dart_pin_config :: "pin_config \<Rightarrow> dart_abi" where
  "into_dart_pin_config v =
     AbiList [
       AbiString (pin v),
       AbiU8 (max_tries v)]"

definition into_dart_proposing_client_info :: "proposing_client_info \<Rightarrow> dart_abi" where
  "into_dart_proposing_client_info v =
     AbiList [
       AbiString (pc_alias v),
       AbiString (pc_version v),
       into_dart_option AbiString (pc_device_model v),
       into_dart_option into_dart_device_type (pc_device_type v)]"

definition into_dart_rtc_file_error :: "rtc_file_error \<Rightarrow> dart_abi" where
  "into_dart_rtc_file_error v =
     AbiList [
       AbiString (fe_file_id v),
       AbiString (fe_error v)]"

definition into_dart_rtc_send_file_response :: "rtc_send_file_response \<Rightarrow> dart_abi" where
  "into_dart_rtc_send_file_response v =
     AbiList [
       AbiString (fr_id v),
       AbiBool (fr_success v),
       into_dart_option AbiString (fr_error v)]"

definition into_dart_ws_server_sdp_message :: "ws_server_sdp_message \<Rightarrow> dart_abi" where
  "into_dart_ws_server_sdp_message v =
     AbiList [
       into_dart_client_info (sdp_peer v),
       AbiString (sdp_session_id v),
       AbiString (sdp_sdp v)]"

fun into_dart_rtc_status :: "rtc_status \<Rightarrow> dart_abi" where
  "into_dart_rtc_status SdpExchanged = AbiList [AbiI32 0]"
| "into_dart_rtc_status Connected = AbiList [AbiI32 1]"
| "into_dart_rtc_status PinRequired = AbiList [AbiI32 2]"
| "into_dart_rtc_status TooManyAttempts = AbiList [AbiI32 3]"
| "into_dart_rtc_status Declined = AbiList [AbiI32 4]"
| "into_dart_rtc_status Sending = AbiList [AbiI32 5]"
| "into_dart_rtc_status Finished = AbiList [AbiI32 6]"
| "into_dart_rtc_status (StatusError m) = AbiList [AbiI32 7, AbiString m]"

fun into_dart_ws_server_message :: "ws_server_message \<Rightarrow> dart_abi" where
  "into_dart_ws_server_message (Hello client peers) =
     AbiList [AbiI32 0, into_dart_client_info client, into_dart_vec into_dart_client_info peers]"
| "into_dart_ws_server_message (Join peer) = AbiList [AbiI32 1, into_dart_client_info peer]"
| "into_dart_ws_server_message (Update peer) = AbiList [AbiI32 2, into_dart_client_info peer]"
| "into_dart_ws_server_message (Left peer_id) = AbiList [AbiI32 3, AbiUuid peer_id]"
| "into_dart_ws_server_message (Offer sdp) = AbiList [AbiI32 4, into_dart_ws_server_sdp_message sdp]"
| "into_dart_ws_server_message (Answer sdp) = AbiList [AbiI32 5, into_dart_ws_server_sdp_message sdp]"
| "into_dart_ws_server_message (Error code) = AbiList [AbiI32 6, AbiU16 code]"

section \<open>The contract of an instance\<close>

locale dart_codec =
  fixes into_dart :: "'a \<Rightarrow> dart_abi"
  assumes into_dart_inject: "into_dart x = into_dart y \<longleftrightarrow> x = y"
    and into_dart_not_null: "into_dart x \<noteq> AbiNull"
begin

lemma option_inject: "into_dart_option into_dart v = into_dart_option into_dart v' \<longleftrightarrow> v = v'"
  using into_dart_not_null into_dart_not_null [symmetric]
  by (auto simp: into_dart_option_def into_dart_inject split: option.splits)

lemma vec_codec: "dart_codec (into_dart_vec into_dart)"
  by unfold_locales (simp_all add: into_dart_vec_def inj_map_eq_map inj_def into_dart_inject)

end

interpretation dart_string: dart_codec AbiString
  by unfold_locales simp_all

interpretation dart_device_type: dart_codec into_dart_device_type
proof
  fix x y
  show "into_dart_device_type x = into_dart_device_type y \<longleftrightarrow> x = y" by (cases x; cases y; simp)
  show "into_dart_device_type x \<noteq> AbiNull" by (cases x; simp)
qed

lemmas dart_options = dart_string.option_inject dart_device_type.option_inject

interpretation dart_client_info: dart_codec into_dart_client_info
  by unfold_locales (auto simp: into_dart_client_info_def dart_options)

interpretation dart_client_info_without_id: dart_codec into_dart_client_info_without_id
  by unfold_locales (auto simp: into_dart_client_info_without_id_def dart_options)

interpretation dart_expecting_public_key: dart_codec into_dart_expecting_public_key
  by unfold_locales (auto simp: into_dart_expecting_public_key_def dart_options)

interpretation dart_file_metadata: dart_codec into_dart_file_metadata
  by unfold_locales (auto simp: into_dart_file_metadata_def dart_options)

interpretation dart_file_dto: dart_codec into_dart_file_dto
  by unfold_locales (auto simp: into_dart_file_dto_def dart_options dart_file_metadata.option_inject)

interpretation dart_key_pair: dart_codec into_dart_key_pair
  by unfold_locales (auto simp: into_dart_key_pair_def dart_options)

interpretation dart_pin_config: dart_codec into_dart_pin_config
  by unfold_locales (auto simp: into_dart_pin_config_def dart_options)

interpretation dart_proposing_client_info: dart_codec into_dart_proposing_client_info
  by unfold_locales (auto simp: into_dart_proposing_client_info_def dart_options)

interpretation dart_rtc_file_error: dart_codec into_dart_rtc_file_error
  by unfold_locales (auto simp: into_dart_rtc_file_error_def dart_options)

interpretation dart_rtc_send_file_response: dart_codec into_dart_rtc_send_file_response
  by unfold_locales (auto simp: into_dart_rtc_send_file_response_def dart_options)

interpretation dart_ws_server_sdp_message: dart_codec into_dart_ws_server_sdp_message
  by unfold_locales (auto simp: into_dart_ws_server_sdp_message_def dart_options dart_client_info.into_dart_inject)

interpretation dart_client_infos: dart_codec "into_dart_vec into_dart_client_info"
  by (rule dart_client_info.vec_codec)

interpretation dart_rtc_status: dart_codec into_dart_rtc_status
proof
  fix x y
  show "into_dart_rtc_status x = into_dart_rtc_status y \<longleftrightarrow> x = y" by (cases x; cases y; simp)
  show "into_dart_rtc_status x \<noteq> AbiNull" by (cases x; simp)
qed

interpretation dart_ws_server_message: dart_codec into_dart_ws_server_message
proof
  fix x y
  show "into_dart_ws_server_message x = into_dart_ws_server_message y \<longleftrightarrow> x = y"
    by (cases x; cases y; simp add: dart_client_info.into_dart_inject dart_client_infos.into_dart_inject
        dart_ws_server_sdp_message.into_dart_inject)
  show "into_dart_ws_server_message x \<noteq> AbiNull" by (cases x; simp)
qed

section \<open>Properties\<close>

text \<open>
  The two codecs of the bridge agree on what they distinguish: two values that can be sent become the
  same Dart object exactly when they become the same bytes.
\<close>

theorem codecs_agree:
  assumes "ok_message m" "ok_message m'" "ok_status st" "ok_status st'" "ok_file_dto f" "ok_file_dto f'"
  shows "(into_dart_ws_server_message m = into_dart_ws_server_message m' \<longleftrightarrow>
      enc_ws_server_message big m = enc_ws_server_message big m') \<and>
    (into_dart_rtc_status st = into_dart_rtc_status st' \<longleftrightarrow> enc_rtc_status big st = enc_rtc_status big st') \<and>
    (into_dart_file_dto f = into_dart_file_dto f' \<longleftrightarrow> enc_file_dto big f = enc_file_dto big f')"
  using c_message.prefix_free [OF assms(1,2), of big "[]" "[]"] c_status.prefix_free [OF assms(3,4), of big "[]" "[]"]
    c_file_dto.prefix_free [OF assms(5,6), of big "[]" "[]"]
  by (auto simp: dart_ws_server_message.into_dart_inject dart_rtc_status.into_dart_inject
      dart_file_dto.into_dart_inject)

theorem codecs_agree_witness:
  "(into_dart_ws_server_message (Left 1) = into_dart_ws_server_message (Error 1)) =
     (enc_ws_server_message True (Left 1) = enc_ws_server_message True (Error 1))"
proof -
  have "ok_file_dto sample_file"
    by (simp add: ok_file_dto_def sample_file_def ok_string_def ok_file_metadata_def) code_simp
  then show ?thesis using codecs_agree [of "Left 1" "Error 1" Connected Connected sample_file sample_file True] by simp
qed

end
