(* ===== verification/Bridge_Dispatch.thy ===== *)
theory Bridge_Dispatch
  imports Bridge_Codec
begin

text \<open>
  The calls of the application bridge, \<open>app/rust/src/frb_generated.rs\<close>: the dispatcher, the 23
  wire functions it selects from, the handles that stand for Rust objects on the application's side,
  the stream sinks and the callback of \<open>connect\<close>.

  A wire function decodes its arguments and yields a task: the object it must lock, how, and what it
  does once it has the lock. The bridge library (its object pool, its end-of-message check, its
  call into Dart) is an argument. The state \<open>bridge_world\<close> holds the Rust objects in tables; a
  handle of the pool refers to an entry of a table.

  The facts: a call reaches exactly the function it names with exactly the arguments that were
  encoded, a message cut short is refused, and no two calls are written down alike.
\<close>

section \<open>The bridge library\<close>

datatype object_kind = KConnection | KFileReceiver | KFileSender | KReceiveController | KSendController

datatype lock_mode = LockShared | LockExclusive

text \<open>The pool of reference-counted objects, \<open>MoiArc\<close>; every kind of object has its own handles.\<close>

record 'pool pool_lib =
  op_decode :: "object_kind \<Rightarrow> u64 \<Rightarrow> 'pool \<Rightarrow> nat res"
  op_new :: "object_kind \<Rightarrow> nat \<Rightarrow> 'pool \<Rightarrow> (u64 \<times> u32) \<times> 'pool"
  op_increment :: "object_kind \<Rightarrow> u64 \<Rightarrow> 'pool \<Rightarrow> 'pool"
  op_decrement :: "object_kind \<Rightarrow> u64 \<Rightarrow> 'pool \<Rightarrow> 'pool"

datatype stream_sink = StreamSink string

datatype dart_opaque = DartOpaque u64

text \<open>What the session a call starts will send to its controller, and the choices it depends on.\<close>

record ('sk, 'vk, 'rk) offer_future =
  of_env :: session_env
  of_session_id :: string
  of_early :: "bool listener_event list"
  of_late :: "bool listener_event list"
  of_user :: "('sk, 'vk, 'rk) send_config"
  of_statuses :: "rtc_status list"
  of_selected :: "string list option"
  of_errors :: "rtc_file_error list"

record ('sk, 'vk, 'rk) accept_future =
  af_env :: session_env
  af_labels :: "string list"
  af_user :: "('sk, 'vk, 'rk) receive_config"
  af_alive :: bool
  af_statuses :: "rtc_status list"
  af_files :: "file_dto list option"
  af_errors :: "rtc_file_error list"
  af_receiving :: "rtc_file list"

text \<open>
  Everything the bridge calls: \<open>be_end\<close> is \<open>SseDeserializer::end\<close>, \<open>be_debug\<close> the debug
  text of an error, \<open>be_dart_fn\<close> the answer of Dart to a call of an opaque function with a handle,
  \<open>be_try_init\<close> that of the logging library.
\<close>

record ('pool, 'sk, 'vk, 'rk, 'cert, 'spki, 'pk) bridge_env =
  be_big :: bool
  be_end :: "bytes \<Rightarrow> unit res"
  be_debug :: "error \<Rightarrow> string"
  be_pool :: "'pool pool_lib"
  be_dart_fn :: "dart_opaque \<Rightarrow> u64 \<times> u32 \<Rightarrow> bytes option"
  be_try_init :: "string option"
  be_crypto :: "('sk, 'vk, 'rk) crypto_lib"
  be_x509 :: "('cert, 'spki, 'pk) x509_lib"
  be_zlib :: zlib_lib
  be_codec :: rtc_codec
  be_peer :: peer_lib
  be_now :: "u64 option"
  be_os_rng :: bytes
  be_to_json :: "client_info_without_id \<Rightarrow> string option"
  be_from_json :: "string \<Rightarrow> ws_server_message option"
  be_connect_async :: "string \<Rightarrow> ws_socket option"
  be_offer :: "('sk, 'vk, 'rk) offer_future"
  be_accept :: "('sk, 'vk, 'rk) accept_future"
  be_alive :: "nat \<Rightarrow> bool"

section \<open>The objects\<close>

text \<open>\<open>LsSignalingConnection\<close>: the client it was greeted as, and the channel to the writing task.\<close>

record bridge_connection =
  bc_client :: client_info
  bc_writer_gone :: bool
  bc_queued :: "ws_client_message list"

text \<open>
  An \<open>RTCFileSender\<close> is the controller and the position of its file there. \<open>bw_sinks\<close> is what
  was added to which sink, \<open>bw_pins\<close> which PINs reached a session, \<open>bw_sessions\<close> what was spawned.
\<close>

record 'pool bridge_world =
  bw_pool :: 'pool
  bw_connections :: "bridge_connection list"
  bw_senders :: "send_controller list"
  bw_receivers :: "receive_controller list"
  bw_file_senders :: "(nat \<times> nat) list"
  bw_file_receivers :: "file_receiver list"
  bw_sessions :: "(nat \<times> unit peer_io) list"
  bw_pins :: "(object_kind \<times> nat \<times> string) list"
  bw_sinks :: "(string \<times> bytes sink_event) list"
  bw_logging :: bool

definition on_sender ::
  "nat \<Rightarrow> (send_controller \<Rightarrow> 'a \<times> send_controller) \<Rightarrow> 'pool bridge_world \<Rightarrow> 'a \<times> 'pool bridge_world" where
  "on_sender i f w = (case f (bw_senders w ! i) of (r, c) \<Rightarrow> (r, w\<lparr> bw_senders := (bw_senders w)[i := c] \<rparr>))"

definition on_receiver ::
  "nat \<Rightarrow> (receive_controller \<Rightarrow> 'a \<times> receive_controller) \<Rightarrow> 'pool bridge_world \<Rightarrow> 'a \<times> 'pool bridge_world" where
  "on_receiver i f w = (case f (bw_receivers w ! i) of (r, c) \<Rightarrow> (r, w\<lparr> bw_receivers := (bw_receivers w)[i := c] \<rparr>))"

section \<open>Handles, sinks and callbacks\<close>

text \<open>\<open>RustOpaqueMoi\<close>: decoding takes over the reference the application handed out.\<close>

definition dec_opaque ::
  "bool \<Rightarrow> 'pool pool_lib \<Rightarrow> object_kind \<Rightarrow> 'pool \<Rightarrow> (u64 \<times> nat) decoder" where
  "dec_opaque big P k pool =
     d_bind (dec_usize big) (\<lambda>inner bs.
       case op_decode P k inner pool of
         Ok obj \<Rightarrow> Ok ((inner, obj), bs) | Err e \<Rightarrow> Err e | Panic p \<Rightarrow> Panic p)"

definition enc_opaque :: "bool \<Rightarrow> u64 \<times> u32 \<Rightarrow> bytes" where
  "enc_opaque big raw = (case raw of (ptr, raw_size) \<Rightarrow> enc_usize big ptr @ enc_i32 big raw_size)"

text \<open>An object that is returned or streamed is put into the pool first.\<close>

definition enc_owned ::
  "('pool, 'sk, 'vk, 'rk, 'cert, 'spki, 'pk) bridge_env \<Rightarrow> object_kind \<Rightarrow> nat \<Rightarrow> 'pool bridge_world \<Rightarrow>
     bytes \<times> 'pool bridge_world" where
  "enc_owned E k obj w =
     (case op_new (be_pool E) k obj (bw_pool w) of
        (raw, p) \<Rightarrow> (enc_opaque (be_big E) raw, w\<lparr> bw_pool := p \<rparr>))"

definition dec_sink :: "bool \<Rightarrow> stream_sink decoder" where
  "dec_sink big = d_bind (dec_string big) (\<lambda>inner. d_return (StreamSink inner))"

definition enc_sink :: "stream_sink \<Rightarrow> bytes res" where
  "enc_sink sink = Panic ''not implemented: ''"

definition dec_dart_opaque :: "bool \<Rightarrow> dart_opaque decoder" where
  "dec_dart_opaque big = d_bind (dec_usize big) (\<lambda>inner. d_return (DartOpaque inner))"

definition enc_dart_opaque :: "bool \<Rightarrow> dart_opaque \<Rightarrow> bytes" where
  "enc_dart_opaque big v = (case v of DartOpaque raw \<Rightarrow> enc_usize big raw)"

definition sink_add ::
  "stream_sink \<Rightarrow> bytes sink_event list \<Rightarrow> 'pool bridge_world \<Rightarrow> 'pool bridge_world" where
  "sink_add sink events w =
     (case sink of StreamSink name \<Rightarrow> w\<lparr> bw_sinks := bw_sinks w @ map (Pair name) events \<rparr>)"

text \<open>
  The callback of \<open>connect\<close>: the connection is put into the pool, Dart is called with its handle,
  and Dart's answer is read; an exception of the application panics.
\<close>

definition dart_fn_answer :: "bool \<Rightarrow> (bytes \<Rightarrow> unit res) \<Rightarrow> (error \<Rightarrow> string) \<Rightarrow> bytes \<Rightarrow> unit res" where
  "dart_fn_answer big end_check debug_text message =
     res_bind (dec_u8 message) (\<lambda>(action, rest).
     res_bind
       (if action = 0 then res_bind (dec_unit rest) (\<lambda>(u, r). Ok (Ok u, r))
        else if action = 1 then res_bind (dec_error big rest) (\<lambda>(e, r). Ok (Err e, r))
        else Panic ''internal error: entered unreachable code'') (\<lambda>(ans, rest').
     res_bind (end_check rest') (\<lambda>_.
     case ans of
       Err e \<Rightarrow> Panic (''Dart throws exception but Rust side assume it is not failable: '' @ debug_text e)
     | r \<Rightarrow> r)))"

definition into_dart_owned ::
  "('pool, 'sk, 'vk, 'rk, 'cert, 'spki, 'pk) bridge_env \<Rightarrow> object_kind \<Rightarrow> nat \<Rightarrow> 'pool bridge_world \<Rightarrow>
     (u64 \<times> u32) \<times> 'pool bridge_world" where
  "into_dart_owned E k obj w =
     (case op_new (be_pool E) k obj (bw_pool w) of (raw, p) \<Rightarrow> (raw, w\<lparr> bw_pool := p \<rparr>))"

definition dart_fn_body ::
  "('pool, 'sk, 'vk, 'rk, 'cert, 'spki, 'pk) bridge_env \<Rightarrow> dart_opaque \<Rightarrow> nat \<Rightarrow> 'pool bridge_world \<Rightarrow>
     unit progress \<times> 'pool bridge_world" where
  "dart_fn_body E callback obj w =
     (case into_dart_owned E KConnection obj w of
        (raw, w') \<Rightarrow>
          ((case be_dart_fn E callback raw of
              None \<Rightarrow> Waits
            | Some message \<Rightarrow> Returns (dart_fn_answer (be_big E) (be_end E) (be_debug E) message)), w'))"

text \<open>The exported functions that change the count of a handle.\<close>

datatype count_change = IncrementStrongCount | DecrementStrongCount

definition rust_arc_strong_count ::
  "'pool pool_lib \<Rightarrow> count_change \<Rightarrow> object_kind \<Rightarrow> u64 \<Rightarrow> 'pool bridge_world \<Rightarrow> 'pool bridge_world" where
  "rust_arc_strong_count P change k ptr w =
     w\<lparr> bw_pool := (case change of
          IncrementStrongCount \<Rightarrow> op_increment P k ptr (bw_pool w)
        | DecrementStrongCount \<Rightarrow> op_decrement P k ptr (bw_pool w)) \<rparr>"

section \<open>Replies\<close>

text \<open>
  What is sent back to the port of a call: \<open>transform_result_sse\<close> of the result, or the panic that
  the handler caught. A call that waits for ever sends nothing.
\<close>

datatype wire_reply = ReplyOk bytes | ReplyErr bytes | ReplyPanic string | NoReply

definition reply ::
  "('pool, 'sk, 'vk, 'rk, 'cert, 'spki, 'pk) bridge_env \<Rightarrow> ('a \<Rightarrow> bytes) \<Rightarrow> 'a res \<times> 'pool bridge_world \<Rightarrow>
     wire_reply \<times> 'pool bridge_world" where
  "reply E enc out =
     (case out of
        (Ok x, w) \<Rightarrow> (ReplyOk (enc x), w)
      | (Err e, w) \<Rightarrow> (ReplyErr (enc_error (be_big E) (be_debug E) e), w)
      | (Panic p, w) \<Rightarrow> (ReplyPanic p, w))"

definition reply_object ::
  "('pool, 'sk, 'vk, 'rk, 'cert, 'spki, 'pk) bridge_env \<Rightarrow> object_kind \<Rightarrow> nat res \<times> 'pool bridge_world \<Rightarrow>
     wire_reply \<times> 'pool bridge_world" where
  "reply_object E k out =
     (case out of
        (Ok obj, w) \<Rightarrow> (case enc_owned E k obj w of (bs, w') \<Rightarrow> (ReplyOk bs, w'))
      | (Err e, w) \<Rightarrow> (ReplyErr (enc_error (be_big E) (be_debug E) e), w)
      | (Panic p, w) \<Rightarrow> (ReplyPanic p, w))"

section \<open>The calls on the objects\<close>

type_synonym accept_args =
  "string list \<times> ws_server_sdp_message \<times> string \<times> expecting_public_key option \<times> pin_config option"

type_synonym offer_args =
  "string list \<times> uuid \<times> string \<times> expecting_public_key option \<times> pin_config option \<times> file_dto list"

type_synonym connect_args = "stream_sink \<times> string \<times> proposing_client_info \<times> string \<times> dart_opaque"

text \<open>\<open>LsSignalingConnection\<close>. \<open>i\<close> is the object the handle refers to.\<close>

definition accept_offer ::
  "('pool, 'sk, 'vk, 'rk, 'cert, 'spki, 'pk) bridge_env \<Rightarrow>
     accept_args \<Rightarrow> nat \<Rightarrow> 'pool bridge_world \<Rightarrow> nat res \<times> 'pool bridge_world" where
  "accept_offer E args i w =
     (case args of (stun_servers, offer, private_key, expecting, pin_cfg) \<Rightarrow>
        (let F = be_accept E in
         case bridge_accept_offer (be_crypto E) (be_zlib E) (be_codec E) (be_peer E)
                ((af_env F)\<lparr> se_stun_servers := stun_servers \<rparr>) (af_labels F) (af_user F) offer private_key expecting
                pin_cfg of
           Ok session \<Rightarrow>
             (Ok (length (bw_receivers w)),
              w\<lparr> bw_sessions := bw_sessions w @ [(i, session)],
                 bw_receivers := bw_receivers w @
                   [new_receive_controller (af_alive F) (af_statuses F) (af_files F) (af_errors F) (af_receiving F)] \<rparr>)
         | Err e \<Rightarrow> (Err e, w)
         | Panic p \<Rightarrow> (Panic p, w)))"

definition start_offer ::
  "('pool, 'sk, 'vk, 'rk, 'cert, 'spki, 'pk) bridge_env \<Rightarrow>
     offer_args \<Rightarrow> nat \<Rightarrow> 'pool bridge_world \<Rightarrow> nat res \<times> 'pool bridge_world" where
  "start_offer E args i w =
     (case args of (stun_servers, target, private_key, expecting, pin_cfg, files) \<Rightarrow>
        (let F = be_offer E in
         case bridge_send_offer (be_crypto E) (be_zlib E) (be_codec E) (be_peer E)
                ((of_env F)\<lparr> se_stun_servers := stun_servers \<rparr>) (of_session_id F) (of_early F) (of_late F) (of_user F)
                target private_key expecting pin_cfg files of
           Ok session \<Rightarrow>
             (Ok (length (bw_senders w)),
              w\<lparr> bw_sessions := bw_sessions w @ [(i, session)],
                 bw_senders := bw_senders w @
                   [new_send_controller (of_statuses F) (of_selected F) (of_errors F)] \<rparr>)
         | Err e \<Rightarrow> (Err e, w)
         | Panic p \<Rightarrow> (Panic p, w)))"

definition update_info :: "client_info_without_id \<Rightarrow> nat \<Rightarrow> 'pool bridge_world \<Rightarrow> unit res \<times> 'pool bridge_world" where
  "update_info info i w =
     (let c = bw_connections w ! i in
      case send_update (bc_writer_gone c) info (bc_queued c) of
        (r, queued) \<Rightarrow> (r, w\<lparr> bw_connections := (bw_connections w)[i := c\<lparr> bc_queued := queued \<rparr>] \<rparr>))"

text \<open>\<open>RTCFileReceiver\<close> and \<open>RTCFileSender\<close>.\<close>

definition file_id_of :: "nat \<Rightarrow> 'pool bridge_world \<Rightarrow> string res \<times> 'pool bridge_world" where
  "file_id_of i w = (Ok (get_file_id (bw_file_receivers w ! i)), w)"

definition receive_data ::
  "('pool, 'sk, 'vk, 'rk, 'cert, 'spki, 'pk) bridge_env \<Rightarrow> stream_sink \<Rightarrow> nat \<Rightarrow> 'pool bridge_world \<Rightarrow>
     unit res \<times> 'pool bridge_world" where
  "receive_data E sink i w =
     (case receive_file_data (be_alive E) (bw_file_receivers w ! i) of
        (r, f) \<Rightarrow>
          (let w' = w\<lparr> bw_file_receivers := (bw_file_receivers w)[i := f] \<rparr> in
           case r of
             Ok events \<Rightarrow> (Ok (), sink_add sink (map (map_sink_event (enc_vec (be_big E) enc_u8)) events) w')
           | Err e \<Rightarrow> (Err e, w')
           | Panic p \<Rightarrow> (Panic p, w')))"

definition send_data :: "bytes \<Rightarrow> nat \<Rightarrow> 'pool bridge_world \<Rightarrow> unit res \<times> 'pool bridge_world" where
  "send_data block i w = (case bw_file_senders w ! i of (c, k) \<Rightarrow> on_sender c (file_sender_send k block) w)"

text \<open>
  Streams of a controller: what is added to the sink is encoded, and the call itself returns nothing.
  Streamed objects are put into the pool one by one.
\<close>

definition stream_to ::
  "stream_sink \<Rightarrow> ('a \<Rightarrow> bytes) \<Rightarrow> 'a sink_event list \<times> 'pool bridge_world \<Rightarrow> unit res \<times> 'pool bridge_world" where
  "stream_to sink enc out = (case out of (events, w) \<Rightarrow> (Ok (), sink_add sink (map (map_sink_event enc) events) w))"

fun stream_receivers ::
  "('pool, 'sk, 'vk, 'rk, 'cert, 'spki, 'pk) bridge_env \<Rightarrow> stream_sink \<Rightarrow> file_receiver sink_event list \<Rightarrow>
     'pool bridge_world \<Rightarrow> 'pool bridge_world" where
  "stream_receivers E sink [] w = w"
| "stream_receivers E sink (SinkError m # es) w = stream_receivers E sink es (sink_add sink [SinkError m] w)"
| "stream_receivers E sink (SinkItem f # es) w =
     (case enc_owned E KFileReceiver (length (bw_file_receivers w))
             (w\<lparr> bw_file_receivers := bw_file_receivers w @ [f] \<rparr>) of
        (bs, w') \<Rightarrow> stream_receivers E sink es (sink_add sink [SinkItem bs] w'))"

definition stream_receiving ::
  "('pool, 'sk, 'vk, 'rk, 'cert, 'spki, 'pk) bridge_env \<Rightarrow> stream_sink \<Rightarrow> nat \<Rightarrow> 'pool bridge_world \<Rightarrow>
     unit res \<times> 'pool bridge_world" where
  "stream_receiving E sink i w =
     (case on_receiver i listen_receiving w of (events, w') \<Rightarrow> (Ok (), stream_receivers E sink events w'))"

text \<open>A PIN that was delivered has reached the session.\<close>

definition note_pin ::
  "object_kind \<Rightarrow> nat \<Rightarrow> (unit res \<times> string option) \<times> 'pool bridge_world \<Rightarrow> unit res \<times> 'pool bridge_world" where
  "note_pin k i out =
     (case out of ((r, delivered), w) \<Rightarrow>
        (r, w\<lparr> bw_pins := bw_pins w @ (case delivered of None \<Rightarrow> [] | Some p \<Rightarrow> [(k, i, p)]) \<rparr>))"

text \<open>The file sender is a new object.\<close>

definition new_file_sender :: "string \<Rightarrow> nat \<Rightarrow> 'pool bridge_world \<Rightarrow> nat res \<times> 'pool bridge_world" where
  "new_file_sender file_id i w =
     (case on_sender i (tx_send_file file_id) w of
        (Ok k, w') \<Rightarrow> (Ok (length (bw_file_senders w')), w'\<lparr> bw_file_senders := bw_file_senders w' @ [(i, k)] \<rparr>)
      | (Err e, w') \<Rightarrow> (Err e, w')
      | (Panic p, w') \<Rightarrow> (Panic p, w'))"

text \<open>Calls without an object.\<close>

definition new_connection ::
  "('pool, 'sk, 'vk, 'rk, 'cert, 'spki, 'pk) bridge_env \<Rightarrow> dart_opaque \<Rightarrow> client_info \<Rightarrow> 'pool bridge_world \<Rightarrow>
     unit progress \<times> 'pool bridge_world" where
  "new_connection E callback client w =
     dart_fn_body E callback (length (bw_connections w))
       (w\<lparr> bw_connections := bw_connections w @ [\<lparr> bc_client = client, bc_writer_gone = False, bc_queued = [] \<rparr>] \<rparr>)"

definition run_connect ::
  "('pool, 'sk, 'vk, 'rk, 'cert, 'spki, 'pk) bridge_env \<Rightarrow>
     connect_args \<Rightarrow> 'pool bridge_world \<Rightarrow> wire_reply \<times> 'pool bridge_world" where
  "run_connect E args w =
     (case args of (sink, uri, info, private_key, callback) \<Rightarrow>
        (case bridge_connect (be_crypto E) (be_now E) (be_to_json E) (be_from_json E) (be_connect_async E) uri info
                private_key (new_connection E callback) w of
           ((events, r), w') \<Rightarrow>
             (case r of
                Waits \<Rightarrow> NoReply
              | Returns (Ok u) \<Rightarrow> ReplyOk (enc_unit ())
              | Returns (Err e) \<Rightarrow> ReplyErr (enc_unit ())
              | Returns (Panic p) \<Rightarrow> ReplyPanic p,
              sink_add sink (map (map_sink_event (enc_ws_server_message (be_big E))) events) w')))"

definition enable_debug_logging ::
  "('pool, 'sk, 'vk, 'rk, 'cert, 'spki, 'pk) bridge_env \<Rightarrow> 'pool bridge_world \<Rightarrow> unit res \<times> 'pool bridge_world" where
  "enable_debug_logging E w =
     (case be_try_init E of Some m \<Rightarrow> (Err (Anyhow m), w) | None \<Rightarrow> (Ok (), w\<lparr> bw_logging := True \<rparr>))"

section \<open>Tasks\<close>

text \<open>
  What a wire function leaves to be run: the object to lock, how it is locked, and the call, which
  gives the reference it took over back at its end.
\<close>

record 'w wire_task =
  wt_object :: "(object_kind \<times> u64) option"
  wt_mode :: lock_mode
  wt_call :: "'w \<Rightarrow> wire_reply \<times> 'w"

definition release ::
  "('pool, 'sk, 'vk, 'rk, 'cert, 'spki, 'pk) bridge_env \<Rightarrow> (object_kind \<times> u64) option \<Rightarrow>
     'pool bridge_world \<Rightarrow> 'pool bridge_world" where
  "release E target w =
     (case target of
        None \<Rightarrow> w
      | Some (k, h) \<Rightarrow> rust_arc_strong_count (be_pool E) DecrementStrongCount k h w)"

definition released ::
  "('pool, 'sk, 'vk, 'rk, 'cert, 'spki, 'pk) bridge_env \<Rightarrow> (object_kind \<times> u64) option \<Rightarrow>
     'a \<times> 'pool bridge_world \<Rightarrow> 'a \<times> 'pool bridge_world" where
  "released E target out = (case out of (r, w) \<Rightarrow> (r, release E target w))"

definition read_args ::
  "('pool, 'sk, 'vk, 'rk, 'cert, 'spki, 'pk) bridge_env \<Rightarrow> 'a decoder \<Rightarrow> bytes \<Rightarrow> 'a res" where
  "read_args E args bs = res_bind (args bs) (\<lambda>(x, rest). res_bind (be_end E rest) (\<lambda>_. Ok x))"

text \<open>
  The common part of the wire functions: decode in order, check that the message is used up, and
  yield the task. When decoding panics after the handle was read, its reference is given back.
\<close>

definition with_object ::
  "('pool, 'sk, 'vk, 'rk, 'cert, 'spki, 'pk) bridge_env \<Rightarrow> object_kind \<Rightarrow> lock_mode \<Rightarrow> 'a decoder \<Rightarrow>
     ('a \<Rightarrow> nat \<Rightarrow> 'pool bridge_world \<Rightarrow> wire_reply \<times> 'pool bridge_world) \<Rightarrow> bytes \<Rightarrow> 'pool bridge_world \<Rightarrow>
     'pool bridge_world wire_task res \<times> 'pool bridge_world" where
  "with_object E k mode args call bs w =
     (case dec_opaque (be_big E) (be_pool E) k (bw_pool w) bs of
        Err e \<Rightarrow> (Err e, w)
      | Panic p \<Rightarrow> (Panic p, w)
      | Ok ((h, obj), rest) \<Rightarrow>
          (case read_args E args rest of
             Ok x \<Rightarrow>
               (Ok \<lparr> wt_object = Some (k, h), wt_mode = mode,
                     wt_call = (\<lambda>w. released E (Some (k, h)) (call x obj w)) \<rparr>, w)
           | Err e \<Rightarrow> (Err e, release E (Some (k, h)) w)
           | Panic p \<Rightarrow> (Panic p, release E (Some (k, h)) w)))"

definition without_object ::
  "('pool, 'sk, 'vk, 'rk, 'cert, 'spki, 'pk) bridge_env \<Rightarrow> 'a decoder \<Rightarrow>
     ('a \<Rightarrow> 'pool bridge_world \<Rightarrow> wire_reply \<times> 'pool bridge_world) \<Rightarrow> bytes \<Rightarrow> 'pool bridge_world \<Rightarrow>
     'pool bridge_world wire_task res \<times> 'pool bridge_world" where
  "without_object E args call bs w =
     (case read_args E args bs of
        Ok x \<Rightarrow> (Ok \<lparr> wt_object = None, wt_mode = LockShared, wt_call = call x \<rparr>, w)
      | Err e \<Rightarrow> (Err e, w)
      | Panic p \<Rightarrow> (Panic p, w))"

section \<open>The wire functions\<close>

text \<open>The argument lists that are longer than one value.\<close>

definition dec_accept_args ::
  "bool \<Rightarrow> accept_args decoder" where
  "dec_accept_args big =
     d_bind (dec_vec big (dec_string big)) (\<lambda>stun_servers.
     d_bind (dec_ws_server_sdp_message big) (\<lambda>offer.
     d_bind (dec_string big) (\<lambda>private_key.
     d_bind (dec_option (dec_expecting_public_key big)) (\<lambda>expecting.
     d_bind (dec_option (dec_pin_config big)) (\<lambda>pin_cfg.
     d_return (stun_servers, offer, private_key, expecting, pin_cfg))))))"

definition dec_offer_args ::
  "bool \<Rightarrow> offer_args decoder" where
  "dec_offer_args big =
     d_bind (dec_vec big (dec_string big)) (\<lambda>stun_servers.
     d_bind (dec_uuid big) (\<lambda>target.
     d_bind (dec_string big) (\<lambda>private_key.
     d_bind (dec_option (dec_expecting_public_key big)) (\<lambda>expecting.
     d_bind (dec_option (dec_pin_config big)) (\<lambda>pin_cfg.
     d_bind (dec_vec big (dec_file_dto big)) (\<lambda>files.
     d_return (stun_servers, target, private_key, expecting, pin_cfg, files)))))))"

definition dec_connect_args ::
  "bool \<Rightarrow> connect_args decoder" where
  "dec_connect_args big =
     d_bind (dec_sink big) (\<lambda>sink.
     d_bind (dec_string big) (\<lambda>uri.
     d_bind (dec_proposing_client_info big) (\<lambda>info.
     d_bind (dec_string big) (\<lambda>private_key.
     d_bind (dec_dart_opaque big) (\<lambda>on_connection.
     d_return (sink, uri, info, private_key, on_connection))))))"

definition dec_cert_args :: "bool \<Rightarrow> (string \<times> string) decoder" where
  "dec_cert_args big =
     d_bind (dec_string big) (\<lambda>cert.
     d_bind (dec_string big) (\<lambda>public_key. d_return (cert, public_key)))"

text \<open>\<open>LsSignalingConnection\<close>\<close>

definition wire_accept_offer ::
  "('pool, 'sk, 'vk, 'rk, 'cert, 'spki, 'pk) bridge_env \<Rightarrow> bytes \<Rightarrow> 'pool bridge_world \<Rightarrow>
     'pool bridge_world wire_task res \<times> 'pool bridge_world" where
  "wire_accept_offer E =
     with_object E KConnection LockShared (dec_accept_args (be_big E))
       (\<lambda>args i w. reply_object E KReceiveController (accept_offer E args i w))"

definition wire_send_offer ::
  "('pool, 'sk, 'vk, 'rk, 'cert, 'spki, 'pk) bridge_env \<Rightarrow> bytes \<Rightarrow> 'pool bridge_world \<Rightarrow>
     'pool bridge_world wire_task res \<times> 'pool bridge_world" where
  "wire_send_offer E =
     with_object E KConnection LockShared (dec_offer_args (be_big E))
       (\<lambda>args i w. reply_object E KSendController (start_offer E args i w))"

definition wire_update_info ::
  "('pool, 'sk, 'vk, 'rk, 'cert, 'spki, 'pk) bridge_env \<Rightarrow> bytes \<Rightarrow> 'pool bridge_world \<Rightarrow>
     'pool bridge_world wire_task res \<times> 'pool bridge_world" where
  "wire_update_info E =
     with_object E KConnection LockShared (dec_client_info_without_id (be_big E))
       (\<lambda>info i w. reply E enc_unit (update_info info i w))"

text \<open>\<open>RTCFileReceiver\<close> and \<open>RTCFileSender\<close>\<close>

definition wire_get_file_id ::
  "('pool, 'sk, 'vk, 'rk, 'cert, 'spki, 'pk) bridge_env \<Rightarrow> bytes \<Rightarrow> 'pool bridge_world \<Rightarrow>
     'pool bridge_world wire_task res \<times> 'pool bridge_world" where
  "wire_get_file_id E =
     with_object E KFileReceiver LockShared (d_return ())
       (\<lambda>_ i w. reply E (enc_string (be_big E)) (file_id_of i w))"

definition wire_receive ::
  "('pool, 'sk, 'vk, 'rk, 'cert, 'spki, 'pk) bridge_env \<Rightarrow> bytes \<Rightarrow> 'pool bridge_world \<Rightarrow>
     'pool bridge_world wire_task res \<times> 'pool bridge_world" where
  "wire_receive E =
     with_object E KFileReceiver LockShared (dec_sink (be_big E))
       (\<lambda>sink i w. reply E enc_unit (receive_data E sink i w))"

definition wire_send ::
  "('pool, 'sk, 'vk, 'rk, 'cert, 'spki, 'pk) bridge_env \<Rightarrow> bytes \<Rightarrow> 'pool bridge_world \<Rightarrow>
     'pool bridge_world wire_task res \<times> 'pool bridge_world" where
  "wire_send E =
     with_object E KFileSender LockShared (dec_vec (be_big E) dec_u8)
       (\<lambda>block i w. reply E enc_unit (send_data block i w))"

text \<open>\<open>RTCReceiveController\<close>\<close>

definition wire_decline ::
  "('pool, 'sk, 'vk, 'rk, 'cert, 'spki, 'pk) bridge_env \<Rightarrow> bytes \<Rightarrow> 'pool bridge_world \<Rightarrow>
     'pool bridge_world wire_task res \<times> 'pool bridge_world" where
  "wire_decline E =
     with_object E KReceiveController LockShared (d_return ())
       (\<lambda>_ i w. reply E enc_unit (on_receiver i decline w))"

definition wire_rx_listen_error ::
  "('pool, 'sk, 'vk, 'rk, 'cert, 'spki, 'pk) bridge_env \<Rightarrow> bytes \<Rightarrow> 'pool bridge_world \<Rightarrow>
     'pool bridge_world wire_task res \<times> 'pool bridge_world" where
  "wire_rx_listen_error E =
     with_object E KReceiveController LockShared (dec_sink (be_big E))
       (\<lambda>sink i w. reply E enc_unit (stream_to sink (enc_rtc_file_error (be_big E)) (on_receiver i listen_error w)))"

definition wire_listen_files ::
  "('pool, 'sk, 'vk, 'rk, 'cert, 'spki, 'pk) bridge_env \<Rightarrow> bytes \<Rightarrow> 'pool bridge_world \<Rightarrow>
     'pool bridge_world wire_task res \<times> 'pool bridge_world" where
  "wire_listen_files E =
     with_object E KReceiveController LockShared (d_return ())
       (\<lambda>_ i w. reply E (enc_vec (be_big E) (enc_file_dto (be_big E))) (on_receiver i listen_files w))"

definition wire_listen_receiving ::
  "('pool, 'sk, 'vk, 'rk, 'cert, 'spki, 'pk) bridge_env \<Rightarrow> bytes \<Rightarrow> 'pool bridge_world \<Rightarrow>
     'pool bridge_world wire_task res \<times> 'pool bridge_world" where
  "wire_listen_receiving E =
     with_object E KReceiveController LockShared (dec_sink (be_big E))
       (\<lambda>sink i w. reply E enc_unit (stream_receiving E sink i w))"

definition wire_rx_listen_status ::
  "('pool, 'sk, 'vk, 'rk, 'cert, 'spki, 'pk) bridge_env \<Rightarrow> bytes \<Rightarrow> 'pool bridge_world \<Rightarrow>
     'pool bridge_world wire_task res \<times> 'pool bridge_world" where
  "wire_rx_listen_status E =
     with_object E KReceiveController LockShared (dec_sink (be_big E))
       (\<lambda>sink i w. reply E enc_unit (stream_to sink (enc_rtc_status (be_big E)) (on_receiver i listen_status w)))"

definition wire_send_file_status ::
  "('pool, 'sk, 'vk, 'rk, 'cert, 'spki, 'pk) bridge_env \<Rightarrow> bytes \<Rightarrow> 'pool bridge_world \<Rightarrow>
     'pool bridge_world wire_task res \<times> 'pool bridge_world" where
  "wire_send_file_status E =
     with_object E KReceiveController LockShared (dec_rtc_send_file_response (be_big E))
       (\<lambda>status i w. reply E enc_unit (on_receiver i (send_file_status status) w))"

definition wire_rx_send_pin ::
  "('pool, 'sk, 'vk, 'rk, 'cert, 'spki, 'pk) bridge_env \<Rightarrow> bytes \<Rightarrow> 'pool bridge_world \<Rightarrow>
     'pool bridge_world wire_task res \<times> 'pool bridge_world" where
  "wire_rx_send_pin E =
     with_object E KReceiveController LockShared (dec_string (be_big E))
       (\<lambda>p i w. reply E enc_unit (note_pin KReceiveController i (on_receiver i (rx_send_pin p) w)))"

definition wire_send_selection ::
  "('pool, 'sk, 'vk, 'rk, 'cert, 'spki, 'pk) bridge_env \<Rightarrow> bytes \<Rightarrow> 'pool bridge_world \<Rightarrow>
     'pool bridge_world wire_task res \<times> 'pool bridge_world" where
  "wire_send_selection E =
     with_object E KReceiveController LockShared (dec_string_set (be_big E))
       (\<lambda>selection i w. reply E enc_unit (on_receiver i (send_selection selection) w))"

text \<open>\<open>RTCSendController\<close>: the two streams take \<open>&mut self\<close>.\<close>

definition wire_tx_listen_error ::
  "('pool, 'sk, 'vk, 'rk, 'cert, 'spki, 'pk) bridge_env \<Rightarrow> bytes \<Rightarrow> 'pool bridge_world \<Rightarrow>
     'pool bridge_world wire_task res \<times> 'pool bridge_world" where
  "wire_tx_listen_error E =
     with_object E KSendController LockExclusive (dec_sink (be_big E))
       (\<lambda>sink i w. reply E enc_unit (stream_to sink (enc_rtc_file_error (be_big E)) (on_sender i tx_listen_error w)))"

definition wire_listen_selected_files ::
  "('pool, 'sk, 'vk, 'rk, 'cert, 'spki, 'pk) bridge_env \<Rightarrow> bytes \<Rightarrow> 'pool bridge_world \<Rightarrow>
     'pool bridge_world wire_task res \<times> 'pool bridge_world" where
  "wire_listen_selected_files E =
     with_object E KSendController LockShared (d_return ())
       (\<lambda>_ i w. reply E (enc_string_set (be_big E)) (on_sender i listen_selected_files w))"

definition wire_tx_listen_status ::
  "('pool, 'sk, 'vk, 'rk, 'cert, 'spki, 'pk) bridge_env \<Rightarrow> bytes \<Rightarrow> 'pool bridge_world \<Rightarrow>
     'pool bridge_world wire_task res \<times> 'pool bridge_world" where
  "wire_tx_listen_status E =
     with_object E KSendController LockExclusive (dec_sink (be_big E))
       (\<lambda>sink i w. reply E enc_unit (stream_to sink (enc_rtc_status (be_big E)) (on_sender i tx_listen_status w)))"

definition wire_send_file ::
  "('pool, 'sk, 'vk, 'rk, 'cert, 'spki, 'pk) bridge_env \<Rightarrow> bytes \<Rightarrow> 'pool bridge_world \<Rightarrow>
     'pool bridge_world wire_task res \<times> 'pool bridge_world" where
  "wire_send_file E =
     with_object E KSendController LockShared (dec_string (be_big E))
       (\<lambda>file_id i w. reply_object E KFileSender (new_file_sender file_id i w))"

definition wire_tx_send_pin ::
  "('pool, 'sk, 'vk, 'rk, 'cert, 'spki, 'pk) bridge_env \<Rightarrow> bytes \<Rightarrow> 'pool bridge_world \<Rightarrow>
     'pool bridge_world wire_task res \<times> 'pool bridge_world" where
  "wire_tx_send_pin E =
     with_object E KSendController LockShared (dec_string (be_big E))
       (\<lambda>p i w. reply E enc_unit (note_pin KSendController i (on_sender i (tx_send_pin p) w)))"

text \<open>Functions without an object.\<close>

definition wire_connect ::
  "('pool, 'sk, 'vk, 'rk, 'cert, 'spki, 'pk) bridge_env \<Rightarrow> bytes \<Rightarrow> 'pool bridge_world \<Rightarrow>
     'pool bridge_world wire_task res \<times> 'pool bridge_world" where
  "wire_connect E =
     without_object E (dec_connect_args (be_big E)) (run_connect E)"

definition wire_enable_debug_logging ::
  "('pool, 'sk, 'vk, 'rk, 'cert, 'spki, 'pk) bridge_env \<Rightarrow> bytes \<Rightarrow> 'pool bridge_world \<Rightarrow>
     'pool bridge_world wire_task res \<times> 'pool bridge_world" where
  "wire_enable_debug_logging E =
     without_object E (d_return ()) (\<lambda>_ w. reply E enc_unit (enable_debug_logging E w))"

definition wire_generate_key_pair ::
  "('pool, 'sk, 'vk, 'rk, 'cert, 'spki, 'pk) bridge_env \<Rightarrow> bytes \<Rightarrow> 'pool bridge_world \<Rightarrow>
     'pool bridge_world wire_task res \<times> 'pool bridge_world" where
  "wire_generate_key_pair E =
     without_object E (d_return ())
       (\<lambda>_ w. reply E (enc_key_pair (be_big E)) (generate_key_pair (be_crypto E) (be_os_rng E), w))"

definition wire_verify_cert ::
  "('pool, 'sk, 'vk, 'rk, 'cert, 'spki, 'pk) bridge_env \<Rightarrow> bytes \<Rightarrow> 'pool bridge_world \<Rightarrow>
     'pool bridge_world wire_task res \<times> 'pool bridge_world" where
  "wire_verify_cert E =
     without_object E (dec_cert_args (be_big E))
       (\<lambda>(cert, public_key) w. reply E enc_unit (bridge_verify_cert (be_x509 E) cert public_key, w))"

section \<open>The dispatchers\<close>

definition pde_ffi_dispatcher_primary ::
  "('pool, 'sk, 'vk, 'rk, 'cert, 'spki, 'pk) bridge_env \<Rightarrow> u32 \<Rightarrow> bytes \<Rightarrow> 'pool bridge_world \<Rightarrow>
     'pool bridge_world wire_task res \<times> 'pool bridge_world" where
  "pde_ffi_dispatcher_primary E func_id =
     (if func_id = 1 then wire_accept_offer E
      else if func_id = 2 then wire_send_offer E
      else if func_id = 3 then wire_update_info E
      else if func_id = 4 then wire_get_file_id E
      else if func_id = 5 then wire_receive E
      else if func_id = 6 then wire_send E
      else if func_id = 7 then wire_decline E
      else if func_id = 8 then wire_rx_listen_error E
      else if func_id = 9 then wire_listen_files E
      else if func_id = 10 then wire_listen_receiving E
      else if func_id = 11 then wire_rx_listen_status E
      else if func_id = 12 then wire_send_file_status E
      else if func_id = 13 then wire_rx_send_pin E
      else if func_id = 14 then wire_send_selection E
      else if func_id = 15 then wire_tx_listen_error E
      else if func_id = 16 then wire_listen_selected_files E
      else if func_id = 17 then wire_tx_listen_status E
      else if func_id = 18 then wire_send_file E
      else if func_id = 19 then wire_tx_send_pin E
      else if func_id = 20 then wire_connect E
      else if func_id = 21 then wire_enable_debug_logging E
      else if func_id = 22 then wire_generate_key_pair E
      else if func_id = 23 then wire_verify_cert E
      else (\<lambda>bs w. (Panic ''internal error: entered unreachable code'', w)))"

definition pde_ffi_dispatcher_sync :: "u32 \<Rightarrow> bytes \<Rightarrow> bytes res" where
  "pde_ffi_dispatcher_sync func_id bs = Panic ''internal error: entered unreachable code''"

section \<open>Specification vocabulary\<close>

text \<open>
  What the application can ask for: the functions of \<open>app/rust/src/api\<close> with their arguments and,
  for methods, the handle of the object; how Dart writes the call down; and what it means.
\<close>

datatype api_call =
    AcceptOffer u64 accept_args
  | SendOffer u64 offer_args
  | UpdateInfo u64 client_info_without_id
  | GetFileId u64
  | Receive u64 stream_sink
  | SendData u64 bytes
  | Decline u64
  | RxListenError u64 stream_sink
  | ListenFiles u64
  | ListenReceiving u64 stream_sink
  | RxListenStatus u64 stream_sink
  | SendFileStatus u64 rtc_send_file_response
  | RxSendPin u64 string
  | SendSelection u64 "string list"
  | TxListenError u64 stream_sink
  | ListenSelectedFiles u64
  | TxListenStatus u64 stream_sink
  | SendFile u64 string
  | TxSendPin u64 string
  | Connect connect_args
  | EnableDebugLogging
  | GenerateKeyPair
  | VerifyCert "string \<times> string"

fun call_id :: "api_call \<Rightarrow> u32" where
  "call_id (AcceptOffer h a) = 1"
| "call_id (SendOffer h a) = 2"
| "call_id (UpdateInfo h a) = 3"
| "call_id (GetFileId h) = 4"
| "call_id (Receive h a) = 5"
| "call_id (SendData h a) = 6"
| "call_id (Decline h) = 7"
| "call_id (RxListenError h a) = 8"
| "call_id (ListenFiles h) = 9"
| "call_id (ListenReceiving h a) = 10"
| "call_id (RxListenStatus h a) = 11"
| "call_id (SendFileStatus h a) = 12"
| "call_id (RxSendPin h a) = 13"
| "call_id (SendSelection h a) = 14"
| "call_id (TxListenError h a) = 15"
| "call_id (ListenSelectedFiles h) = 16"
| "call_id (TxListenStatus h a) = 17"
| "call_id (SendFile h a) = 18"
| "call_id (TxSendPin h a) = 19"
| "call_id (Connect a) = 20"
| "call_id EnableDebugLogging = 21"
| "call_id GenerateKeyPair = 22"
| "call_id (VerifyCert a) = 23"

fun call_target :: "api_call \<Rightarrow> (object_kind \<times> u64) option" where
  "call_target (AcceptOffer h a) = Some (KConnection, h)"
| "call_target (SendOffer h a) = Some (KConnection, h)"
| "call_target (UpdateInfo h a) = Some (KConnection, h)"
| "call_target (GetFileId h) = Some (KFileReceiver, h)"
| "call_target (Receive h a) = Some (KFileReceiver, h)"
| "call_target (SendData h a) = Some (KFileSender, h)"
| "call_target (Decline h) = Some (KReceiveController, h)"
| "call_target (RxListenError h a) = Some (KReceiveController, h)"
| "call_target (ListenFiles h) = Some (KReceiveController, h)"
| "call_target (ListenReceiving h a) = Some (KReceiveController, h)"
| "call_target (RxListenStatus h a) = Some (KReceiveController, h)"
| "call_target (SendFileStatus h a) = Some (KReceiveController, h)"
| "call_target (RxSendPin h a) = Some (KReceiveController, h)"
| "call_target (SendSelection h a) = Some (KReceiveController, h)"
| "call_target (TxListenError h a) = Some (KSendController, h)"
| "call_target (ListenSelectedFiles h) = Some (KSendController, h)"
| "call_target (TxListenStatus h a) = Some (KSendController, h)"
| "call_target (SendFile h a) = Some (KSendController, h)"
| "call_target (TxSendPin h a) = Some (KSendController, h)"
| "call_target (Connect a) = None"
| "call_target EnableDebugLogging = None"
| "call_target GenerateKeyPair = None"
| "call_target (VerifyCert a) = None"

fun call_mode :: "api_call \<Rightarrow> lock_mode" where
  "call_mode (TxListenError h a) = LockExclusive"
| "call_mode (TxListenStatus h a) = LockExclusive"
| "call_mode c = LockShared"

definition enc_sink_name :: "bool \<Rightarrow> stream_sink \<Rightarrow> bytes" where
  "enc_sink_name big sink = (case sink of StreamSink name \<Rightarrow> enc_string big name)"

definition enc_accept_args :: "bool \<Rightarrow> accept_args \<Rightarrow> bytes" where
  "enc_accept_args big a =
     (case a of (stun_servers, offer, private_key, expecting, pin_cfg) \<Rightarrow>
        enc_vec big (enc_string big) stun_servers @ enc_ws_server_sdp_message big offer @ enc_string big private_key @
        enc_option (enc_expecting_public_key big) expecting @ enc_option (enc_pin_config big) pin_cfg)"

definition enc_offer_args :: "bool \<Rightarrow> offer_args \<Rightarrow> bytes" where
  "enc_offer_args big a =
     (case a of (stun_servers, target, private_key, expecting, pin_cfg, files) \<Rightarrow>
        enc_vec big (enc_string big) stun_servers @ enc_uuid big target @ enc_string big private_key @
        enc_option (enc_expecting_public_key big) expecting @ enc_option (enc_pin_config big) pin_cfg @
        enc_vec big (enc_file_dto big) files)"

definition enc_connect_args :: "bool \<Rightarrow> connect_args \<Rightarrow> bytes" where
  "enc_connect_args big a =
     (case a of (sink, uri, info, private_key, callback) \<Rightarrow>
        enc_sink_name big sink @ enc_string big uri @ enc_proposing_client_info big info @ enc_string big private_key @
        enc_dart_opaque big callback)"

definition enc_cert_args :: "bool \<Rightarrow> string \<times> string \<Rightarrow> bytes" where
  "enc_cert_args big a = enc_string big (fst a) @ enc_string big (snd a)"

definition ok_sink :: "stream_sink \<Rightarrow> bool" where
  "ok_sink sink = (case sink of StreamSink name \<Rightarrow> ok_string name)"

definition ok_expecting :: "expecting_public_key \<Rightarrow> bool" where
  "ok_expecting v \<longleftrightarrow> ok_string (ep_public_key v) \<and> ok_string (ep_kind v)"

definition ok_pin_config :: "pin_config \<Rightarrow> bool" where
  "ok_pin_config v \<longleftrightarrow> ok_string (pin v)"

definition ok_accept_args :: "accept_args \<Rightarrow> bool" where
  "ok_accept_args a =
     (case a of (stun_servers, offer, private_key, expecting, pin_cfg) \<Rightarrow>
        ok_vec ok_string stun_servers \<and> ok_sdp offer \<and> ok_string private_key \<and>
        pred_option ok_expecting expecting \<and> pred_option ok_pin_config pin_cfg)"

definition ok_offer_args :: "offer_args \<Rightarrow> bool" where
  "ok_offer_args a =
     (case a of (stun_servers, target, private_key, expecting, pin_cfg, files) \<Rightarrow>
        ok_vec ok_string stun_servers \<and> ok_string private_key \<and> pred_option ok_expecting expecting \<and>
        pred_option ok_pin_config pin_cfg \<and> ok_vec ok_file_dto files)"

definition ok_connect_args :: "connect_args \<Rightarrow> bool" where
  "ok_connect_args a =
     (case a of (sink, uri, info, private_key, callback) \<Rightarrow>
        ok_sink sink \<and> ok_string uri \<and>
        (ok_string (pc_alias info) \<and> ok_string (pc_version info) \<and> pred_option ok_string (pc_device_model info)) \<and>
        ok_string private_key)"

fun call_args :: "bool \<Rightarrow> api_call \<Rightarrow> bytes" where
  "call_args big (AcceptOffer h a) = enc_accept_args big a"
| "call_args big (SendOffer h a) = enc_offer_args big a"
| "call_args big (UpdateInfo h a) = enc_client_info_without_id big a"
| "call_args big (Receive h a) = enc_sink_name big a"
| "call_args big (SendData h a) = enc_vec big enc_u8 a"
| "call_args big (RxListenError h a) = enc_sink_name big a"
| "call_args big (ListenReceiving h a) = enc_sink_name big a"
| "call_args big (RxListenStatus h a) = enc_sink_name big a"
| "call_args big (SendFileStatus h a) = enc_rtc_send_file_response big a"
| "call_args big (RxSendPin h a) = enc_string big a"
| "call_args big (SendSelection h a) = enc_string_set big a"
| "call_args big (TxListenError h a) = enc_sink_name big a"
| "call_args big (TxListenStatus h a) = enc_sink_name big a"
| "call_args big (SendFile h a) = enc_string big a"
| "call_args big (TxSendPin h a) = enc_string big a"
| "call_args big (Connect a) = enc_connect_args big a"
| "call_args big (VerifyCert a) = enc_cert_args big a"
| "call_args big c = []"

definition call_message :: "bool \<Rightarrow> api_call \<Rightarrow> bytes" where
  "call_message big c = (case call_target c of None \<Rightarrow> [] | Some (k, h) \<Rightarrow> enc_usize big h) @ call_args big c"

fun ok_call :: "api_call \<Rightarrow> bool" where
  "ok_call (AcceptOffer h a) \<longleftrightarrow> ok_accept_args a"
| "ok_call (SendOffer h a) \<longleftrightarrow> ok_offer_args a"
| "ok_call (UpdateInfo h a) \<longleftrightarrow> ok_client_info_without_id a"
| "ok_call (Receive h a) \<longleftrightarrow> ok_sink a"
| "ok_call (SendData h a) \<longleftrightarrow> ok_vec (\<lambda>b. True) a"
| "ok_call (RxListenError h a) \<longleftrightarrow> ok_sink a"
| "ok_call (ListenReceiving h a) \<longleftrightarrow> ok_sink a"
| "ok_call (RxListenStatus h a) \<longleftrightarrow> ok_sink a"
| "ok_call (SendFileStatus h a) \<longleftrightarrow> ok_string (fr_id a) \<and> pred_option ok_string (fr_error a)"
| "ok_call (RxSendPin h a) \<longleftrightarrow> ok_string a"
| "ok_call (SendSelection h a) \<longleftrightarrow> ok_vec ok_string a \<and> distinct a"
| "ok_call (TxListenError h a) \<longleftrightarrow> ok_sink a"
| "ok_call (TxListenStatus h a) \<longleftrightarrow> ok_sink a"
| "ok_call (SendFile h a) \<longleftrightarrow> ok_string a"
| "ok_call (TxSendPin h a) \<longleftrightarrow> ok_string a"
| "ok_call (Connect a) \<longleftrightarrow> ok_connect_args a"
| "ok_call (VerifyCert a) \<longleftrightarrow> ok_string (fst a) \<and> ok_string (snd a)"
| "ok_call c \<longleftrightarrow> True"

fun call_effect ::
  "('pool, 'sk, 'vk, 'rk, 'cert, 'spki, 'pk) bridge_env \<Rightarrow> api_call \<Rightarrow> nat \<Rightarrow> 'pool bridge_world \<Rightarrow>
     wire_reply \<times> 'pool bridge_world" where
  "call_effect E (AcceptOffer h a) i w = reply_object E KReceiveController (accept_offer E a i w)"
| "call_effect E (SendOffer h a) i w = reply_object E KSendController (start_offer E a i w)"
| "call_effect E (UpdateInfo h a) i w = reply E enc_unit (update_info a i w)"
| "call_effect E (GetFileId h) i w = reply E (enc_string (be_big E)) (file_id_of i w)"
| "call_effect E (Receive h a) i w = reply E enc_unit (receive_data E a i w)"
| "call_effect E (SendData h a) i w = reply E enc_unit (send_data a i w)"
| "call_effect E (Decline h) i w = reply E enc_unit (on_receiver i decline w)"
| "call_effect E (RxListenError h a) i w = reply E enc_unit (stream_to a (enc_rtc_file_error (be_big E)) (on_receiver i listen_error w))"
| "call_effect E (ListenFiles h) i w = reply E (enc_vec (be_big E) (enc_file_dto (be_big E))) (on_receiver i listen_files w)"
| "call_effect E (ListenReceiving h a) i w = reply E enc_unit (stream_receiving E a i w)"
| "call_effect E (RxListenStatus h a) i w = reply E enc_unit (stream_to a (enc_rtc_status (be_big E)) (on_receiver i listen_status w))"
| "call_effect E (SendFileStatus h a) i w = reply E enc_unit (on_receiver i (send_file_status a) w)"
| "call_effect E (RxSendPin h a) i w = reply E enc_unit (note_pin KReceiveController i (on_receiver i (rx_send_pin a) w))"
| "call_effect E (SendSelection h a) i w = reply E enc_unit (on_receiver i (send_selection a) w)"
| "call_effect E (TxListenError h a) i w = reply E enc_unit (stream_to a (enc_rtc_file_error (be_big E)) (on_sender i tx_listen_error w))"
| "call_effect E (ListenSelectedFiles h) i w = reply E (enc_string_set (be_big E)) (on_sender i listen_selected_files w)"
| "call_effect E (TxListenStatus h a) i w = reply E enc_unit (stream_to a (enc_rtc_status (be_big E)) (on_sender i tx_listen_status w))"
| "call_effect E (SendFile h a) i w = reply_object E KFileSender (new_file_sender a i w)"
| "call_effect E (TxSendPin h a) i w = reply E enc_unit (note_pin KSendController i (on_sender i (tx_send_pin a) w))"
| "call_effect E (Connect a) i w = run_connect E a w"
| "call_effect E EnableDebugLogging i w = reply E enc_unit (enable_debug_logging E w)"
| "call_effect E GenerateKeyPair i w = reply E (enc_key_pair (be_big E)) (generate_key_pair (be_crypto E) (be_os_rng E), w)"
| "call_effect E (VerifyCert a) i w = reply E enc_unit (bridge_verify_cert (be_x509 E) (fst a) (snd a), w)"

text \<open>A message that is refused leaves no task; what is left of the state is \<open>w\<close>.\<close>

definition refused :: "'w \<Rightarrow> 'a res \<times> 'w \<Rightarrow> bool" where
  "refused w out \<longleftrightarrow> panics (fst out) \<and> snd out = w"

text \<open>When a message is cut after \<open>n\<close> bytes, a handle that could be read is given back.\<close>

definition given_back ::
  "('pool, 'sk, 'vk, 'rk, 'cert, 'spki, 'pk) bridge_env \<Rightarrow> (object_kind \<times> u64) option \<Rightarrow> nat \<Rightarrow>
     'pool bridge_world \<Rightarrow> 'pool bridge_world" where
  "given_back E target n w = (if n < 8 then w else release E target w)"

text \<open>The task a call must become, for the object its handle refers to.\<close>

definition call_task ::
  "('pool, 'sk, 'vk, 'rk, 'cert, 'spki, 'pk) bridge_env \<Rightarrow> api_call \<Rightarrow> nat \<Rightarrow> 'pool bridge_world wire_task" where
  "call_task E c i =
     \<lparr> wt_object = call_target c, wt_mode = call_mode c,
       wt_call = (\<lambda>w. released E (call_target c) (call_effect E c i w)) \<rparr>"

section \<open>The codecs of the argument lists\<close>

interpretation c_none: sse_codec "\<lambda>u. []" "d_return ()" "\<lambda>u. True"
  by unfold_locales (simp_all add: sse_simps sound_intros)

interpretation c_sink: sse_codec "enc_sink_name big" "dec_sink big" ok_sink for big
proof
  fix x rest assume "ok_sink x"
  then show "dec_sink big (enc_sink_name big x @ rest) = Ok (x, rest)"
    by (cases x) (simp add: dec_sink_def enc_sink_name_def ok_sink_def sse_simps leaf_codecs)
qed (simp add: dec_sink_def sound_intros)

interpretation c_dart_opaque: sse_codec "enc_dart_opaque big" "dec_dart_opaque big" "\<lambda>v. True" for big
proof
  fix x rest
  show "dec_dart_opaque big (enc_dart_opaque big x @ rest) = Ok (x, rest)"
    by (cases x) (simp add: dec_dart_opaque_def enc_dart_opaque_def sse_simps)
qed (simp add: dec_dart_opaque_def sound_intros)

interpretation c_expecting_option: sse_codec "enc_option (enc_expecting_public_key big)"
    "dec_option (dec_expecting_public_key big)" "pred_option ok_expecting" for big
  unfolding ok_expecting_def [abs_def] by (rule c_expecting.option_codec)

interpretation c_pin_option: sse_codec "enc_option (enc_pin_config big)" "dec_option (dec_pin_config big)"
    "pred_option ok_pin_config" for big
  unfolding ok_pin_config_def [abs_def] by (rule c_pin_config.option_codec)

lemmas argument_codecs = leaf_codecs c_strings.dec_enc c_sdp.dec_enc c_expecting_option.dec_enc c_pin_option.dec_enc
  c_files.dec_enc c_sink.dec_enc c_dart_opaque.dec_enc c_proposing.dec_enc

lemmas argument_sound = sound_intros c_strings.dec_sound c_sdp.dec_sound c_expecting_option.dec_sound
  c_pin_option.dec_sound c_files.dec_sound c_sink.dec_sound c_dart_opaque.dec_sound c_proposing.dec_sound

interpretation c_accept: sse_codec "enc_accept_args big" "dec_accept_args big" ok_accept_args for big
proof
  fix x rest assume "ok_accept_args x"
  then show "dec_accept_args big (enc_accept_args big x @ rest) = Ok (x, rest)"
    by (cases x) (simp add: dec_accept_args_def enc_accept_args_def ok_accept_args_def sse_simps argument_codecs)
qed (simp add: dec_accept_args_def argument_sound)

interpretation c_offer: sse_codec "enc_offer_args big" "dec_offer_args big" ok_offer_args for big
proof
  fix x rest assume "ok_offer_args x"
  then show "dec_offer_args big (enc_offer_args big x @ rest) = Ok (x, rest)"
    by (cases x) (simp add: dec_offer_args_def enc_offer_args_def ok_offer_args_def sse_simps argument_codecs)
qed (simp add: dec_offer_args_def argument_sound)

interpretation c_connect: sse_codec "enc_connect_args big" "dec_connect_args big" ok_connect_args for big
proof
  fix x rest assume "ok_connect_args x"
  then show "dec_connect_args big (enc_connect_args big x @ rest) = Ok (x, rest)"
    by (cases x) (simp add: dec_connect_args_def enc_connect_args_def ok_connect_args_def sse_simps argument_codecs)
qed (simp add: dec_connect_args_def argument_sound)

interpretation c_cert: sse_codec "enc_cert_args big" "dec_cert_args big" "\<lambda>a. ok_string (fst a) \<and> ok_string (snd a)" for big
  by unfold_locales (simp_all add: dec_cert_args_def enc_cert_args_def sse_simps leaf_codecs sound_intros)

section \<open>A wire function on what was encoded\<close>

lemma dec_opaque_enc:
  "op_decode P k h pool = Ok obj \<Longrightarrow> dec_opaque big P k pool (enc_usize big h @ rest) = Ok ((h, obj), rest)"
  by (simp add: dec_opaque_def sse_simps)

lemma dec_usize_cut:
  assumes "n < 8"
  shows "\<exists>p. dec_usize big (take n (enc_usize big h @ r)) = Panic p"
  using assms by (simp add: dec_usize_def enc_usize_def dec_word_def enc_word_def d_bind_def read_bytes_def)

context sse_codec
begin

lemma read_args_enc: "ok x \<Longrightarrow> be_end E [] = Ok () \<Longrightarrow> read_args E dec (enc x) = Ok x"
  by (simp add: read_args_def dec_enc_all)

lemma read_args_cut:
  assumes "ok x" "n < length (enc x)"
  shows "\<exists>p. read_args E dec (take n (enc x)) = Panic p"
  using truncated_panics [OF assms] by (auto simp: read_args_def panics_def split: res.splits)

lemma with_object_enc:
  assumes "ok x" "be_end E [] = Ok ()" "op_decode (be_pool E) k h (bw_pool w) = Ok obj"
  shows "with_object E k mode dec call (enc_usize (be_big E) h @ enc x) w =
     (Ok \<lparr> wt_object = Some (k, h), wt_mode = mode,
           wt_call = (\<lambda>w. released E (Some (k, h)) (call x obj w)) \<rparr>, w)"
  by (simp add: with_object_def dec_opaque_enc assms read_args_enc)

lemma without_object_enc:
  assumes "ok x" "be_end E [] = Ok ()"
  shows "without_object E dec call (enc x) w = (Ok \<lparr> wt_object = None, wt_mode = LockShared, wt_call = call x \<rparr>, w)"
  by (simp add: without_object_def assms read_args_enc)

lemma with_object_cut:
  assumes "ok x" "op_decode (be_pool E) k h (bw_pool w) = Ok obj" "n < length (enc_usize (be_big E) h @ enc x)"
  shows "refused (given_back E (Some (k, h)) n w)
     (with_object E k mode dec call (take n (enc_usize (be_big E) h @ enc x)) w)"
proof (cases "n < 8")
  case True
  then show ?thesis
    using dec_usize_cut [of n "be_big E" h "enc x"]
    by (auto simp: refused_def panics_def given_back_def with_object_def dec_opaque_def d_bind_def)
next
  case False
  have len: "length (enc_usize (be_big E) h) = 8" by (simp add: enc_usize_def enc_word_def)
  with False have "take n (enc_usize (be_big E) h @ enc x) = enc_usize (be_big E) h @ take (n - 8) (enc x)" by simp
  moreover have "n - 8 < length (enc x)" using assms(3) False len by simp
  then obtain p where "read_args E dec (take (n - 8) (enc x)) = Panic p"
    using read_args_cut [OF assms(1)] by blast
  ultimately show ?thesis
    using False by (simp add: refused_def panics_def given_back_def with_object_def dec_opaque_enc [OF assms(2)])
qed

lemma without_object_cut:
  assumes "ok x" "n < length (enc x)"
  shows "refused w (without_object E dec call (take n (enc x)) w)"
  using read_args_cut [OF assms, of E] by (auto simp: refused_def panics_def without_object_def)

end

lemmas wire_defs = wire_accept_offer_def wire_send_offer_def wire_update_info_def wire_get_file_id_def wire_receive_def
  wire_send_def wire_decline_def wire_rx_listen_error_def wire_listen_files_def wire_listen_receiving_def
  wire_rx_listen_status_def wire_send_file_status_def wire_rx_send_pin_def wire_send_selection_def
  wire_tx_listen_error_def wire_listen_selected_files_def wire_tx_listen_status_def wire_send_file_def
  wire_tx_send_pin_def wire_connect_def wire_enable_debug_logging_def wire_generate_key_pair_def wire_verify_cert_def

lemma no_args_enc:
  "be_end E [] = Ok () \<Longrightarrow> op_decode (be_pool E) k h (bw_pool w) = Ok obj \<Longrightarrow>
   with_object E k mode (d_return ()) call (enc_usize (be_big E) h) w =
     (Ok \<lparr> wt_object = Some (k, h), wt_mode = mode,
           wt_call = (\<lambda>w. released E (Some (k, h)) (call () obj w)) \<rparr>, w)"
  using c_none.with_object_enc [where x = "()"] by simp

lemma nothing_enc:
  "be_end E [] = Ok () \<Longrightarrow>
   without_object E (d_return ()) call [] w = (Ok \<lparr> wt_object = None, wt_mode = LockShared, wt_call = call () \<rparr>, w)"
  using c_none.without_object_enc [where x = "()"] by simp

lemmas object_calls = no_args_enc c_sink.with_object_enc c_accept.with_object_enc c_offer.with_object_enc
  c_client_info_without_id.with_object_enc c_bytes.with_object_enc c_file_response.with_object_enc
  c_string.with_object_enc c_string_set.with_object_enc

lemmas plain_calls = nothing_enc c_connect.without_object_enc c_cert.without_object_enc

lemma released_None [simp]: "released E None out = out"
  by (simp add: released_def release_def split: prod.splits)

lemma dispatch_call:
  assumes "ok_call c" "be_end E [] = Ok ()"
    and "\<And>k h. call_target c = Some (k, h) \<Longrightarrow> op_decode (be_pool E) k h (bw_pool w) = Ok i"
  shows "pde_ffi_dispatcher_primary E (call_id c) (call_message (be_big E) c) w = (Ok (call_task E c i), w)"
  using assms
  by (cases c)
    (simp_all add: pde_ffi_dispatcher_primary_def wire_defs call_message_def call_task_def object_calls
      plain_calls split_beta)

lemmas object_cuts = c_sink.with_object_cut c_accept.with_object_cut c_offer.with_object_cut
  c_client_info_without_id.with_object_cut c_bytes.with_object_cut c_file_response.with_object_cut
  c_string.with_object_cut c_string_set.with_object_cut

lemma no_args_cut:
  assumes "op_decode (be_pool E) k h (bw_pool w) = Ok obj" "n < length (enc_usize (be_big E) h)"
  shows "refused (given_back E (Some (k, h)) n w)
     (with_object E k mode (d_return ()) call (take n (enc_usize (be_big E) h)) w)"
  using c_none.with_object_cut [where E = E and n = n, OF TrueI assms(1)] assms(2) by simp

lemma given_back_None [simp]: "given_back E None n w = w"
  by (simp add: given_back_def release_def)

lemma dispatch_cut:
  assumes "ok_call c" "n < length (call_message (be_big E) c)"
    and "\<And>k h. call_target c = Some (k, h) \<Longrightarrow> op_decode (be_pool E) k h (bw_pool w) = Ok i"
  shows "refused (given_back E (call_target c) n w)
     (pde_ffi_dispatcher_primary E (call_id c) (take n (call_message (be_big E) c)) w)"
  using assms
  by (cases c)
    (simp_all add: pde_ffi_dispatcher_primary_def wire_defs call_message_def object_cuts no_args_cut
      c_connect.without_object_cut c_cert.without_object_cut del: take_append length_append)

lemma dispatch_unknown:
  assumes "func_id = 0 \<or> 23 < func_id"
  shows "pde_ffi_dispatcher_primary E func_id bs w = (Panic ''internal error: entered unreachable code'', w)"
  using assms by (auto simp: pde_ffi_dispatcher_primary_def)

section \<open>No two calls are written down alike\<close>

interpretation c_usize: sse_codec "enc_usize big" "dec_usize big" "\<lambda>h. True" for big
  by unfold_locales (simp_all add: sse_simps sound_intros)

lemma enc_usize_inject [simp]: "enc_usize big h @ p = enc_usize big h' @ q \<longleftrightarrow> h = h' \<and> p = q"
  "enc_usize big h = enc_usize big h' \<longleftrightarrow> h = h'"
  using c_usize.prefix_free [where x = h and y = h' and p = p and q = q and big = big]
    c_usize.prefix_free [where x = h and y = h' and p = "[]" and q = "[]" and big = big] by auto

context sse_codec
begin

lemma enc_inject: "ok x \<Longrightarrow> ok y \<Longrightarrow> enc x = enc y \<longleftrightarrow> x = y"
  using prefix_free [of x y "[]" "[]"] by auto

end

lemmas args_inject = c_sink.enc_inject c_accept.enc_inject c_offer.enc_inject c_client_info_without_id.enc_inject
  c_bytes.enc_inject c_file_response.enc_inject c_string.enc_inject c_string_set.enc_inject c_connect.enc_inject
  c_cert.enc_inject

lemma call_message_inject:
  assumes "ok_call c" "ok_call c'" "call_id c = call_id c'" "call_message big c = call_message big c'"
  shows "c = c'"
  using assms by (cases c; cases c'; simp add: call_message_def args_inject)
end
