(* ===== verification/Bridge_Handles.thy ===== *)
theory Bridge_Handles
  imports Bridge_Dispatch
begin

text \<open>
  The handles of the application bridge: the contract of the object pool of the bridge library, and
  what the calls of \<open>Bridge_Dispatch\<close> do with it. A call neither loses nor leaks a handle, every
  handle refers to an object, and the handle a call returns can be used in the next one.
\<close>

section \<open>Specification vocabulary\<close>

definition table_size :: "object_kind \<Rightarrow> 'pool bridge_world \<Rightarrow> nat" where
  "table_size k w =
     (case k of
        KConnection \<Rightarrow> length (bw_connections w)
      | KFileReceiver \<Rightarrow> length (bw_file_receivers w)
      | KFileSender \<Rightarrow> length (bw_file_senders w)
      | KReceiveController \<Rightarrow> length (bw_receivers w)
      | KSendController \<Rightarrow> length (bw_senders w))"

text \<open>Every handle refers to an object, and every file sender to a file of its controller.\<close>

definition handles_valid :: "'pool pool_lib \<Rightarrow> 'pool bridge_world \<Rightarrow> bool" where
  "handles_valid P w \<longleftrightarrow> (\<forall>k h obj. op_decode P k h (bw_pool w) = Ok obj \<longrightarrow> obj < table_size k w)"

definition file_senders_valid :: "'pool bridge_world \<Rightarrow> bool" where
  "file_senders_valid w \<longleftrightarrow>
     list_all (\<lambda>(c, k). c < length (bw_senders w) \<and> k < length (tx_files (bw_senders w ! c))) (bw_file_senders w)"

text \<open>How many objects a call may put into the pool.\<close>

fun new_objects :: "api_call \<Rightarrow> nat \<Rightarrow> 'pool bridge_world \<Rightarrow> nat" where
  "new_objects (AcceptOffer h a) i w = 1"
| "new_objects (SendOffer h a) i w = 1"
| "new_objects (SendFile h a) i w = 1"
| "new_objects (Connect a) i w = 1"
| "new_objects (ListenReceiving h a) i w =
     (case rx_receiving_rx (bw_receivers w ! i) of None \<Rightarrow> 0 | Some files \<Rightarrow> length files)"
| "new_objects c i w = 0"

text \<open>What kind of object a call returns.\<close>

fun result_kind :: "api_call \<Rightarrow> object_kind option" where
  "result_kind (AcceptOffer h a) = Some KReceiveController"
| "result_kind (SendOffer h a) = Some KSendController"
| "result_kind (SendFile h a) = Some KFileSender"
| "result_kind c = None"

section \<open>The contract of the object pool\<close>

text \<open>
  What the bridge relies on: a handle can be decoded exactly while its count is positive, a new
  object gets a handle that was not in use, and only the named handle changes. \<open>room n p\<close>: handles
  for \<open>n\<close> more objects are left.
\<close>

locale object_pool =
  fixes P :: "'pool pool_lib"
    and count :: "object_kind \<Rightarrow> u64 \<Rightarrow> 'pool \<Rightarrow> nat"
    and room :: "nat \<Rightarrow> 'pool \<Rightarrow> bool"
  assumes decode_live: "0 < count k h p \<longleftrightarrow> (\<exists>obj. op_decode P k h p = Ok obj)"
    and new_handle: "room (Suc n) p \<Longrightarrow> op_new P k obj p = ((h, s), p') \<Longrightarrow>
      count k h p = 0 \<and> count k h p' = 1 \<and> op_decode P k h p' = Ok obj \<and> room n p'"
    and new_others: "room (Suc n) p \<Longrightarrow> op_new P k obj p = ((h, s), p') \<Longrightarrow> (k', h') \<noteq> (k, h) \<Longrightarrow>
      count k' h' p' = count k' h' p \<and> op_decode P k' h' p' = op_decode P k' h' p"
    and count_increment: "0 < count k h p \<Longrightarrow>
      count k' h' (op_increment P k h p) = (if (k', h') = (k, h) then Suc (count k h p) else count k' h' p)"
    and decode_increment: "0 < count k h p \<Longrightarrow> op_decode P k' h' (op_increment P k h p) = op_decode P k' h' p"
    and count_decrement:
      "count k' h' (op_decrement P k h p) = (if (k', h') = (k, h) then count k h p - 1 else count k' h' p)"
    and decode_decrement: "0 < count k' h' (op_decrement P k h p) \<Longrightarrow>
      op_decode P k' h' (op_decrement P k h p) = op_decode P k' h' p"
    and room_increment: "room n p \<Longrightarrow> 0 < count k h p \<Longrightarrow> room n (op_increment P k h p)"
    and room_decrement: "room n p \<Longrightarrow> room n (op_decrement P k h p)"
    and room_less: "room (Suc n) p \<Longrightarrow> room n p"
begin

text \<open>No live handle of \<open>p\<close> is lost or changed in \<open>p'\<close>.\<close>

definition keeps :: "'pool \<Rightarrow> 'pool \<Rightarrow> bool" where
  "keeps p p' \<longleftrightarrow> (\<forall>k h. 0 < count k h p \<longrightarrow>
     count k h p' = count k h p \<and> op_decode P k h p' = op_decode P k h p)"

lemma keeps_refl [simp]: "keeps p p"
  by (simp add: keeps_def)

lemma keeps_trans: "keeps p q \<Longrightarrow> keeps q r \<Longrightarrow> keeps p r"
  by (simp add: keeps_def)

lemma keeps_new: "room (Suc n) p \<Longrightarrow> op_new P k obj p = ((h, s), p') \<Longrightarrow> keeps p p'"
  unfolding keeps_def using new_handle [of n p k obj h s p'] new_others [of n p k obj h s p']
  by (metis less_irrefl prod.inject)

text \<open>A reference that is taken for a call and given back at its end.\<close>

lemma keeps_call:
  assumes "0 < count k h p" "keeps (op_increment P k h p) q"
  shows "keeps p (op_decrement P k h q)"
  unfolding keeps_def
proof (intro allI impI)
  fix k' h' assume live: "0 < count k' h' p"
  from live have up: "0 < count k' h' (op_increment P k h p)" by (simp add: count_increment assms(1))
  with assms(2) have q: "count k' h' q = count k' h' (op_increment P k h p)"
    "op_decode P k' h' q = op_decode P k' h' (op_increment P k h p)" by (simp_all add: keeps_def)
  then have "count k' h' (op_decrement P k h q) = count k' h' p"
    by (auto simp: count_decrement count_increment assms(1))
  then show "count k' h' (op_decrement P k h q) = count k' h' p \<and>
      op_decode P k' h' (op_decrement P k h q) = op_decode P k' h' p"
    using live q decode_decrement [of k' h' k h q] by (simp add: decode_increment assms(1))
qed

end

text \<open>The reference implementation: a counter for new handles and a table of counted objects.\<close>

record counted_pool =
  cp_next :: nat
  cp_objects :: "object_kind \<times> u64 \<Rightarrow> (nat \<times> nat) option"

definition cp_count :: "object_kind \<Rightarrow> u64 \<Rightarrow> counted_pool \<Rightarrow> nat" where
  "cp_count k h p = (case cp_objects p (k, h) of None \<Rightarrow> 0 | Some (obj, n) \<Rightarrow> n)"

definition cp_room :: "nat \<Rightarrow> counted_pool \<Rightarrow> bool" where
  "cp_room n p \<longleftrightarrow> cp_next p + n \<le> 2 ^ 64 \<and> (\<forall>k h. cp_next p \<le> unat h \<longrightarrow> cp_objects p (k, h) = None)"

definition counted :: "counted_pool pool_lib" where
  "counted =
     \<lparr> op_decode = (\<lambda>k h p. case cp_objects p (k, h) of
         Some (obj, Suc n) \<Rightarrow> Ok obj | _ \<Rightarrow> Panic ''called `Option::unwrap()` on a `None` value''),
       op_new = (\<lambda>k obj p. let h = word_of_nat (cp_next p) in
         ((h, 8), p\<lparr> cp_next := Suc (cp_next p), cp_objects := (cp_objects p)((k, h) := Some (obj, 1)) \<rparr>)),
       op_increment = (\<lambda>k h p. p\<lparr> cp_objects := (cp_objects p)((k, h) :=
         (case cp_objects p (k, h) of None \<Rightarrow> None | Some (obj, n) \<Rightarrow> Some (obj, Suc n))) \<rparr>),
       op_decrement = (\<lambda>k h p. p\<lparr> cp_objects := (cp_objects p)((k, h) :=
         (case cp_objects p (k, h) of
            None \<Rightarrow> None | Some (obj, n) \<Rightarrow> if n \<le> 1 then None else Some (obj, n - 1))) \<rparr>) \<rparr>"

interpretation cp: object_pool counted cp_count cp_room
proof
  fix k h p
  show "0 < cp_count k h p \<longleftrightarrow> (\<exists>obj. op_decode counted k h p = Ok obj)"
    by (auto simp: cp_count_def counted_def split: option.splits nat.splits)
next
  fix n p k obj h s p'
  assume room: "cp_room (Suc n) p" and new: "op_new counted k obj p = ((h, s), p')"
  then have h: "h = word_of_nat (cp_next p)" and next_less: "cp_next p < 2 ^ 64"
    by (auto simp: counted_def cp_room_def Let_def)
  then have u: "unat h = cp_next p" by (simp add: unat_of_nat)
  show "cp_count k h p = 0 \<and> cp_count k h p' = 1 \<and> op_decode counted k h p' = Ok obj \<and> cp_room n p'"
    using room new u by (auto simp: counted_def cp_room_def cp_count_def Let_def)
  fix k' h' assume "(k', h') \<noteq> (k, h)"
  then show "cp_count k' h' p' = cp_count k' h' p \<and> op_decode counted k' h' p' = op_decode counted k' h' p"
    using new by (auto simp: counted_def cp_count_def Let_def)
qed (auto simp: counted_def cp_count_def cp_room_def split: option.splits nat.splits if_splits)

section \<open>What a call changes\<close>

lemma on_sender_keeps [simp]:
  "bw_pool (snd (on_sender i f w)) = bw_pool w" "table_size k (snd (on_sender i f w)) = table_size k w"
  "bw_file_senders (snd (on_sender i f w)) = bw_file_senders w"
  by (cases k; simp add: on_sender_def table_size_def split: prod.splits)+

lemma on_receiver_keeps [simp]:
  "bw_pool (snd (on_receiver i f w)) = bw_pool w" "table_size k (snd (on_receiver i f w)) = table_size k w"
  "bw_senders (snd (on_receiver i f w)) = bw_senders w" "bw_file_senders (snd (on_receiver i f w)) = bw_file_senders w"
  by (cases k; simp add: on_receiver_def table_size_def split: prod.splits)+

lemma sink_add_keeps [simp]:
  "bw_pool (sink_add sink es w) = bw_pool w" "table_size k (sink_add sink es w) = table_size k w"
  "bw_senders (sink_add sink es w) = bw_senders w" "bw_file_senders (sink_add sink es w) = bw_file_senders w"
  by (cases sink; cases k; simp add: sink_add_def table_size_def)+

lemma snd_stream_to [simp]:
  "snd (stream_to sink enc out) = sink_add sink (map (map_sink_event enc) (fst out)) (snd out)"
  by (simp add: stream_to_def split: prod.splits)

lemma note_pin_keeps [simp]:
  "bw_pool (snd (note_pin q i out)) = bw_pool (snd out)" "table_size k (snd (note_pin q i out)) = table_size k (snd out)"
  "bw_senders (snd (note_pin q i out)) = bw_senders (snd out)"
  "bw_file_senders (snd (note_pin q i out)) = bw_file_senders (snd out)"
  by (cases k; simp add: note_pin_def table_size_def split: prod.splits)+

lemma snd_reply [simp]: "snd (reply E enc out) = snd out"
  by (simp add: reply_def split: prod.splits res.splits)

lemma update_info_keeps [simp]:
  "bw_pool (snd (update_info a i w)) = bw_pool w" "table_size k (snd (update_info a i w)) = table_size k w"
  "bw_senders (snd (update_info a i w)) = bw_senders w" "bw_file_senders (snd (update_info a i w)) = bw_file_senders w"
  by (cases k; simp add: update_info_def table_size_def Let_def split: prod.splits)+

lemma receive_data_keeps [simp]:
  "bw_pool (snd (receive_data E a i w)) = bw_pool w" "table_size k (snd (receive_data E a i w)) = table_size k w"
  "bw_senders (snd (receive_data E a i w)) = bw_senders w"
  "bw_file_senders (snd (receive_data E a i w)) = bw_file_senders w"
proof -
  show "bw_pool (snd (receive_data E a i w)) = bw_pool w"
    "bw_senders (snd (receive_data E a i w)) = bw_senders w"
    "bw_file_senders (snd (receive_data E a i w)) = bw_file_senders w"
    by (simp_all add: receive_data_def Let_def split: prod.splits res.splits)
  show "table_size k (snd (receive_data E a i w)) = table_size k w"
    by (auto simp: receive_data_def Let_def split: prod.splits res.splits)
      (cases k; simp add: table_size_def)+
qed

lemma send_data_keeps [simp]:
  "bw_pool (snd (send_data a i w)) = bw_pool w" "table_size k (snd (send_data a i w)) = table_size k w"
  by (simp_all add: send_data_def split: prod.splits)

lemma enable_debug_logging_keeps [simp]:
  "bw_pool (snd (enable_debug_logging E w)) = bw_pool w"
  "table_size k (snd (enable_debug_logging E w)) = table_size k w"
  by (cases k; simp add: enable_debug_logging_def table_size_def split: option.splits)+

context object_pool
begin

text \<open>No live handle is lost, no object goes, and every new handle refers to an object.\<close>

definition extends :: "'pool bridge_world \<Rightarrow> 'pool bridge_world \<Rightarrow> bool" where
  "extends w w' \<longleftrightarrow>
     keeps (bw_pool w) (bw_pool w') \<and> (\<forall>k. table_size k w \<le> table_size k w') \<and>
     (\<forall>k h obj. op_decode P k h (bw_pool w') = Ok obj \<longrightarrow>
        op_decode P k h (bw_pool w) = Ok obj \<or> obj < table_size k w')"

lemma extends_trans: "extends u v \<Longrightarrow> extends v w \<Longrightarrow> extends u w"
  unfolding extends_def by (meson keeps_trans le_trans less_le_trans)

lemma extends_same_pool: "bw_pool w' = bw_pool w \<Longrightarrow> (\<And>k. table_size k w \<le> table_size k w') \<Longrightarrow> extends w w'"
  by (simp add: extends_def)

lemma extends_new:
  assumes "room (Suc n) (bw_pool w)" "op_new P k obj (bw_pool w) = (raw, p)" "obj < table_size k w"
  shows "extends w (w\<lparr> bw_pool := p \<rparr>)" "room n p"
proof -
  obtain h s where raw: "raw = (h, s)" by (cases raw)
  have sizes: "table_size k' (w\<lparr> bw_pool := p \<rparr>) = table_size k' w" for k'
    by (cases k') (simp_all add: table_size_def)
  have "op_decode P k' h' p = Ok obj' \<Longrightarrow> op_decode P k' h' (bw_pool w) = Ok obj' \<or> obj' < table_size k' w" for k' h' obj'
    using new_handle [OF assms(1), of k obj h s p] new_others [OF assms(1), of k obj h s p k' h'] assms(2,3) raw
    by (cases "(k', h') = (k, h)") auto
  then show "extends w (w\<lparr> bw_pool := p \<rparr>)"
    using keeps_new [OF assms(1)] assms(2) raw by (simp add: extends_def sizes)
  show "room n p" using new_handle [OF assms(1)] assms(2) raw by blast
qed

lemma extends_refl: "extends w w"
  by (simp add: extends_same_pool)

lemma extends_sink: "extends u w \<Longrightarrow> extends u (sink_add sink es w)"
  by (erule extends_trans) (simp add: extends_same_pool)

lemma extends_owned:
  assumes "be_pool E = P" "room (Suc n) (bw_pool w)" "obj < table_size k w" "enc_owned E k obj w = (bs, w')"
  shows "extends w w'" "room n (bw_pool w')"
  using extends_new [OF assms(2) _ assms(3)] assms(1,4) by (auto simp: enc_owned_def split: prod.splits)

lemma extends_reply_object:
  assumes "be_pool E = P" "room 1 (bw_pool (snd out))" "extends w (snd out)"
    and "\<And>obj. fst out = Ok obj \<Longrightarrow> obj < table_size k (snd out)"
  shows "extends w (snd (reply_object E k out))"
proof (cases "fst out")
  case (Ok obj)
  obtain bs w' where owned: "enc_owned E k obj (snd out) = (bs, w')" by (cases "enc_owned E k obj (snd out)")
  with assms Ok have "extends (snd out) w'" using extends_owned [of E 0 "snd out" obj k bs w'] by simp
  moreover have "snd (reply_object E k out) = w'"
    using Ok owned by (cases out) (simp add: reply_object_def)
  ultimately show ?thesis using assms(3) extends_trans by simp
qed (cases out; use assms in \<open>simp add: reply_object_def\<close>)+

lemma extends_receivers:
  "be_pool E = P \<Longrightarrow> room (length es) (bw_pool w) \<Longrightarrow> extends w (stream_receivers E sink es w)"
proof (induction E sink es w rule: stream_receivers.induct)
  case (1 E sink w)
  then show ?case by (simp add: extends_same_pool)
next
  case (2 E sink m es w)
  then have "extends (sink_add sink [SinkError m] w) (stream_receivers E sink (SinkError m # es) w)"
    using room_less by simp
  then show ?case using extends_trans [OF extends_sink [OF extends_refl]] by blast
next
  case (3 E sink f es w)
  let ?w = "w\<lparr> bw_file_receivers := bw_file_receivers w @ [f] \<rparr>"
  obtain bs w' where owned: "enc_owned E KFileReceiver (length (bw_file_receivers w)) ?w = (bs, w')"
    by (cases "enc_owned E KFileReceiver (length (bw_file_receivers w)) ?w")
  have a: "extends w ?w" by (rule extends_same_pool) (simp_all add: table_size_def split: object_kind.split)
  have b: "extends ?w w'" "room (length es) (bw_pool w')"
    using extends_owned [OF 3(2) _ _ owned] 3(3) by (simp_all add: table_size_def)
  have c: "extends w' (sink_add sink [SinkItem bs] w')" by (rule extends_sink [OF extends_refl])
  have d: "extends (sink_add sink [SinkItem bs] w') (stream_receivers E sink es (sink_add sink [SinkItem bs] w'))"
    using 3(1) [OF owned [symmetric] 3(2)] b(2) by simp
  show ?case using extends_trans [OF extends_trans [OF extends_trans [OF a b(1)] c] d] owned by simp
qed

lemma extends_accept:
  "extends w (snd (accept_offer E a i w)) \<and> bw_pool (snd (accept_offer E a i w)) = bw_pool w \<and>
   (\<forall>obj. fst (accept_offer E a i w) = Ok obj \<longrightarrow> obj < table_size KReceiveController (snd (accept_offer E a i w)))"
  by (cases a) (auto simp: accept_offer_def Let_def table_size_def intro!: extends_same_pool
      split: res.splits object_kind.splits)

lemma extends_offer:
  "extends w (snd (start_offer E a i w)) \<and> bw_pool (snd (start_offer E a i w)) = bw_pool w \<and>
   (\<forall>obj. fst (start_offer E a i w) = Ok obj \<longrightarrow> obj < table_size KSendController (snd (start_offer E a i w)))"
  by (cases a) (auto simp: start_offer_def Let_def table_size_def intro!: extends_same_pool
      split: res.splits object_kind.splits)

lemma extends_new_file_sender:
  "extends w (snd (new_file_sender a i w)) \<and> bw_pool (snd (new_file_sender a i w)) = bw_pool w \<and>
   (\<forall>obj. fst (new_file_sender a i w) = Ok obj \<longrightarrow> obj < table_size KFileSender (snd (new_file_sender a i w)))"
  by (auto simp: new_file_sender_def on_sender_def table_size_def intro!: extends_same_pool
      split: res.splits object_kind.splits prod.splits)

lemma extends_connection:
  assumes "be_pool E = P" "room 1 (bw_pool w)"
  shows "extends w (snd (new_connection E callback client w))"
proof -
  let ?w = "w\<lparr> bw_connections := bw_connections w @ [\<lparr> bc_client = client, bc_writer_gone = False, bc_queued = [] \<rparr>] \<rparr>"
  obtain raw p where new: "op_new P KConnection (length (bw_connections w)) (bw_pool w) = (raw, p)"
    by (cases "op_new P KConnection (length (bw_connections w)) (bw_pool w)")
  have "extends w ?w" by (rule extends_same_pool) (simp_all add: table_size_def split: object_kind.split)
  moreover have "extends ?w (?w\<lparr> bw_pool := p \<rparr>)"
    using extends_new [of 0 ?w KConnection _ raw p] assms(2) new by (simp add: table_size_def)
  ultimately show ?thesis using assms(1) new extends_trans by (simp add: new_connection_def dart_fn_body_def into_dart_owned_def)
qed

lemma extends_connect:
  assumes "be_pool E = P" "room 1 (bw_pool w)"
  shows "extends w (snd (run_connect E a w))"
proof -
  have new: "new_connection E callback client w = (r, w') \<Longrightarrow> extends w w'" for callback client r w'
    using extends_connection [OF assms] by (metis snd_conv)
  show ?thesis
    by (cases a)
      (auto simp: run_connect_def bridge_connect_def Let_def intro!: extends_sink intro: extends_refl new
        split: res.splits option.splits prod.splits progress.splits)
qed

lemma extends_receiving:
  assumes "be_pool E = P" "room (new_objects (ListenReceiving h a) i w) (bw_pool w)"
  shows "extends w (snd (stream_receiving E a i w))"
proof (cases "rx_receiving_rx (bw_receivers w ! i)")
  case None
  let ?w = "w\<lparr> bw_receivers := (bw_receivers w)[i := bw_receivers w ! i] \<rparr>"
  have "extends w ?w" by (rule extends_same_pool) (simp_all add: table_size_def split: object_kind.split)
  then show ?thesis
    using None by (simp add: stream_receiving_def on_receiver_def listen_receiving_def extends_sink)
next
  case (Some files)
  let ?c = "(bw_receivers w ! i)\<lparr> rx_receiving_rx := None \<rparr>"
  let ?w = "w\<lparr> bw_receivers := (bw_receivers w)[i := ?c] \<rparr>"
  let ?es = "map (\<lambda>f. SinkItem \<lparr> fv_file_id = rf_file_id f, fv_binary_rx = Some (rf_binary f) \<rparr>) files"
  have "extends w ?w" by (rule extends_same_pool) (simp_all add: table_size_def split: object_kind.split)
  moreover have "extends ?w (stream_receivers E a ?es ?w)"
    using assms Some by (intro extends_receivers) simp_all
  ultimately have "extends w (stream_receivers E a ?es ?w)" by (rule extends_trans)
  then show ?thesis using Some by (simp add: stream_receiving_def on_receiver_def listen_receiving_def)
qed

lemma extends_object_calls:
  assumes "be_pool E = P" "room 1 (bw_pool w)"
  shows "extends w (snd (reply_object E KReceiveController (accept_offer E a i w)))"
    "extends w (snd (reply_object E KSendController (start_offer E b i w)))"
    "extends w (snd (reply_object E KFileSender (new_file_sender f i w)))"
  using extends_accept [of w E a i] extends_offer [of w E b i] extends_new_file_sender [of w f i] assms
  by (simp_all add: extends_reply_object)

lemma extends_call:
  assumes "be_pool E = P" "room (new_objects c i w) (bw_pool w)"
  shows "extends w (snd (call_effect E c i w))"
proof -
  have same: "bw_pool w' = bw_pool w \<Longrightarrow> (\<And>k. table_size k w' = table_size k w) \<Longrightarrow> extends w w'" for w'
    by (simp add: extends_same_pool)
  show ?thesis
    using assms
    by (cases c)
      (simp_all add: file_id_of_def same extends_sink extends_connect extends_receiving extends_object_calls)
qed

lemma extends_valid: "extends w w' \<Longrightarrow> handles_valid P w \<Longrightarrow> handles_valid P w'"
  unfolding extends_def handles_valid_def by (meson less_le_trans)

lemma release_valid:
  assumes "be_pool E = P" "handles_valid P w"
  shows "handles_valid P (release E target w)"
proof (cases target)
  case (Some kh)
  obtain k h where kh: "kh = (k, h)" by (cases kh)
  have "table_size k' (release E target w) = table_size k' w" for k'
    by (cases k') (simp_all add: Some kh release_def rust_arc_strong_count_def table_size_def)
  moreover have "op_decode P k' h' (op_decrement P k h (bw_pool w)) = Ok obj \<Longrightarrow>
      op_decode P k' h' (bw_pool w) = Ok obj" for k' h' obj
    using decode_live [of k' h' "op_decrement P k h (bw_pool w)"] decode_decrement [of k' h' k h "bw_pool w"] by simp
  ultimately show ?thesis
    using assms by (simp add: handles_valid_def Some kh release_def rust_arc_strong_count_def) blast
qed (use assms in \<open>simp add: release_def\<close>)

text \<open>
  A method is called with a reference that was counted for the call. Afterwards every live handle has
  the count and the object it had before.
\<close>

lemma call_keeps:
  assumes "be_pool E = P" "call_target c = Some (k, h)" "op_decode P k h (bw_pool w) = Ok i"
    and "room (new_objects c i w) (bw_pool w)" "handles_valid P w"
    and w1: "w1 = rust_arc_strong_count P IncrementStrongCount k h w"
    and run: "wt_call (call_task E c i) w1 = (r, w2)"
  shows "keeps (bw_pool w) (bw_pool w2)" "handles_valid P w2"
proof -
  have live: "0 < count k h (bw_pool w)" using assms(3) decode_live by blast
  have pool: "bw_pool w1 = op_increment P k h (bw_pool w)" by (simp add: w1 rust_arc_strong_count_def)
  have sizes: "table_size k' w1 = table_size k' w" for k'
    by (cases k') (simp_all add: w1 rust_arc_strong_count_def table_size_def)
  have "new_objects c i w1 = new_objects c i w"
    by (cases c) (simp_all add: w1 rust_arc_strong_count_def)
  then have ext: "extends w1 (snd (call_effect E c i w1))"
    using assms(4) live by (intro extends_call [OF assms(1)]) (simp add: pool room_increment)
  have w2: "w2 = release E (Some (k, h)) (snd (call_effect E c i w1))"
    using run assms(2) by (simp add: call_task_def released_def split: prod.splits)
  show "keeps (bw_pool w) (bw_pool w2)"
    using keeps_call [OF live] ext assms(1)
    by (simp add: w2 release_def rust_arc_strong_count_def extends_def pool)
  have "handles_valid P w1"
    using assms(5) by (simp add: handles_valid_def sizes pool decode_increment live)
  then show "handles_valid P w2" unfolding w2 using extends_valid [OF ext] release_valid [OF assms(1)] by blast
qed

lemma returned_handle:
  assumes "be_pool E = P" "room 1 (bw_pool w)" "reply_object E k (Ok obj, w) = (rep, w')"
  shows "\<exists>h s. rep = ReplyOk (enc_opaque (be_big E) (h, s)) \<and> count k h (bw_pool w) = 0 \<and>
     count k h (bw_pool w') = 1 \<and> op_decode P k h (bw_pool w') = Ok obj"
proof -
  obtain h s p where new: "op_new P k obj (bw_pool w) = ((h, s), p)" by (metis prod.collapse)
  then have "rep = ReplyOk (enc_opaque (be_big E) (h, s))" "bw_pool w' = p"
    using assms by (auto simp: reply_object_def enc_owned_def)
  then show ?thesis using new_handle [OF _ new, of 0] assms(2) by auto
qed

end

section \<open>The files of the file senders\<close>

lemma file_senders_same:
  "bw_senders w' = bw_senders w \<Longrightarrow> bw_file_senders w' = bw_file_senders w \<Longrightarrow>
   file_senders_valid w' = file_senders_valid w"
  by (simp add: file_senders_valid_def)

lemma file_senders_on_sender:
  assumes "\<And>c. length (tx_files c) \<le> length (tx_files (snd (f c)))" "file_senders_valid w"
  shows "file_senders_valid (snd (on_sender i f w))"
proof -
  have "length (tx_files (bw_senders w ! c)) \<le> length (tx_files (((bw_senders w)[i := snd (f (bw_senders w ! i))]) ! c))"
    if "c < length (bw_senders w)" for c
    using assms(1) that by (cases "c = i") (simp_all add: nth_list_update)
  with assms(2) show ?thesis
    by (fastforce simp: file_senders_valid_def on_sender_def list_all_iff split: prod.splits intro: less_le_trans)
qed

lemma file_senders_enc_owned:
  "enc_owned E k obj w = (bs, w') \<Longrightarrow> bw_senders w' = bw_senders w \<and> bw_file_senders w' = bw_file_senders w"
  by (auto simp: enc_owned_def split: prod.splits)

lemma file_senders_reply_object: "file_senders_valid (snd (reply_object E k out)) = file_senders_valid (snd out)"
  by (rule file_senders_same)
    (auto simp: reply_object_def split: prod.splits res.splits dest: file_senders_enc_owned)

lemma file_senders_receivers:
  "bw_senders (stream_receivers E sink es w) = bw_senders w \<and>
   bw_file_senders (stream_receivers E sink es w) = bw_file_senders w"
  by (induction E sink es w rule: stream_receivers.induct)
    (auto split: prod.splits dest: file_senders_enc_owned)

lemma file_senders_accept: "file_senders_valid (snd (accept_offer E a i w)) = file_senders_valid w"
  by (rule file_senders_same) (auto simp: accept_offer_def Let_def split: prod.splits res.splits)

lemma file_senders_offer: "file_senders_valid w \<Longrightarrow> file_senders_valid (snd (start_offer E a i w))"
  by (auto simp: start_offer_def Let_def file_senders_valid_def list_all_iff nth_append split: prod.splits res.splits)

lemma file_senders_new:
  assumes "file_senders_valid w" "i < length (bw_senders w)"
  shows "file_senders_valid (snd (new_file_sender a i w))"
proof -
  have "length (tx_files c) \<le> length (tx_files (snd (tx_send_file a c)))" for c by (simp add: tx_send_file_def)
  then have "file_senders_valid (snd (on_sender i (tx_send_file a) w))" using assms(1) by (rule file_senders_on_sender)
  then show ?thesis
    using assms(2)
    by (auto simp: new_file_sender_def on_sender_def tx_send_file_def file_senders_valid_def split: if_splits)
qed

lemma file_senders_connect:
  "bw_senders (snd (run_connect E a w)) = bw_senders w \<and> bw_file_senders (snd (run_connect E a w)) = bw_file_senders w"
  by (cases a)
    (auto simp: run_connect_def bridge_connect_def Let_def new_connection_def dart_fn_body_def into_dart_owned_def
      split: res.splits option.splits prod.splits progress.splits)

lemma tx_files_grow:
  "length (tx_files c) \<le> length (tx_files (snd (tx_listen_error c)))"
  "length (tx_files c) \<le> length (tx_files (snd (tx_listen_status c)))"
  "length (tx_files c) \<le> length (tx_files (snd (listen_selected_files c)))"
  "length (tx_files c) \<le> length (tx_files (snd (tx_send_pin p c)))"
  "length (tx_files c) \<le> length (tx_files (snd (file_sender_send k b c)))"
  by (simp_all add: tx_listen_error_def tx_listen_status_def listen_selected_files_def tx_send_pin_def
      file_sender_send_def split: prod.splits)

lemma file_senders_call:
  assumes "file_senders_valid w" "\<And>h a. c = SendFile h a \<Longrightarrow> i < length (bw_senders w)"
  shows "file_senders_valid (snd (call_effect E c i w))"
proof -
  note same = file_senders_same [THEN iffD2, OF _ _ assms(1)]
  note on = file_senders_on_sender [OF _ assms(1)]
  have sent: "file_senders_valid (snd (send_data b i w))" for b
    by (simp add: send_data_def on tx_files_grow split: prod.splits)
  have noted: "file_senders_valid (snd (note_pin q i out)) = file_senders_valid (snd out)" for q out
    by (rule file_senders_same) simp_all
  have received: "file_senders_valid (snd (stream_receiving E a i w))" for a
    by (rule same) (simp_all add: stream_receiving_def split_beta file_senders_receivers)
  have sunk: "file_senders_valid (sink_add sink es v) = file_senders_valid v" for sink es v
    by (rule file_senders_same) simp_all
  show ?thesis
    using assms
    by (cases c)
      (simp_all add: same on sent noted received sunk tx_files_grow file_senders_reply_object file_senders_accept
        file_senders_offer file_senders_new file_senders_connect file_id_of_def enable_debug_logging_def
        split: option.splits)
qed

section \<open>A concrete bridge\<close>

definition demo_bridge :: "(counted_pool, bytes, bytes, bytes, bytes, bytes, bytes) bridge_env" where
  "demo_bridge =
     \<lparr> be_big = False, be_end = (\<lambda>bs. if bs = [] then Ok () else Panic ''end''), be_debug = error_text,
       be_pool = counted, be_dart_fn = (\<lambda>f raw. Some [0]), be_try_init = None, be_crypto = demo_crypto,
       be_x509 = demo_x509, be_zlib = demo_zlib, be_codec = plain_codec, be_peer = demo_peer ''v=A'', be_now = Some 7,
       be_os_rng = [1, 2], be_to_json = (\<lambda>c. Some ''{}''), be_from_json = demo_from_json,
       be_connect_async = (\<lambda>u. Some \<lparr> ws_frames = [TextFrame ''H''], ws_closed = True \<rparr>),
       be_offer = \<lparr> of_env = demo_env, of_session_id = ''s'', of_early = [], of_late = demo_answers, of_user = demo_sender,
         of_statuses = [Connected], of_selected = Some [''a''], of_errors = [] \<rparr>,
       be_accept = \<lparr> af_env = demo_env, af_labels = [''data''], af_user = demo_receiver, af_alive = True,
         af_statuses = [Connected], af_files = Some [], af_errors = [],
         af_receiving = [\<lparr> rf_file_id = ''a'', rf_binary = [[1]] \<rparr>] \<rparr>,
       be_alive = (\<lambda>k. True) \<rparr>"

text \<open>One connection, one controller of each kind and nothing else, with one reference each.\<close>

definition demo_objects :: "counted_pool bridge_world" where
  "demo_objects =
     \<lparr> bw_pool = \<lparr> cp_next = 3, cp_objects =
         (\<lambda>_. None)((KConnection, 0) := Some (0, 1), (KSendController, 1) := Some (0, 1),
            (KReceiveController, 2) := Some (0, 1)) \<rparr>,
       bw_connections = [\<lparr> bc_client = sample_client, bc_writer_gone = False, bc_queued = [] \<rparr>],
       bw_senders = [new_send_controller [Connected] (Some [''a'']) []],
       bw_receivers = [new_receive_controller True [Connected] (Some []) [] [\<lparr> rf_file_id = ''a'', rf_binary = [[1]] \<rparr>]],
       bw_file_senders = [], bw_file_receivers = [], bw_sessions = [], bw_pins = [], bw_sinks = [], bw_logging = False \<rparr>"

lemma demo_objects_valid:
  "handles_valid counted demo_objects" "file_senders_valid demo_objects" "cp_room n (bw_pool demo_objects) \<longleftrightarrow> n \<le> 2 ^ 64 - 3"
  by (auto simp: handles_valid_def file_senders_valid_def demo_objects_def counted_def table_size_def cp_room_def
      split: if_splits)

section \<open>Properties\<close>

text \<open>
  C22: a call crosses the bridge exactly: its message selects the function it names, on the object of
  its handle, with its lock and its arguments, and changes nothing by itself; no other call is
  written down alike; a message cut short or an unknown function is refused, and a handle that had
  been read is given back.
\<close>

theorem calls_cross_exactly:
  assumes "ok_call c" "be_end E [] = Ok ()"
    and "\<And>k h. call_target c = Some (k, h) \<Longrightarrow> op_decode (be_pool E) k h (bw_pool w) = Ok i"
  shows "pde_ffi_dispatcher_primary E (call_id c) (call_message (be_big E) c) w = (Ok (call_task E c i), w) \<and>
     (ok_call c' \<and> call_id c' = call_id c \<and> call_message (be_big E) c' = call_message (be_big E) c \<longrightarrow> c' = c) \<and>
     (n < length (call_message (be_big E) c) \<longrightarrow>
        refused (given_back E (call_target c) n w)
          (pde_ffi_dispatcher_primary E (call_id c) (take n (call_message (be_big E) c)) w)) \<and>
     (func_id = 0 \<or> 23 < func_id \<longrightarrow> refused w (pde_ffi_dispatcher_primary E func_id bs w))"
  using dispatch_call [OF assms] dispatch_cut [OF assms(1) _ assms(3)] call_message_inject [of c' c] assms(1)
    dispatch_unknown [of func_id E bs w]
  by (auto simp: refused_def panics_def)

theorem calls_cross_exactly_witness:
  "pde_ffi_dispatcher_primary demo_bridge 19 (call_message False (TxSendPin 1 ''1234'')) demo_objects =
     (Ok (call_task demo_bridge (TxSendPin 1 ''1234'') 0), demo_objects) \<and>
   refused (release demo_bridge (Some (KSendController, 1)) demo_objects)
     (pde_ffi_dispatcher_primary demo_bridge 19 (take 10 (call_message False (TxSendPin 1 ''1234''))) demo_objects) \<and>
   refused demo_objects (pde_ffi_dispatcher_primary demo_bridge 24 [] demo_objects)"
proof -
  let ?c = "TxSendPin 1 ''1234''"
  have "utf8_valid (map unat (as_bytes ''1234''))" by code_simp
  then have ok: "ok_call ?c" by (simp add: ok_string_def)
  have fin: "be_end demo_bridge [] = Ok ()" by (simp add: demo_bridge_def)
  have obj: "op_decode (be_pool demo_bridge) k h (bw_pool demo_objects) = Ok 0"
    if "call_target ?c = Some (k, h)" for k h
    using that by (auto simp: demo_bridge_def demo_objects_def counted_def)
  have len: "10 < length (call_message (be_big demo_bridge) ?c)" by code_simp
  have big: "be_big demo_bridge = False" by (simp add: demo_bridge_def)
  show ?thesis
    using calls_cross_exactly [OF ok fin obj, of ?c 10 24 "[]"] len by (simp add: big given_back_def)
qed

text \<open>
  C23: a method that is called with a counted reference finds an object that exists; afterwards every
  handle the application held has its count and its object, and every handle still refers to an object
  and every file sender to a file of its controller.
\<close>

theorem calls_keep_handles:
  assumes "object_pool (be_pool E) count room" "handles_valid (be_pool E) w" "file_senders_valid w"
    and "call_target c = Some (k, h)" "op_decode (be_pool E) k h (bw_pool w) = Ok i"
    and "room (new_objects c i w) (bw_pool w)"
  shows "i < table_size k w \<and>
     (case wt_call (call_task E c i) (rust_arc_strong_count (be_pool E) IncrementStrongCount k h w) of
        (r, w') \<Rightarrow>
          (\<forall>k' h'. 0 < count k' h' (bw_pool w) \<longrightarrow>
             count k' h' (bw_pool w') = count k' h' (bw_pool w) \<and>
             op_decode (be_pool E) k' h' (bw_pool w') = op_decode (be_pool E) k' h' (bw_pool w)) \<and>
          handles_valid (be_pool E) w' \<and> file_senders_valid w')"
proof -
  let ?w = "rust_arc_strong_count (be_pool E) IncrementStrongCount k h w"
  obtain r w' where run: "wt_call (call_task E c i) ?w = (r, w')" by (cases "wt_call (call_task E c i) ?w")
  have "object_pool.keeps (be_pool E) count (bw_pool w) (bw_pool w')" and valid: "handles_valid (be_pool E) w'"
    using object_pool.call_keeps [OF assms(1) refl assms(4-6,2) refl run] by simp_all
  then have kept: "\<forall>k' h'. 0 < count k' h' (bw_pool w) \<longrightarrow>
      count k' h' (bw_pool w') = count k' h' (bw_pool w) \<and>
      op_decode (be_pool E) k' h' (bw_pool w') = op_decode (be_pool E) k' h' (bw_pool w)"
    by (simp add: object_pool.keeps_def [OF assms(1)])
  have i: "i < table_size k w" using assms(2,5) by (simp add: handles_valid_def)
  have "file_senders_valid ?w" using assms(3) by (simp add: file_senders_valid_def rust_arc_strong_count_def)
  moreover have "i < length (bw_senders ?w)" if "c = SendFile h' a" for h' a
    using that i assms(4) by (simp add: table_size_def rust_arc_strong_count_def)
  ultimately have "file_senders_valid (snd (call_effect E c i ?w))" using file_senders_call by blast
  moreover have "w' = release E (Some (k, h)) (snd (call_effect E c i ?w))"
    using run assms(4) by (simp add: call_task_def released_def split: prod.splits)
  ultimately have "file_senders_valid w'"
    by (simp add: file_senders_valid_def release_def rust_arc_strong_count_def)
  with kept valid i show ?thesis by (simp add: run)
qed

theorem calls_keep_handles_witness:
  "case wt_call (call_task demo_bridge (SendFile 1 ''a'') 0)
          (rust_arc_strong_count counted IncrementStrongCount KSendController 1 demo_objects) of
     (r, w') \<Rightarrow>
       cp_count KSendController 1 (bw_pool w') = 1 \<and> op_decode counted KSendController 1 (bw_pool w') = Ok 0 \<and>
       handles_valid counted w' \<and> file_senders_valid w'"
proof -
  have pool: "be_pool demo_bridge = counted" by (simp add: demo_bridge_def)
  have obj: "op_decode counted KSendController 1 (bw_pool demo_objects) = Ok 0"
    "cp_count KSendController 1 (bw_pool demo_objects) = 1"
    by (simp_all add: counted_def demo_objects_def cp_count_def)
  have room: "cp_room (new_objects (SendFile 1 ''a'') 0 demo_objects) (bw_pool demo_objects)"
    by (simp add: demo_objects_valid(3))
  show ?thesis
    using calls_keep_handles [of demo_bridge cp_count cp_room demo_objects "SendFile 1 ''a''", unfolded pool,
        OF cp.object_pool_axioms demo_objects_valid(1,2) _ obj(1) room] obj
    by (auto split: prod.splits)
qed

lemma object_results:
  "fst (accept_offer E a i w) = Ok obj \<Longrightarrow>
     obj = table_size KReceiveController w \<and> bw_pool (snd (accept_offer E a i w)) = bw_pool w"
  "fst (start_offer E b i w) = Ok obj \<Longrightarrow>
     obj = table_size KSendController w \<and> bw_pool (snd (start_offer E b i w)) = bw_pool w"
  "fst (new_file_sender f i w) = Ok obj \<Longrightarrow>
     obj = table_size KFileSender w \<and> bw_pool (snd (new_file_sender f i w)) = bw_pool w"
  by (auto simp: accept_offer_def start_offer_def new_file_sender_def on_sender_def table_size_def Let_def
      split: prod.splits res.splits)

lemma object_replies:
  assumes "result_kind c = Some k" "call_effect E c i w = (ReplyOk bs, w')"
  shows "\<exists>v. bw_pool v = bw_pool w \<and> reply_object E k (Ok (table_size k w), v) = (ReplyOk bs, w')"
proof -
  obtain out where out: "reply_object E k out = (ReplyOk bs, w')"
    and res: "\<And>obj. fst out = Ok obj \<Longrightarrow> obj = table_size k w \<and> bw_pool (snd out) = bw_pool w"
    using assms by (cases c) (auto intro: that dest: object_results)
  from out obtain obj where "fst out = Ok obj"
    by (cases out) (auto simp: reply_object_def split: res.splits)
  with res out show ?thesis by (metis prod.collapse)
qed

text \<open>
  C24: a call that returns an object returns a handle that was not in use and has one reference; a
  later call on that handle reaches exactly the new object.
\<close>

theorem returned_handle_usable:
  assumes "object_pool (be_pool E) count room" "room 1 (bw_pool w)" "be_end E [] = Ok ()"
    and "result_kind c = Some k" "call_effect E c i w = (ReplyOk bs, w')"
  shows "\<exists>h s. bs = enc_opaque (be_big E) (h, s) \<and> count k h (bw_pool w) = 0 \<and> count k h (bw_pool w') = 1 \<and>
     (\<forall>c'. ok_call c' \<and> call_target c' = Some (k, h) \<longrightarrow>
        pde_ffi_dispatcher_primary E (call_id c') (call_message (be_big E) c') w' =
          (Ok (call_task E c' (table_size k w)), w'))"
proof -
  obtain v where v: "bw_pool v = bw_pool w" "reply_object E k (Ok (table_size k w), v) = (ReplyOk bs, w')"
    using object_replies [OF assms(4,5)] by blast
  obtain h s where h: "bs = enc_opaque (be_big E) (h, s)" "count k h (bw_pool w) = 0" "count k h (bw_pool w') = 1"
    and obj: "op_decode (be_pool E) k h (bw_pool w') = Ok (table_size k w)"
    using object_pool.returned_handle [OF assms(1) refl _ v(2)] assms(2) v(1) by auto
  have "pde_ffi_dispatcher_primary E (call_id c') (call_message (be_big E) c') w' =
      (Ok (call_task E c' (table_size k w)), w')" if "ok_call c' \<and> call_target c' = Some (k, h)" for c'
    using that obj by (intro dispatch_call assms(3)) auto
  with h show ?thesis by blast
qed

theorem returned_handle_usable_witness:
  "\<exists>bs w' h s. call_effect demo_bridge (SendFile 1 ''a'') 0 demo_objects = (ReplyOk bs, w') \<and>
     bs = enc_opaque False (h, s) \<and> cp_count KFileSender h (bw_pool w') = 1 \<and>
     pde_ffi_dispatcher_primary demo_bridge 6 (call_message False (SendData h [1, 2])) w' =
       (Ok (call_task demo_bridge (SendData h [1, 2]) 0), w')"
proof -
  have pool: "be_pool demo_bridge = counted" "be_end demo_bridge [] = Ok ()" "be_big demo_bridge = False"
    by (simp_all add: demo_bridge_def)
  obtain bs w' where run: "call_effect demo_bridge (SendFile 1 ''a'') 0 demo_objects = (ReplyOk bs, w')"
    by (simp add: new_file_sender_def on_sender_def tx_send_file_def reply_object_def enc_owned_def demo_objects_def
        new_send_controller_def counted_def pool(1) Let_def)
  have room: "cp_room 1 (bw_pool demo_objects)" by (simp add: demo_objects_valid(3))
  have size: "table_size KFileSender demo_objects = 0" by (simp add: table_size_def demo_objects_def)
  have ok: "ok_call (SendData h [1, 2])" for h by (simp add: ok_vec_def)
  show ?thesis
    using returned_handle_usable [of demo_bridge cp_count cp_room demo_objects "SendFile 1 ''a''" KFileSender 0 bs w',
        unfolded pool(1), OF cp.object_pool_axioms room pool(2) _ run] ok run
    by (fastforce simp: size pool)
qed

end
