(* ===== verification/Bridge_Locks.thy ===== *)
theory Bridge_Locks
  imports Bridge_Handles
begin

text \<open>
  The calls on one controller of the application bridge, interleaved with its session. A task that
  \<open>Bridge_Dispatch\<close> prepared waits for the lock of its object in the order of arrival, runs, and
  gives the lock back when its call ends. The lock is an argument: \<open>grants held m\<close> says whether it
  can be taken in mode \<open>m\<close> while it is held in the modes \<open>held\<close>.

  The facts: on the receiving side no call ever keeps another one waiting; on the sending side a
  status or error stream that is listened to keeps every other call waiting until the session ends,
  so a session that needs a PIN or a file from the application waits for ever, also after its
  connection is lost.
\<close>

section \<open>The session's side\<close>

text \<open>
  The spawned session goes on by itself, has prompted for a PIN, waits for the PIN or, when it sends,
  for the next file of the application, or has ended together with its task, which closes its
  channels. The controller holds the sending ends of what it waits for, so only a call on the
  controller ends such a wait: the loss of the connection detaches the task, which goes on waiting
  and keeps its own ends of the channels.
\<close>

datatype session_phase = SessionRuns | Prompted | AwaitsPin | AwaitsFile | SessionOver

text \<open>The relaying task puts the oneshot sender of a prompt into the slot of the controller.\<close>

definition prompt_pin :: "object_kind \<Rightarrow> nat \<Rightarrow> 'pool bridge_world \<Rightarrow> 'pool bridge_world" where
  "prompt_pin k i w =
     (case k of
        KSendController \<Rightarrow>
          snd (on_sender i (\<lambda>c. ((), c\<lparr> tx_pin_tx := pin_requested True (tx_pin_tx c) \<rparr>)) w)
      | KReceiveController \<Rightarrow>
          snd (on_receiver i (\<lambda>c. ((), c\<lparr> rx_pin_tx := pin_requested True (rx_pin_tx c) \<rparr>)) w)
      | _ \<Rightarrow> w)"

text \<open>A session that ends drops its ends of the channels: what the application still sends fails.\<close>

definition end_session :: "object_kind \<Rightarrow> nat \<Rightarrow> 'pool bridge_world \<Rightarrow> 'pool bridge_world" where
  "end_session k i w =
     (case k of
        KSendController \<Rightarrow>
          snd (on_sender i (\<lambda>c. ((), c\<lparr> tx_task_gone := True, tx_pin_tx := map_option (\<lambda>_. False) (tx_pin_tx c) \<rparr>)) w)
      | KReceiveController \<Rightarrow>
          snd (on_receiver i (\<lambda>c. ((), c\<lparr> rx_task_gone := True, rx_pin_tx := map_option (\<lambda>_. False) (rx_pin_tx c),
            rx_selected_tx := map_option (\<lambda>_. False) (rx_selected_tx c) \<rparr>)) w)
      | _ \<Rightarrow> w)"

text \<open>What a call of the application gave to the session wakes it.\<close>

definition woken :: "nat \<Rightarrow> 'pool bridge_world \<Rightarrow> 'pool bridge_world \<Rightarrow> session_phase \<Rightarrow> session_phase" where
  "woken i w w' phase =
     (case phase of
        AwaitsPin \<Rightarrow> if length (bw_pins w) < length (bw_pins w') then SessionRuns else AwaitsPin
      | AwaitsFile \<Rightarrow>
          if length (tx_files (bw_senders w ! i)) < length (tx_files (bw_senders w' ! i)) then SessionRuns else AwaitsFile
      | _ \<Rightarrow> phase)"

text \<open>
  \<open>while let Some(x) = self.status_rx.recv().await\<close> ends when the session has dropped its senders;
  the other calls may end at any time.
\<close>

definition may_end :: "u32 \<Rightarrow> session_phase \<Rightarrow> bool" where
  "may_end func_id phase \<longleftrightarrow> (func_id = 15 \<or> func_id = 17 \<longrightarrow> phase = SessionOver)"

section \<open>Steps\<close>

text \<open>
  The application counts a reference for a call before it sends the message. Messages that are
  refused leave no task and are not steps.
\<close>

record 'pool lock_state =
  lk_world :: "'pool bridge_world"
  lk_waiting :: "(u32 \<times> 'pool bridge_world wire_task) list"
  lk_running :: "(u32 \<times> 'pool bridge_world wire_task) list"
  lk_phase :: session_phase

datatype lock_event = Arrives u32 | Granted u32 | Ends u32 | Asks | Relays | SessionEnds | ConnectionLost

definition modes :: "(u32 \<times> 'w wire_task) list \<Rightarrow> lock_mode list" where
  "modes tasks = map (\<lambda>(f, t). wt_mode t) tasks"

inductive lock_step ::
  "('pool, 'sk, 'vk, 'rk, 'cert, 'spki, 'pk) bridge_env \<Rightarrow> (lock_mode list \<Rightarrow> lock_mode \<Rightarrow> bool) \<Rightarrow>
     object_kind \<Rightarrow> u64 \<Rightarrow> nat \<Rightarrow> lock_event \<Rightarrow> 'pool lock_state \<Rightarrow> 'pool lock_state \<Rightarrow> bool"
  for E grants k h i where
  arrive: "pde_ffi_dispatcher_primary E f bs
      (rust_arc_strong_count (be_pool E) IncrementStrongCount k h (lk_world s)) = (Ok t, w') \<Longrightarrow>
    wt_object t = Some (k, h) \<Longrightarrow>
    lock_step E grants k h i (Arrives f) s (s\<lparr> lk_world := w', lk_waiting := lk_waiting s @ [(f, t)] \<rparr>)"
| grant: "lk_waiting s = (f, t) # rest \<Longrightarrow> grants (modes (lk_running s)) (wt_mode t) \<Longrightarrow>
    lock_step E grants k h i (Granted f) s (s\<lparr> lk_waiting := rest, lk_running := lk_running s @ [(f, t)] \<rparr>)"
| call_ends: "lk_running s = xs @ (f, t) # ys \<Longrightarrow> may_end f (lk_phase s) \<Longrightarrow>
    wt_call t (lk_world s) = (r, w') \<Longrightarrow>
    lock_step E grants k h i (Ends f) s
      (s\<lparr> lk_world := w', lk_running := xs @ ys, lk_phase := woken i (lk_world s) w' (lk_phase s) \<rparr>)"
| ask_pin: "lk_phase s = SessionRuns \<Longrightarrow>
    lock_step E grants k h i Asks s (s\<lparr> lk_phase := Prompted \<rparr>)"
| relay_pin: "lk_phase s = Prompted \<Longrightarrow>
    lock_step E grants k h i Relays s (s\<lparr> lk_world := prompt_pin k i (lk_world s), lk_phase := AwaitsPin \<rparr>)"
| ask_file: "k = KSendController \<Longrightarrow> lk_phase s = SessionRuns \<Longrightarrow>
    lock_step E grants k h i Asks s (s\<lparr> lk_phase := AwaitsFile \<rparr>)"
| session_ends: "lk_phase s = SessionRuns \<Longrightarrow>
    lock_step E grants k h i SessionEnds s (s\<lparr> lk_world := end_session k i (lk_world s), lk_phase := SessionOver \<rparr>)"
| connection_lost: "lock_step E grants k h i ConnectionLost s s"

inductive lock_run ::
  "('pool, 'sk, 'vk, 'rk, 'cert, 'spki, 'pk) bridge_env \<Rightarrow> (lock_mode list \<Rightarrow> lock_mode \<Rightarrow> bool) \<Rightarrow>
     object_kind \<Rightarrow> u64 \<Rightarrow> nat \<Rightarrow> lock_event list \<Rightarrow> 'pool lock_state \<Rightarrow> 'pool lock_state \<Rightarrow> bool"
  for E grants k h i where
  run_none: "lock_run E grants k h i [] s s"
| run_step: "lock_run E grants k h i es s s1 \<Longrightarrow> lock_step E grants k h i e s1 s2 \<Longrightarrow>
    lock_run E grants k h i (es @ [e]) s s2"

section \<open>Specification vocabulary\<close>

text \<open>What a readers-writer lock promises.\<close>

locale rw_lock =
  fixes grants :: "lock_mode list \<Rightarrow> lock_mode \<Rightarrow> bool"
  assumes exclusive_alone: "LockExclusive \<in> set held \<Longrightarrow> \<not> grants held m"
    and shared_together: "list_all (\<lambda>m. m = LockShared) held \<Longrightarrow> grants held LockShared"

definition readers_writer :: "lock_mode list \<Rightarrow> lock_mode \<Rightarrow> bool" where
  "readers_writer held m = (held = [] \<or> m = LockShared \<and> list_all (\<lambda>x. x = LockShared) held)"

interpretation readers_writer: rw_lock readers_writer
proof
  show "LockExclusive \<in> set held \<Longrightarrow> \<not> readers_writer held m" for held m
    by (auto simp: readers_writer_def list_all_iff)
  show "list_all (\<lambda>m. m = LockShared) held \<Longrightarrow> readers_writer held LockShared" for held
    by (simp add: readers_writer_def)
qed

text \<open>The calls that arrived, in order.\<close>

definition arrived :: "lock_event list \<Rightarrow> u32 list" where
  "arrived es = concat (map (\<lambda>e. case e of Arrives f \<Rightarrow> [f] | _ \<Rightarrow> []) es)"

text \<open>A stream that runs alone while the session waits for the application.\<close>

definition stuck :: "u32 \<Rightarrow> 'pool bridge_world wire_task \<Rightarrow> 'pool lock_state \<Rightarrow> bool" where
  "stuck f t s \<longleftrightarrow> lk_running s = [(f, t)] \<and> wt_mode t = LockExclusive \<and> (f = 15 \<or> f = 17) \<and>
     (lk_phase s = AwaitsPin \<or> lk_phase s = AwaitsFile)"

text \<open>Only shared tasks.\<close>

definition all_shared :: "'pool lock_state \<Rightarrow> bool" where
  "all_shared s \<longleftrightarrow> list_all (\<lambda>m. m = LockShared) (modes (lk_running s) @ modes (lk_waiting s))"

section \<open>How the calls lock\<close>

lemma with_object_task:
  "with_object E k mode args call bs w = (Ok t, w') \<Longrightarrow> wt_mode t = mode \<and> fst (the (wt_object t)) = k"
  by (auto simp: with_object_def split: res.splits prod.splits)

lemma without_object_task: "without_object E args call bs w = (Ok t, w') \<Longrightarrow> wt_object t = None"
  by (auto simp: without_object_def split: res.splits)

lemma streams_lock_exclusively:
  assumes "func_id = 15 \<or> func_id = 17" "pde_ffi_dispatcher_primary E func_id bs w = (Ok t, w')"
  shows "wt_mode t = LockExclusive"
  using assms by (auto simp: pde_ffi_dispatcher_primary_def wire_tx_listen_error_def wire_tx_listen_status_def
      dest!: with_object_task)

lemma receive_controller_shared:
  assumes "pde_ffi_dispatcher_primary E func_id bs w = (Ok t, w')" "wt_object t = Some (KReceiveController, h)"
  shows "wt_mode t = LockShared"
  using assms
  by (simp add: pde_ffi_dispatcher_primary_def wire_defs split: if_splits)
    (fastforce dest: with_object_task without_object_task)+

lemma arrived_append [simp]: "arrived (es @ es') = arrived es @ arrived es'"
  by (simp add: arrived_def)

lemma arrived_Nil [simp]: "arrived [] = []"
  by (simp add: arrived_def)

lemma run_first:
  "lock_step E grants k h i e s s1 \<Longrightarrow> lock_run E grants k h i es s1 s2 \<Longrightarrow> lock_run E grants k h i (e # es) s s2"
proof (rotate_tac, induction rule: lock_run.induct)
  case (run_none s1)
  then show ?case using lock_run.run_step [OF lock_run.run_none, of E grants k h i e s s1] by simp
next
  case (run_step es s1 s2 e' s3)
  then show ?case using lock_run.run_step [of E grants k h i "e # es" s s2 e' s3] by simp
qed

text \<open>A prepared task changes nothing of the objects.\<close>

lemma prepared_unchanged: "pde_ffi_dispatcher_primary E f bs w = (Ok t, w') \<Longrightarrow> w' = w"
  by (simp add: pde_ffi_dispatcher_primary_def wire_defs split: if_splits)
    (auto simp: with_object_def without_object_def split: res.splits prod.splits)

context rw_lock
begin

lemma stuck_step:
  assumes "lock_step E grants k h i e s s'" "stuck f t s"
  shows "stuck f t s' \<and> lk_phase s' = lk_phase s \<and> bw_pins (lk_world s') = bw_pins (lk_world s) \<and>
     bw_senders (lk_world s') = bw_senders (lk_world s) \<and>
     map fst (lk_waiting s') = map fst (lk_waiting s) @ arrived [e]"
  using assms(1)
proof cases
  case (arrive g bs u w')
  then show ?thesis
    using assms(2) prepared_unchanged [OF arrive(3)] by (simp add: stuck_def arrived_def rust_arc_strong_count_def)
next
  case (grant g u rest)
  then show ?thesis using assms(2) exclusive_alone [of "modes (lk_running s)"] by (simp add: stuck_def modes_def)
next
  case (call_ends xs g u ys r w')
  then show ?thesis using assms(2) by (auto simp: stuck_def may_end_def append_eq_Cons_conv Cons_eq_append_conv)
qed (use assms(2) in \<open>auto simp: stuck_def arrived_def\<close>)

lemma stuck_run:
  assumes "lock_run E grants k h i es s s'" "stuck f t s"
  shows "stuck f t s' \<and> lk_phase s' = lk_phase s \<and> bw_pins (lk_world s') = bw_pins (lk_world s) \<and>
     bw_senders (lk_world s') = bw_senders (lk_world s) \<and>
     map fst (lk_waiting s') = map fst (lk_waiting s) @ arrived es"
  using assms
proof (induction rule: lock_run.induct)
  case (run_step es s s1 e s2)
  then show ?case using stuck_step [of E k h i e s1 s2 f t] by auto
qed simp

lemma all_shared_step:
  assumes "lock_step E grants KReceiveController h i e s s'" "all_shared s"
  shows "all_shared s'"
  using assms(1)
proof cases
  case (arrive g bs u w')
  then show ?thesis using assms(2) receive_controller_shared by (auto simp: all_shared_def modes_def)
qed (use assms(2) in \<open>auto simp: all_shared_def modes_def\<close>)

lemma all_shared_run:
  assumes "lock_run E grants KReceiveController h i es s s'" "all_shared s"
  shows "all_shared s'"
  using assms by (induction rule: lock_run.induct) (auto intro: all_shared_step)

lemma head_granted:
  assumes "all_shared s" "lk_waiting s = (f, t) # rest"
  shows "lock_step E grants k h i (Granted f) s (s\<lparr> lk_waiting := rest, lk_running := lk_running s @ [(f, t)] \<rparr>)"
  using assms by (intro grant shared_together) (auto simp: all_shared_def modes_def intro!: shared_together)

lemma queue_granted:
  "all_shared s \<Longrightarrow> lk_waiting s = q \<Longrightarrow>
   lock_run E grants k h i (map (\<lambda>(f, t). Granted f) q) s (s\<lparr> lk_waiting := [], lk_running := lk_running s @ q \<rparr>)"
proof (induction q arbitrary: s)
  case Nil
  then have "s\<lparr> lk_waiting := [], lk_running := lk_running s @ [] \<rparr> = s" by (cases s) simp
  then show ?case using run_none [of E grants k h i s] by simp
next
  case (Cons ft q)
  obtain f t where ft: "ft = (f, t)" by (cases ft)
  let ?s = "s\<lparr> lk_waiting := q, lk_running := lk_running s @ [(f, t)] \<rparr>"
  have step: "lock_step E grants k h i (Granted f) s ?s" using head_granted Cons.prems ft by simp
  have "all_shared ?s" using Cons.prems ft by (auto simp: all_shared_def modes_def)
  then show ?case using run_first [OF step Cons.IH [of ?s]] ft by simp
qed

end

text \<open>An application that listens to a stream before the session asks for a PIN.\<close>

lemma listening_run:
  assumes "pde_ffi_dispatcher_primary E f bs
      (rust_arc_strong_count (be_pool E) IncrementStrongCount k h (lk_world s)) = (Ok t, w1)"
    and "wt_object t = Some (k, h)" "grants [] (wt_mode t)"
    and "lk_waiting s = []" "lk_running s = []" "lk_phase s = SessionRuns"
  shows "lock_run E grants k h i [Arrives f, Granted f, Asks, Relays] s
     (s\<lparr> lk_world := prompt_pin k i w1, lk_running := [(f, t)], lk_phase := AwaitsPin \<rparr>)"
proof -
  let ?a = "s\<lparr> lk_world := w1, lk_waiting := [(f, t)] \<rparr>"
  let ?b = "?a\<lparr> lk_waiting := [], lk_running := [(f, t)] \<rparr>"
  have a: "lock_step E grants k h i (Arrives f) s ?a" using arrive [OF assms(1,2)] assms(4) by simp
  have b: "lock_step E grants k h i (Granted f) ?a ?b"
    using grant [of ?a f t "[]" grants] assms(3,5) by (simp add: modes_def)
  let ?c = "?b\<lparr> lk_phase := Prompted \<rparr>"
  have c: "lock_step E grants k h i Asks ?b ?c" using ask_pin [of ?b] assms(6) by simp
  have d: "lock_step E grants k h i Relays ?c (?c\<lparr> lk_world := prompt_pin k i (lk_world ?c), lk_phase := AwaitsPin \<rparr>)"
    using relay_pin [of ?c] by simp
  have "?c\<lparr> lk_world := prompt_pin k i (lk_world ?c), lk_phase := AwaitsPin \<rparr> =
      s\<lparr> lk_world := prompt_pin k i w1, lk_running := [(f, t)], lk_phase := AwaitsPin \<rparr>"
    using assms(4) by (cases s) simp
  with run_first [OF a run_first [OF b run_first [OF c run_first [OF d run_none]]]] show ?thesis by simp
qed

section \<open>A concrete controller\<close>

text \<open>The controllers of \<open>demo_objects\<close> before any call.\<close>

definition idle :: "counted_pool lock_state" where
  "idle = \<lparr> lk_world = demo_objects, lk_waiting = [], lk_running = [], lk_phase = SessionRuns \<rparr>"

definition stream_task :: "counted_pool bridge_world wire_task" where
  "stream_task = call_task demo_bridge (TxListenStatus 1 (StreamSink ''a'')) 0"

definition pin_task :: "counted_pool bridge_world wire_task" where
  "pin_task = call_task demo_bridge (TxSendPin 1 ''1234'') 0"

definition rx_stream_task :: "counted_pool bridge_world wire_task" where
  "rx_stream_task = call_task demo_bridge (RxListenStatus 2 (StreamSink ''a'')) 0"

lemma demo_calls:
  "op_decode counted KSendController 1 (bw_pool w) = Ok 0 \<Longrightarrow>
   pde_ffi_dispatcher_primary demo_bridge 17 (call_message False (TxListenStatus 1 (StreamSink ''a''))) w =
     (Ok stream_task, w)"
  "op_decode counted KSendController 1 (bw_pool w) = Ok 0 \<Longrightarrow>
   pde_ffi_dispatcher_primary demo_bridge 19 (call_message False (TxSendPin 1 ''1234'')) w = (Ok pin_task, w)"
  "op_decode counted KReceiveController 2 (bw_pool w) = Ok 0 \<Longrightarrow>
   pde_ffi_dispatcher_primary demo_bridge 11 (call_message False (RxListenStatus 2 (StreamSink ''a''))) w =
     (Ok rx_stream_task, w)"
proof -
  have "utf8_valid (map unat (as_bytes ''a''))" "utf8_valid (map unat (as_bytes ''1234''))" by code_simp+
  then have ok: "ok_call (TxListenStatus 1 (StreamSink ''a''))" "ok_call (TxSendPin 1 ''1234'')"
    "ok_call (RxListenStatus 2 (StreamSink ''a''))"
    by (simp_all add: ok_sink_def ok_string_def)
  have E: "be_end demo_bridge [] = Ok ()" "be_big demo_bridge = False" "be_pool demo_bridge = counted"
    by (simp_all add: demo_bridge_def)
  show "op_decode counted KSendController 1 (bw_pool w) = Ok 0 \<Longrightarrow>
      pde_ffi_dispatcher_primary demo_bridge 17 (call_message False (TxListenStatus 1 (StreamSink ''a''))) w =
      (Ok stream_task, w)"
    using dispatch_call [OF ok(1) E(1), of w 0] E by (simp add: stream_task_def)
  show "op_decode counted KSendController 1 (bw_pool w) = Ok 0 \<Longrightarrow>
      pde_ffi_dispatcher_primary demo_bridge 19 (call_message False (TxSendPin 1 ''1234'')) w = (Ok pin_task, w)"
    using dispatch_call [OF ok(2) E(1), of w 0] E by (simp add: pin_task_def)
  show "op_decode counted KReceiveController 2 (bw_pool w) = Ok 0 \<Longrightarrow>
      pde_ffi_dispatcher_primary demo_bridge 11 (call_message False (RxListenStatus 2 (StreamSink ''a''))) w =
      (Ok rx_stream_task, w)"
    using dispatch_call [OF ok(3) E(1), of w 0] E by (simp add: rx_stream_task_def)
qed

section \<open>Properties\<close>

text \<open>
  C19: once the application listens to the status or error stream of a sending controller, a session
  that waits for a PIN or for a file of the application waits for ever, even when its connection is
  lost: every other call on the controller stays in the queue, in its order of arrival.
\<close>

theorem listening_sender_never_answered:
  assumes "rw_lock grants" "f = 15 \<or> f = 17" "pde_ffi_dispatcher_primary E f bs w0 = (Ok t, w1)"
    and "lk_running s = [(f, t)]" "lk_phase s = AwaitsPin \<or> lk_phase s = AwaitsFile"
    and "lock_run E grants KSendController h i es s s'"
  shows "lk_running s' = [(f, t)] \<and> lk_phase s' = lk_phase s \<and> bw_pins (lk_world s') = bw_pins (lk_world s) \<and>
     bw_senders (lk_world s') = bw_senders (lk_world s) \<and>
     map fst (lk_waiting s') = map fst (lk_waiting s) @ arrived es"
proof -
  have "stuck f t s" using assms(2,4,5) streams_lock_exclusively [OF assms(2,3)] by (simp add: stuck_def)
  from rw_lock.stuck_run [OF assms(1,6) this] show ?thesis by (simp add: stuck_def)
qed

theorem listening_sender_never_answered_witness:
  "\<exists>s s'. lock_run demo_bridge readers_writer KSendController 1 0 [Arrives 17, Granted 17, Asks, Relays] idle s \<and>
     lk_phase s = AwaitsPin \<and> lock_run demo_bridge readers_writer KSendController 1 0 [Arrives 19] s s' \<and>
     lk_phase s' = AwaitsPin \<and> map fst (lk_waiting s') = [19] \<and> bw_pins (lk_world s') = []"
proof -
  let ?up = "rust_arc_strong_count counted IncrementStrongCount KSendController 1"
  let ?w = "prompt_pin KSendController 0 (?up demo_objects)"
  let ?s = "idle\<lparr> lk_world := ?w, lk_running := [(17, stream_task)], lk_phase := AwaitsPin \<rparr>"
  let ?s' = "?s\<lparr> lk_world := ?up ?w, lk_waiting := [(19, pin_task)] \<rparr>"
  have E: "be_pool demo_bridge = counted" by (simp add: demo_bridge_def)
  have obj: "wt_object stream_task = Some (KSendController, 1)" "wt_object pin_task = Some (KSendController, 1)"
    by (simp_all add: stream_task_def pin_task_def call_task_def)
  have dec: "op_decode counted KSendController 1 (bw_pool (?up demo_objects)) = Ok 0"
    "op_decode counted KSendController 1 (bw_pool (?up ?w)) = Ok 0" and pins: "bw_pins ?w = []"
    by (simp_all add: rust_arc_strong_count_def counted_def prompt_pin_def on_sender_def demo_objects_def)
  have run: "lock_run demo_bridge readers_writer KSendController 1 0 [Arrives 17, Granted 17, Asks, Relays] idle ?s"
    by (rule listening_run [OF _ obj(1)])
      (use demo_calls(1) [OF dec(1)] in \<open>simp_all add: idle_def E readers_writer_def\<close>)
  have "lock_step demo_bridge readers_writer KSendController 1 0 (Arrives 19) ?s ?s'"
    using arrive [where s = ?s and E = demo_bridge, OF _ obj(2)] demo_calls(2) [OF dec(2)] by (simp add: idle_def E)
  then have more: "lock_run demo_bridge readers_writer KSendController 1 0 [Arrives 19] ?s ?s'"
    by (rule run_first [OF _ run_none])
  have "lk_phase ?s' = AwaitsPin \<and> map fst (lk_waiting ?s') = [19] \<and> bw_pins (lk_world ?s') = []"
    using listening_sender_never_answered [OF readers_writer.rw_lock_axioms _ demo_calls(1) [OF dec(1)] _ _ more] pins
    by (simp add: idle_def arrived_def)
  with run more show ?thesis by (intro exI [of _ ?s, OF exI [of _ ?s']]) simp
qed

lemma pin_call_effect:
  assumes "i < length (bw_receivers w)" "rx_pin_tx (bw_receivers w ! i) = Some True"
    and "wt_call (call_task E (RxSendPin h p) i) w = (r, w')"
  shows "bw_pins w' = bw_pins w @ [(KReceiveController, i, p)]"
  using assms
  by (auto simp: call_task_def released_def release_def rust_arc_strong_count_def reply_def note_pin_def on_receiver_def
      rx_send_pin_def send_pin_def send_once_def split: prod.splits res.splits)

text \<open>
  C32: on a receiving controller no call keeps another one from starting, so a session that asks for a
  PIN gets it although every other call of the application, its status stream among them, goes on:
  the call arrives, all calls that wait start one after the other, and the PIN reaches the session.
\<close>

theorem listening_receiver_answered:
  assumes "rw_lock grants" "lock_run E grants KReceiveController h i es s0 s"
    and "lk_running s0 = []" "lk_waiting s0 = []" "lk_phase s = AwaitsPin"
    and "object_pool (be_pool E) count room" "op_decode (be_pool E) KReceiveController h (bw_pool (lk_world s)) = Ok i"
    and "i < length (bw_receivers (lk_world s))" "rx_pin_tx (bw_receivers (lk_world s) ! i) = Some True"
    and "ok_string p" "be_end E [] = Ok ()"
  shows "\<exists>s'. lock_run E grants KReceiveController h i
       (Arrives 13 # map (\<lambda>(f, t). Granted f) (lk_waiting s) @ [Granted 13, Ends 13]) s s' \<and>
     lk_phase s' = SessionRuns \<and> lk_running s' = lk_running s @ lk_waiting s \<and> lk_waiting s' = [] \<and>
     bw_pins (lk_world s') = bw_pins (lk_world s) @ [(KReceiveController, i, p)]"
proof -
  let ?c = "RxSendPin h p" and ?w = "rust_arc_strong_count (be_pool E) IncrementStrongCount KReceiveController h (lk_world s)"
  let ?t = "call_task E ?c i"
  let ?q = "lk_waiting s @ [(13, ?t)]"
  let ?a = "s\<lparr> lk_world := ?w, lk_waiting := ?q \<rparr>"
  let ?b = "?a\<lparr> lk_waiting := [], lk_running := lk_running ?a @ ?q \<rparr>"
  obtain r w' where run: "wt_call ?t ?w = (r, w')" by (cases "wt_call ?t ?w")
  have w: "i < length (bw_receivers ?w)" "rx_pin_tx (bw_receivers ?w ! i) = Some True" "bw_pins ?w = bw_pins (lk_world s)"
    using assms(8,9) by (simp_all add: rust_arc_strong_count_def)
  have pins: "bw_pins w' = bw_pins (lk_world s) @ [(KReceiveController, i, p)]"
    using pin_call_effect [OF w(1,2) run] w(3) by simp
  have "op_decode (be_pool E) KReceiveController h (bw_pool ?w) = Ok i"
    using assms(6,7) object_pool.decode_increment [OF assms(6)] object_pool.decode_live [OF assms(6)]
    by (auto simp: rust_arc_strong_count_def)
  then have "pde_ffi_dispatcher_primary E (call_id ?c) (call_message (be_big E) ?c) ?w = (Ok ?t, ?w)"
    using assms(10,11) by (intro dispatch_call) auto
  then have arrives: "lock_step E grants KReceiveController h i (Arrives 13) s ?a"
    by (intro arrive) (simp_all add: call_task_def)
  have "all_shared s0" using assms(3,4) by (simp add: all_shared_def modes_def)
  then have "all_shared s" using rw_lock.all_shared_run [OF assms(1,2)] by simp
  then have "all_shared ?a" using rw_lock.all_shared_step [OF assms(1) arrives] by simp
  from rw_lock.queue_granted [OF assms(1) this refl]
  have granted: "lock_run E grants KReceiveController h i (map (\<lambda>(f, t). Granted f) ?q) ?a ?b" by simp
  have "lock_step E grants KReceiveController h i (Ends 13) ?b
      (?b\<lparr> lk_world := w', lk_running := (lk_running s @ lk_waiting s) @ [], lk_phase := woken i ?w w' AwaitsPin \<rparr>)"
    using call_ends [of ?b "lk_running s @ lk_waiting s" 13 ?t "[]" r w' E grants KReceiveController h i] run assms(5)
    by (simp add: may_end_def)
  from run_first [OF arrives lock_run.run_step [OF granted this]] show ?thesis
    using pins w(3) by (intro exI conjI) (auto simp: woken_def)
qed

theorem listening_receiver_answered_witness:
  "\<exists>s s'. lock_run demo_bridge readers_writer KReceiveController 2 0 [Arrives 11, Granted 11, Asks, Relays] idle s \<and>
     lock_run demo_bridge readers_writer KReceiveController 2 0
       (Arrives 13 # map (\<lambda>(f, t). Granted f) (lk_waiting s) @ [Granted 13, Ends 13]) s s' \<and>
     lk_phase s' = SessionRuns \<and> map fst (lk_running s') = [11] \<and>
     bw_pins (lk_world s') = [(KReceiveController, 0, ''1234'')]"
proof -
  let ?w = "rust_arc_strong_count counted IncrementStrongCount KReceiveController 2 demo_objects"
  let ?s = "idle\<lparr> lk_world := prompt_pin KReceiveController 0 ?w, lk_running := [(11, rx_stream_task)],
    lk_phase := AwaitsPin \<rparr>"
  have E: "be_pool demo_bridge = counted" "be_end demo_bridge [] = Ok ()" by (simp_all add: demo_bridge_def)
  have dec: "op_decode counted KReceiveController 2 (bw_pool ?w) = Ok 0"
    "op_decode counted KReceiveController 2 (bw_pool (lk_world ?s)) = Ok 0"
    "0 < length (bw_receivers (lk_world ?s))" "rx_pin_tx (bw_receivers (lk_world ?s) ! 0) = Some True"
    "bw_pins (lk_world ?s) = []"
    by (simp_all add: rust_arc_strong_count_def counted_def prompt_pin_def on_receiver_def demo_objects_def
        pin_requested_def)
  have run: "lock_run demo_bridge readers_writer KReceiveController 2 0 [Arrives 11, Granted 11, Asks, Relays] idle ?s"
    by (rule listening_run)
      (use demo_calls(3) [OF dec(1)] in \<open>simp_all add: idle_def E readers_writer_def rx_stream_task_def call_task_def\<close>)
  have "utf8_valid (map unat (as_bytes ''1234''))" by code_simp
  then have "ok_string ''1234''" by (simp add: ok_string_def)
  from listening_receiver_answered [where E = demo_bridge, unfolded E(1), OF readers_writer.rw_lock_axioms run _ _ _
      cp.object_pool_axioms dec(2-4) this E(2)]
  obtain s' where "lock_run demo_bridge readers_writer KReceiveController 2 0
      (Arrives 13 # map (\<lambda>(f, t). Granted f) (lk_waiting ?s) @ [Granted 13, Ends 13]) ?s s'"
    "lk_phase s' = SessionRuns" "map fst (lk_running s') = [11]"
    "bw_pins (lk_world s') = [(KReceiveController, 0, ''1234'')]"
    using dec(5) by (auto simp: idle_def)
  with run show ?thesis by (intro exI [of _ ?s, OF exI [of _ s']]) simp
qed

end
