(* ===== verification/Transfer_Runs.thy ===== *)
theory Transfer_Runs
  imports File_Transfer
begin

text \<open>
  Complete runs of the two transfer tasks of \<open>core/src/webrtc/webrtc.rs\<close> against each other, with
  or without a PIN on either side. \<open>runs\<close> says what a part of a task does over a working channel:
  which messages it consumes, which it writes, which statuses it reports. The parts compose along
  the sequence of the tasks; the transcripts are the two complete dialogues.

  The facts: both tasks succeed against each other and the files arrive; neither task reports
  \<open>Connected\<close> to a peer that has not identified itself.
\<close>

section \<open>Transcripts\<close>

text \<open>
  The messages of a PIN challenge in which the proving side sends the wrong PINs \<open>bad\<close> and then
  the right one: its guesses, the verdicts of a receiver, and the notices of a sender.
\<close>

definition guesses :: "rtc_codec \<Rightarrow> pin_config option \<Rightarrow> string list \<Rightarrow> dc_message list" where
  "guesses C cfg bad = (case cfg of None \<Rightarrow> [] | Some p \<Rightarrow> map (pin_message C) (bad @ [pin p]))"

definition verdicts :: "rtc_codec \<Rightarrow> pin_config option \<Rightarrow> string list \<Rightarrow> dc_message list" where
  "verdicts C cfg bad =
     (case cfg of
        None \<Rightarrow> []
      | Some p \<Rightarrow> replicate (length bad) (text_message (ser_pin_receiving C PinReceivingPinRequired)) @
                  [text_message (ser_pin_receiving C PinReceivingOk)])"

definition notices :: "rtc_codec \<Rightarrow> pin_config option \<Rightarrow> string list \<Rightarrow> dc_message list" where
  "notices C cfg bad =
     (case cfg of
        None \<Rightarrow> []
      | Some p \<Rightarrow> concat (replicate (Suc (length bad)) (chunked (ser_pin_sending C PinSendingPinRequired))))"

text \<open>The user of the proving side knows the PIN in time.\<close>

definition guessed :: "pin_config option \<Rightarrow> string list \<Rightarrow> string option list \<Rightarrow> bool" where
  "guessed cfg bad answers \<longleftrightarrow>
     (case cfg of
        None \<Rightarrow> True
      | Some p \<Rightarrow> pin p \<noteq> [] \<and> pin p \<notin> set bad \<and> length bad < unat (max_tries p) \<and>
                  take (Suc (length bad)) answers = map Some (bad @ [pin p]))"

text \<open>What a task tells its user about a challenge.\<close>

definition prompts :: "pin_config option \<Rightarrow> nat \<Rightarrow> rtc_status list" where
  "prompts cfg n = (case cfg of None \<Rightarrow> [] | Some p \<Rightarrow> replicate n PinRequired)"

text \<open>
  The complete dialogue: \<open>T\<close> are the file tokens the receiver hands out, \<open>ts\<close> and \<open>tr\<close> the
  tokens of the two peers, \<open>bad_s\<close> the wrong PINs the receiver tries on the sender's challenge and
  \<open>bad_r\<close> those the sender tries on the receiver's.
\<close>

definition sender_transcript ::
  "('sk, 'vk, 'rk) crypto_lib \<Rightarrow> rtc_codec \<Rightarrow> ('sk, 'vk, 'rk) send_config \<Rightarrow> ('sk, 'vk, 'rk) receive_config \<Rightarrow>
     string \<Rightarrow> string list \<Rightarrow> string list \<Rightarrow> (string, string) hash_map \<Rightarrow> dc_message list" where
  "sender_transcript L C sc rc ts bad_s bad_r T =
     [nonce_message L C (sc_rng sc)] @ [text_message (ser_token_request C ts)] @
     guesses C (rc_pin rc) bad_r @ notices C (sc_pin sc) bad_s @
     chunked (ser_pin_sending C (PinSendingOk (sc_files sc))) @
     concat (map (file_wire C T) (sc_sending sc)) @ [delimiter]"

definition token_reply :: "pin_config option \<Rightarrow> string \<Rightarrow> rtc_token_response" where
  "token_reply cfg token = (case cfg of None \<Rightarrow> TokenOk token | Some p \<Rightarrow> TokenPinRequired token)"

definition receiver_transcript ::
  "('sk, 'vk, 'rk) crypto_lib \<Rightarrow> rtc_codec \<Rightarrow> ('sk, 'vk, 'rk) send_config \<Rightarrow> ('sk, 'vk, 'rk) receive_config \<Rightarrow>
     string \<Rightarrow> string list \<Rightarrow> string list \<Rightarrow> (string, string) hash_map \<Rightarrow> dc_message list" where
  "receiver_transcript L C sc rc tr bad_s bad_r T =
     [nonce_message L C (rc_rng rc)] @ [text_message (ser_token_response C (token_reply (rc_pin rc) tr))] @
     verdicts C (rc_pin rc) bad_r @ guesses C (sc_pin sc) bad_s @
     chunked (ser_file_list C (FileListOk T)) @ map (success_response C \<circ> rf_file_id) (sc_sending sc)"

section \<open>Parts of a task over a working channel\<close>

definition runs ::
  "dc_message list \<Rightarrow> 'a io \<Rightarrow> 'a \<Rightarrow> dc_message list \<Rightarrow> rtc_status list \<Rightarrow> dc_message list \<Rightarrow> bool" where
  "runs ms m r out sts ms' \<longleftrightarrow>
     (\<forall>w. fault_free w \<longrightarrow> inbox w = ms \<longrightarrow>
        (\<exists>k. m w = (Ok r, w\<lparr> inbox := ms', outbox := outbox w @ out, dc_sends := dc_sends w + k,
                              statuses := statuses w @ sts \<rparr>)))"

lemma runsI:
  assumes "\<And>w. fault_free w \<Longrightarrow> inbox w = ms \<Longrightarrow>
     m w = (Ok r, w\<lparr> inbox := ms', outbox := outbox w @ out, dc_sends := dc_sends w + k, statuses := statuses w @ sts \<rparr>)"
  shows "runs ms m r out sts ms'"
  using assms unfolding runs_def by blast

lemma runs_bind:
  assumes "runs ms m a out1 sts1 ms1" "runs ms1 (f a) b out2 sts2 ms2"
  shows "runs ms (io_bind m f) b (out1 @ out2) (sts1 @ sts2) ms2"
  unfolding runs_def
proof (intro allI impI)
  fix w assume w: "fault_free w" "inbox w = ms"
  with assms(1) obtain k where k: "m w = (Ok a, w\<lparr> inbox := ms1, outbox := outbox w @ out1, dc_sends := dc_sends w + k,
      statuses := statuses w @ sts1 \<rparr>)"
    unfolding runs_def by blast
  let ?w = "w\<lparr> inbox := ms1, outbox := outbox w @ out1, dc_sends := dc_sends w + k, statuses := statuses w @ sts1 \<rparr>"
  have "fault_free ?w" "inbox ?w = ms1" using w by simp_all
  with assms(2) obtain l where "f a ?w = (Ok b, ?w\<lparr> inbox := ms2, outbox := outbox ?w @ out2, dc_sends := dc_sends ?w + l,
      statuses := statuses ?w @ sts2 \<rparr>)"
    unfolding runs_def by blast
  with k show "\<exists>k. io_bind m f w = (Ok b, w\<lparr> inbox := ms2, outbox := outbox w @ out1 @ out2, dc_sends := dc_sends w + k,
      statuses := statuses w @ sts1 @ sts2 \<rparr>)"
    by (intro exI [of _ "k + l"]) (simp add: io_bind_def add.assoc)
qed

lemma runs_world:
  assumes "runs (inbox w) m r out sts ms'" "fault_free w"
  obtains k where "m w = (Ok r, w\<lparr> inbox := ms', outbox := outbox w @ out, dc_sends := dc_sends w + k,
     statuses := statuses w @ sts \<rparr>)"
  using assms unfolding runs_def by blast

lemma runs_outcome:
  assumes "runs ms m r out sts ms'" "fault_free w" "inbox w = ms"
  shows "fst (m w) = Ok r" "outbox (snd (m w)) = outbox w @ out" "statuses (snd (m w)) = statuses w @ sts"
  using assms unfolding runs_def by fastforce+

lemma runs_return: "runs ms (io_return a) a [] [] ms"
  by (rule runsI [where k = 0]) (simp add: io_return_def)

lemma runs_send: "runs ms (dc_send m) () [m] [] ms"
  by (rule runsI [where k = 1]) (simp add: io_simps)

lemma runs_status: "runs ms (send_status st) () [] [st] ms"
  by (rule runsI [where k = 0]) (simp add: io_simps)

lemma runs_recv: "runs (m # ms) dc_recv (Some m) [] [] ms"
  by (rule runsI [where k = 0]) (simp add: io_simps)

lemma runs_send_chunked: "runs ms (io_bind (send_string_in_chunks send_chunk b) (\<lambda>_. send_delimiter)) () (chunked b) [] ms"
  by (rule runsI [where k = "length (chunked b)"]) (simp add: io_bind_def io_simps send_delimiter_eq chunked_def)

lemma runs_receive_chunked: "runs (chunked b @ ms) receive_string_from_chunks b [] [] ms"
  using receive_string_ok [of _ b delimiter ms]
  by (intro runsI [where k = 0]) (simp add: chunked_def)

lemma runs_bind':
  assumes "runs ms m a out1 sts1 ms1" "runs ms1 (f a) b out2 sts2 ms2" "out = out1 @ out2" "sts = sts1 @ sts2"
  shows "runs ms (io_bind m f) b out sts ms2"
  unfolding assms(3,4) by (rule runs_bind [where f = f, OF assms(1,2)])

section \<open>The exchanges\<close>

lemma own_token_verifies:
  assumes "base64_engine (base64_encode L) (base64_decode L)" "ed25519_correct L"
    and "generate_token_nonce L sk nonce = Ok token"
  shows "verify_token_nonce L (to_verifying_key L sk) token nonce = Ok True"
  by (simp add: verify_token_nonce_eq_True verify_generated_token [OF assms])

lemma runs_nonce_exchange:
  assumes "codec_ok C" "base64_engine (base64_encode L) (base64_decode L)" "validate_nonce (generate_nonce rng')"
  shows "runs (nonce_message L C rng' # ms) (sender_nonce_exchange L C rng)
      (generate_nonce rng @ generate_nonce rng') [nonce_message L C rng] [] ms"
    and "runs (nonce_message L C rng' # ms) (receiver_nonce_exchange L C rng)
      (generate_nonce rng' @ generate_nonce rng) [nonce_message L C rng] [] ms"
  using nonce_exchange_ok [OF assms(1,2) _ assms(3)]
  by (auto intro!: runsI [where k = 1] simp: nonce_message_def)

lemma runs_sender_token_exchange:
  assumes "codec_ok C" "generate_token_nonce L sk nonce = Ok ts"
    and "\<And>key. expecting = Some key \<Longrightarrow> verify_token_nonce L key tr nonce = Ok True"
  shows "runs (text_message (ser_token_response C (token_reply cfg tr)) # ms)
     (sender_token_exchange L C sk expecting nonce) (tr, token_reply cfg tr)
     [text_message (ser_token_request C ts)] [] ms"
proof (rule runsI [where k = 1])
  fix w :: task_world
  assume "fault_free w" "inbox w = text_message (ser_token_response C (token_reply cfg tr)) # ms"
  with assms show "sender_token_exchange L C sk expecting nonce w = (Ok (tr, token_reply cfg tr),
      w\<lparr> inbox := ms, outbox := outbox w @ [text_message (ser_token_request C ts)], dc_sends := dc_sends w + 1,
        statuses := statuses w @ [] \<rparr>)"
    by (cases expecting; cases cfg) (simp_all add: token_reply_def sender_token_exchange_def io_bind_def io_of_def
        io_map_err_def io_simps io_return_def)
qed

lemma runs_receiver_token_exchange:
  assumes "codec_ok C" "generate_token_nonce L sk nonce = Ok tr"
    and "\<And>key. expecting = Some key \<Longrightarrow> verify_token_nonce L key ts nonce = Ok True"
  shows "runs (text_message (ser_token_request C ts) # ms)
     (receiver_token_exchange L C sk expecting cfg nonce) ts
     [text_message (ser_token_response C (token_reply cfg tr))] [] ms"
proof (rule runsI [where k = 1])
  fix w :: task_world
  assume "fault_free w" "inbox w = text_message (ser_token_request C ts) # ms"
  with assms show "receiver_token_exchange L C sk expecting cfg nonce w = (Ok ts,
      w\<lparr> inbox := ms, outbox := outbox w @ [text_message (ser_token_response C (token_reply cfg tr))],
        dc_sends := dc_sends w + 1, statuses := statuses w @ [] \<rparr>)"
    by (cases expecting; cases cfg) (simp_all add: token_reply_def receiver_token_exchange_def io_bind_def io_of_def
        io_map_err_def io_simps io_return_def)
qed

section \<open>The PIN challenges\<close>

text \<open>The checking side: \<open>note\<close> is what its callback writes when a PIN is required.\<close>

lemma runs_verify_pin_loop:
  assumes "codec_ok C" "\<And>ms. runs ms (send_result VerifyPinRequired) () note [] ms"
    and "pin cfg \<notin> set (remote_pin # bad)" "length bad < unat (max_tries cfg) - unat pin_try"
  shows "runs (map (pin_message C) (bad @ [pin cfg]) @ later)
     (verify_pin_loop C cfg send_result notice remote_pin pin_try) ()
     (concat (replicate (length bad + (if notice \<or> pin_try > 0 then 1 else 0)) note)) [] later"
  using assms(3,4)
proof (induction bad arbitrary: remote_pin pin_try notice)
  case Nil
  then have go: "remote_pin \<noteq> pin cfg" "pin_try < max_tries cfg" by (auto simp: word_less_nat_alt)
  have "verify_pin_loop C cfg send_result False (pin cfg) (pin_try + 1) = io_return ()"
    by (rule ext) (simp add: verify_pin_loop_match io_return_def)
  then show ?case
    using assms(1,2)
    by (auto simp: verify_pin_loop_try [OF go, abs_def] intro!: runs_bind' [OF assms(2)] runs_bind' [OF runs_return]
        runs_bind' [OF runs_recv] runs_return)
next
  case (Cons g bad)
  then have go: "remote_pin \<noteq> pin cfg" "pin_try < max_tries cfg" by (auto simp: word_less_nat_alt)
  have "pin_try + 1 > 0" using unat_Suc_if_less [OF go(2)] by (simp add: word_less_nat_alt)
  with Cons.IH [of g "pin_try + 1" False] Cons.prems tries_left_Suc [OF go(2)]
  have IH: "runs (map (pin_message C) (bad @ [pin cfg]) @ later)
      (verify_pin_loop C cfg send_result False g (pin_try + 1)) () (concat (replicate (Suc (length bad)) note)) [] later"
    by simp
  then show ?case
    using assms(1,2)
    by (auto simp: verify_pin_loop_try [OF go, abs_def] intro!: runs_bind' [OF assms(2)] runs_bind' [OF runs_return]
        runs_bind' [OF runs_recv] runs_return)
qed

text \<open>The proving side: \<open>req\<close> and \<open>fin\<close> are the replies to a wrong and to the right PIN.\<close>

lemma runs_handle_pin:
  assumes "\<And>ms. runs (req @ ms) (receive_pin_response in_chunks) q [] [] ms"
    and "\<And>ms. runs (fin @ ms) (receive_pin_response in_chunks) a [] [] ms"
    and "parse q = ChallengePinRequired" "parse a = ChallengeOk r"
  shows "runs (concat (replicate (length bad) req) @ fin @ later)
     (handle_pin C in_chunks parse (map Some (bad @ [p]) @ rest)) r
     (map (pin_message C) (bad @ [p])) (replicate (Suc (length bad)) PinRequired) later"
proof (induction bad)
  case Nil
  show ?case
    using assms(4)
    by (auto intro!: runs_bind' [OF runs_status] runs_bind' [OF runs_send] runs_bind' [OF assms(2)] runs_return
        simp: pin_message_def)
next
  case (Cons g bad)
  then show ?case
    using assms(3)
    by (auto intro!: runs_bind' [OF runs_status] runs_bind' [OF runs_send] runs_bind' [OF assms(1)]
        simp: pin_message_def)
qed

lemma guessedD:
  assumes "guessed (Some p) bad answers"
  shows "pin p \<noteq> []" "pin p \<notin> set ([] # bad)" "length bad < unat (max_tries p) - unat (0 :: u8)"
    and "map Some (bad @ [pin p]) @ drop (Suc (length bad)) answers = answers"
  using assms append_take_drop_id [of "Suc (length bad)" answers] by (auto simp: guessed_def)

lemma runs_verify_pin:
  assumes "codec_ok C" "\<And>ms. runs ms (send_result VerifyPinRequired) () note [] ms" "guessed (Some p) bad answers"
  shows "runs (guesses C (Some p) bad @ later) (verify_pin C p notice send_result) ()
     (concat (replicate (length bad + (if notice then 1 else 0)) note)) [PinRequired] later"
  unfolding verify_pin_def
  by (rule runs_bind' [OF runs_status])
    (use runs_verify_pin_loop [where send_result = send_result and notice = notice and later = later, OF assms(1,2) guessedD(2,3) [OF assms(3)]]
      in \<open>auto simp: guesses_def\<close>)

lemma concat_replicate_single [simp]: "concat (replicate n [x]) = replicate n x"
  by (induction n) simp_all

text \<open>The receiver checks the sender's PIN; the sender proves it, then checks the receiver's.\<close>

lemma runs_receiver_pin_phase:
  assumes "codec_ok C" "guessed cfg bad answers"
  shows "runs (guesses C cfg bad @ later) (receiver_pin_phase C cfg) () (verdicts C cfg bad) (prompts cfg 1) later"
proof (cases cfg)
  case None
  then show ?thesis by (simp add: receiver_pin_phase_def guesses_def verdicts_def prompts_def runs_return)
next
  case (Some p)
  have "runs ms (receiver_send_pin_result C VerifyPinRequired) ()
      [text_message (ser_pin_receiving C PinReceivingPinRequired)] [] ms" for ms
    by (simp add: receiver_send_pin_result_def runs_send)
  note check = runs_verify_pin [where send_result = "receiver_send_pin_result C" and notice = False and later = later, OF assms(1) this assms(2) [unfolded Some]]
  show ?thesis
    unfolding Some receiver_pin_phase_def option.case
    by (rule runs_bind' [OF check runs_send]) (simp_all add: verdicts_def prompts_def)
qed

lemma runs_sender_proves_pin:
  assumes "codec_ok C" "guessed cfg bad answers"
  shows "runs (verdicts C cfg bad @ later)
     (case token_reply cfg tr of
        TokenPinRequired t \<Rightarrow> handle_pin C False (sender_parse_pin_response C) answers | _ \<Rightarrow> io_return ()) ()
     (guesses C cfg bad) (prompts cfg (Suc (length bad))) later"
proof (cases cfg)
  case None
  then show ?thesis by (simp add: token_reply_def guesses_def verdicts_def prompts_def runs_return)
next
  case (Some p)
  let ?m = "\<lambda>r. text_message (ser_pin_receiving C r)"
  have reply: "runs ([?m r] @ ms) (receive_pin_response False) (ser_pin_receiving C r) [] [] ms" for r ms
    by (auto simp: receive_pin_response_def intro!: runs_bind' [OF runs_recv] runs_return)
  have "runs (concat (replicate (length bad) [?m PinReceivingPinRequired]) @ [?m PinReceivingOk] @ later)
      (handle_pin C False (sender_parse_pin_response C) (map Some (bad @ [pin p]) @ drop (Suc (length bad)) answers)) ()
      (map (pin_message C) (bad @ [pin p])) (replicate (Suc (length bad)) PinRequired) later"
    by (rule runs_handle_pin [OF reply reply]) (use assms(1) in \<open>simp_all add: sender_parse_pin_response_def\<close>)
  with guessedD(4) [OF assms(2) [unfolded Some]] show ?thesis
    by (simp add: Some token_reply_def guesses_def verdicts_def prompts_def)
qed

lemma runs_sender_pin_phase:
  assumes "codec_ok C" "guessed cfg_r bad_r answers" "guessed cfg_s bad_s answers'"
  shows "runs (verdicts C cfg_r bad_r @ guesses C cfg_s bad_s @ later)
     (sender_pin_phase C cfg_s answers (token_reply cfg_r tr)) ()
     (guesses C cfg_r bad_r @ notices C cfg_s bad_s) (prompts cfg_r (Suc (length bad_r)) @ prompts cfg_s 1) later"
proof -
  have "runs (guesses C cfg_s bad_s @ later)
      (case cfg_s of None \<Rightarrow> io_return () | Some p \<Rightarrow> verify_pin C p True (sender_send_pin_result C)) ()
      (notices C cfg_s bad_s) (prompts cfg_s 1) later"
  proof (cases cfg_s)
    case (Some p)
    have "runs ms (sender_send_pin_result C VerifyPinRequired) () (chunked (ser_pin_sending C PinSendingPinRequired)) [] ms" for ms
      by (simp add: sender_send_pin_result_def runs_send_chunked)
    from runs_verify_pin [where send_result = "sender_send_pin_result C" and notice = True and later = later, OF assms(1) this assms(3) [unfolded Some]]
    show ?thesis by (simp add: Some notices_def prompts_def)
  qed (simp add: guesses_def notices_def prompts_def runs_return)
  then show ?thesis
    unfolding sender_pin_phase_def by (rule runs_bind [OF runs_sender_proves_pin [OF assms(1,2)]])
qed

lemma runs_await_file_list:
  assumes "codec_ok C" "guessed cfg bad answers"
  shows "runs (notices C cfg bad @ chunked (ser_pin_sending C (PinSendingOk files)) @ later)
     (await_file_list C answers) files (guesses C cfg bad) (prompts cfg (Suc (length bad))) later"
proof (cases cfg)
  case None
  then show ?thesis
    using assms(1)
    by (auto simp: await_file_list_def notices_def guesses_def prompts_def
        intro!: runs_bind' [OF runs_receive_chunked] runs_return)
next
  case (Some p)
  let ?c = "\<lambda>r. chunked (ser_pin_sending C r)"
  have reply: "runs (?c r @ ms) (receive_pin_response True) (ser_pin_sending C r) [] [] ms" for r ms
    by (simp add: receive_pin_response_def runs_receive_chunked)
  have "runs (concat (replicate (length bad) (?c PinSendingPinRequired)) @ ?c (PinSendingOk files) @ later)
      (handle_pin C True (receiver_parse_pin_response C) (map Some (bad @ [pin p]) @ drop (Suc (length bad)) answers)) files
      (map (pin_message C) (bad @ [pin p])) (replicate (Suc (length bad)) PinRequired) later"
    by (rule runs_handle_pin [OF reply reply]) (use assms(1) in \<open>simp_all add: receiver_parse_pin_response_def\<close>)
  with guessedD(4) [OF assms(2) [unfolded Some]] assms(1) show ?thesis
    by (auto simp: Some await_file_list_def notices_def guesses_def prompts_def
        intro!: runs_bind' [OF runs_receive_chunked])
qed

section \<open>The tasks\<close>

lemma runs_send_file_list:
  "runs ms (send_file_list C files) () (chunked (ser_pin_sending C (PinSendingOk files))) [Connected] ms"
  by (rule runsI [where k = "length (chunked (ser_pin_sending C (PinSendingOk files)))"])
    (simp add: send_file_list_def io_bind_def io_report_def io_simps send_delimiter_eq chunked_def)

lemma runs_await_selection:
  assumes "codec_ok C" "distinct (map fst T)"
  shows "runs (chunked (ser_file_list C (FileListOk T)) @ ms) (await_selection L C token nonce reply) (Some T) [] [] ms"
  using assms
  by (auto simp: await_selection_def receive_file_list_response_def ok_file_list_def
      intro!: runs_bind' [OF runs_bind' [OF runs_receive_chunked]] runs_return)

lemma runs_send_files:
  assumes "list_all (\<lambda>f. map_of T (rf_file_id f) \<noteq> None) fs"
  shows "runs ms (send_files C T fs) () (concat (map (file_wire C T) fs)) [] ms"
  using send_files_ok [OF _ assms] by (intro runsI [where k = "length (concat (map (file_wire C T) fs))"]) simp

lemma runs_finish_sending: "runs (m # ms) finish_sending () [delimiter] [] ms"
  by (rule runsI [where k = 1]) (simp add: finish_sending_def io_bind_def send_delimiter_eq io_simps io_return_def)

lemma runs_answer_file_list:
  assumes "user_choice files = SelectedFiles sel" "T = file_tokens_of new_v4 sel"
  shows "runs ms (answer_file_list C True user_choice new_v4 files) (Some T)
     (chunked (ser_file_list C (FileListOk T))) [Connected] ms"
proof -
  have "runs ms (io_bind (send_string_in_chunks send_chunk b) (\<lambda>_. io_bind send_delimiter (\<lambda>_. io_return x))) x
      (chunked b) [] ms" for b and x :: "(string, string) hash_map option"
    by (rule runsI [where k = "length (chunked b)"])
      (simp add: io_bind_def io_simps send_delimiter_eq chunked_def io_return_def)
  with assms show ?thesis
    by (auto simp: answer_file_list_def Let_def intro!: runs_bind' [OF runs_status])
qed

lemma distinct_file_tokens: "distinct (map fst (file_tokens_of new_v4 sel))"
proof -
  have "map fst (file_tokens_of new_v4 sel) = remdups sel"
    by (simp add: file_tokens_of_def case_prod_unfold o_def)
  then show ?thesis by simp
qed

text \<open>
  What the two peers bring: keys the other side accepts, nonces of a valid length, the tokens
  \<open>ts\<close> and \<open>tr\<close> made for them, listeners that are there, and users who know the PINs in time.
\<close>

definition peers_match ::
  "('sk, 'vk, 'rk) crypto_lib \<Rightarrow> ('sk, 'vk, 'rk) send_config \<Rightarrow> ('sk, 'vk, 'rk) receive_config \<Rightarrow>
     string \<Rightarrow> string \<Rightarrow> string list \<Rightarrow> string list \<Rightarrow> bool" where
  "peers_match L sc rc ts tr bad_s bad_r \<longleftrightarrow>
     sc_opened sc \<and> sc_selection_listener sc \<and> rc_opened rc \<and> rc_files_listener rc \<and>
     accepts_key L (sc_expecting_public_key sc) (rc_signing_key rc) \<and>
     accepts_key L (rc_expecting_public_key rc) (sc_signing_key sc) \<and>
     validate_nonce (generate_nonce (sc_rng sc)) \<and> validate_nonce (generate_nonce (rc_rng rc)) \<and>
     generate_token_nonce L (sc_signing_key sc) (generate_nonce (sc_rng sc) @ generate_nonce (rc_rng rc)) = Ok ts \<and>
     generate_token_nonce L (rc_signing_key rc) (generate_nonce (sc_rng sc) @ generate_nonce (rc_rng rc)) = Ok tr \<and>
     guessed (sc_pin sc) bad_s (rc_pin_answers rc) \<and> guessed (rc_pin rc) bad_r (sc_pin_answers sc)"

lemma peers_match_verify:
  assumes "base64_engine (base64_encode L) (base64_decode L)" "ed25519_correct L"
    and "peers_match L sc rc ts tr bad_s bad_r"
  shows "sc_expecting_public_key sc = Some key \<Longrightarrow>
      verify_token_nonce L key tr (generate_nonce (sc_rng sc) @ generate_nonce (rc_rng rc)) = Ok True"
    and "rc_expecting_public_key rc = Some key \<Longrightarrow>
      verify_token_nonce L key ts (generate_nonce (sc_rng sc) @ generate_nonce (rc_rng rc)) = Ok True"
  using assms(3) own_token_verifies [OF assms(1,2)] by (auto simp: peers_match_def accepts_key_def)

lemma runs_sender_handshake:
  assumes "codec_ok C" "base64_engine (base64_encode L) (base64_decode L)" "ed25519_correct L"
    and "peers_match L sc rc ts tr bad_s bad_r"
  shows "runs ([nonce_message L C (rc_rng rc)] @ [text_message (ser_token_response C (token_reply (rc_pin rc) tr))] @
      verdicts C (rc_pin rc) bad_r @ guesses C (sc_pin sc) bad_s @ later) (sender_handshake L C sc)
     (generate_nonce (sc_rng sc) @ generate_nonce (rc_rng rc), tr)
     ([nonce_message L C (sc_rng sc)] @ [text_message (ser_token_request C ts)] @
      guesses C (rc_pin rc) bad_r @ notices C (sc_pin sc) bad_s)
     (prompts (rc_pin rc) (Suc (length bad_r)) @ prompts (sc_pin sc) 1) later"
proof -
  note m = assms(4) [unfolded peers_match_def]
  have nonces: "runs (nonce_message L C (rc_rng rc) # ms) (sender_nonce_exchange L C (sc_rng sc))
      (generate_nonce (sc_rng sc) @ generate_nonce (rc_rng rc)) [nonce_message L C (sc_rng sc)] [] ms" for ms
    using m by (intro runs_nonce_exchange(1) [OF assms(1,2)]) simp
  have tokens: "runs (text_message (ser_token_response C (token_reply (rc_pin rc) tr)) # ms)
      (sender_token_exchange L C (sc_signing_key sc) (sc_expecting_public_key sc)
         (generate_nonce (sc_rng sc) @ generate_nonce (rc_rng rc)))
      (tr, token_reply (rc_pin rc) tr) [text_message (ser_token_request C ts)] [] ms" for ms
    using m peers_match_verify(1) [OF assms(2-4)] by (intro runs_sender_token_exchange [OF assms(1)]) simp_all
  have pins: "runs (verdicts C (rc_pin rc) bad_r @ guesses C (sc_pin sc) bad_s @ later)
      (sender_pin_phase C (sc_pin sc) (sc_pin_answers sc) (token_reply (rc_pin rc) tr)) ()
      (guesses C (rc_pin rc) bad_r @ notices C (sc_pin sc) bad_s)
      (prompts (rc_pin rc) (Suc (length bad_r)) @ prompts (sc_pin sc) 1) later"
    using m by (intro runs_sender_pin_phase [OF assms(1), where answers' = "rc_pin_answers rc"]) simp_all
  show ?thesis
    by (auto simp: sender_handshake_def
        intro!: runs_bind' [OF nonces] runs_bind' [OF tokens] runs_bind' [OF pins] runs_return)
qed

lemma runs_receiver_handshake:
  assumes "codec_ok C" "base64_engine (base64_encode L) (base64_decode L)" "ed25519_correct L"
    and "peers_match L sc rc ts tr bad_s bad_r"
  shows "runs ([nonce_message L C (sc_rng sc)] @ [text_message (ser_token_request C ts)] @
      guesses C (rc_pin rc) bad_r @ later) (receiver_handshake L C rc) ()
     ([nonce_message L C (rc_rng rc)] @ [text_message (ser_token_response C (token_reply (rc_pin rc) tr))] @
      verdicts C (rc_pin rc) bad_r) (prompts (rc_pin rc) 1) later"
proof -
  note m = assms(4) [unfolded peers_match_def]
  have nonces: "runs (nonce_message L C (sc_rng sc) # ms) (receiver_nonce_exchange L C (rc_rng rc))
      (generate_nonce (sc_rng sc) @ generate_nonce (rc_rng rc)) [nonce_message L C (rc_rng rc)] [] ms" for ms
    using m by (intro runs_nonce_exchange(2) [OF assms(1,2)]) simp
  have tokens: "runs (text_message (ser_token_request C ts) # ms)
      (receiver_token_exchange L C (rc_signing_key rc) (rc_expecting_public_key rc) (rc_pin rc)
         (generate_nonce (sc_rng sc) @ generate_nonce (rc_rng rc)))
      ts [text_message (ser_token_response C (token_reply (rc_pin rc) tr))] [] ms" for ms
    using m peers_match_verify(2) [OF assms(2-4)] by (intro runs_receiver_token_exchange [OF assms(1)]) simp_all
  have pins: "runs (guesses C (rc_pin rc) bad_r @ later) (receiver_pin_phase C (rc_pin rc)) ()
      (verdicts C (rc_pin rc) bad_r) (prompts (rc_pin rc) 1) later"
    using m by (intro runs_receiver_pin_phase [OF assms(1), where answers = "sc_pin_answers sc"]) simp
  show ?thesis
    using pins by (auto simp: receiver_handshake_def intro!: runs_bind' [OF nonces] runs_bind' [OF tokens])
qed

lemma runs_send_task:
  assumes "codec_ok C" "base64_engine (base64_encode L) (base64_decode L)" "ed25519_correct L"
    and "peers_match L sc rc ts tr bad_s bad_r" "distinct (map fst T)"
    and "list_all (\<lambda>f. map_of T (rf_file_id f) \<noteq> None) (sc_sending sc)" "sc_sending sc \<noteq> []"
  shows "runs (receiver_transcript L C sc rc tr bad_s bad_r T) (send_task L C sc) ()
     (sender_transcript L C sc rc ts bad_s bad_r T)
     (prompts (rc_pin rc) (Suc (length bad_r)) @ prompts (sc_pin sc) 1 @ [Connected])
     (map (success_response C \<circ> rf_file_id) (tl (sc_sending sc)))"
proof -
  obtain f fs where fs: "sc_sending sc = f # fs" using assms(7) by (cases "sc_sending sc") auto
  let ?replies = "map (success_response C \<circ> rf_file_id)"
  note handshake = runs_sender_handshake [OF assms(1-4), where
      later = "chunked (ser_file_list C (FileListOk T)) @ ?replies (sc_sending sc)"]
  have rest: "runs (chunked (ser_file_list C (FileListOk T)) @ ?replies (sc_sending sc))
      (io_bind (send_file_list C (sc_files sc)) (\<lambda>_.
       io_bind (await_selection L C tr nonce (sc_pair_reply sc)) (\<lambda>selection.
       case selection of
         None \<Rightarrow> io_return ()
       | Some file_map \<Rightarrow>
           io_bind (publish_selection (sc_selection_listener sc)) (\<lambda>_.
           io_bind (send_files C file_map (sc_sending sc)) (\<lambda>_. finish_sending)))))
      () (chunked (ser_pin_sending C (PinSendingOk (sc_files sc))) @ concat (map (file_wire C T) (sc_sending sc)) @ [delimiter])
      [Connected] (?replies (tl (sc_sending sc)))" for nonce
    using assms(4,6)
    by (auto simp: publish_selection_def peers_match_def fs simp del: send_files.simps
        intro!: runs_bind' [OF runs_send_file_list] runs_bind' [OF runs_await_selection [OF assms(1,5)]]
          runs_bind' [OF runs_return] runs_bind' [OF runs_send_files] runs_finish_sending)
  have "sc_opened sc" using assms(4) by (simp add: peers_match_def)
  then show ?thesis
    by (auto simp: send_task_def receiver_transcript_def sender_transcript_def
        intro!: runs_bind' [OF handshake [simplified]] rest [simplified])
qed

lemma receive_task_run:
  assumes "codec_ok C" "base64_engine (base64_encode L) (base64_decode L)" "ed25519_correct L"
    and "peers_match L sc rc ts tr bad_s bad_r"
    and "rc_choose rc (sc_files sc) = SelectedFiles sel" "T = file_tokens_of (rc_new_v4 rc) sel"
    and "list_all (transferable T (sc_files sc)) (sc_sending sc)" "sc_sending sc \<noteq> []"
    and "fault_free w" "length (sc_sending sc) \<le> length (file_results w)" "list_all fr_success (file_results w)"
    and "inbox w = sender_transcript L C sc rc ts bad_s bad_r T"
  shows "\<exists>w'. receive_task L C rc w = (Ok (), w') \<and>
     outbox w' = outbox w @ receiver_transcript L C sc rc tr bad_s bad_r T \<and> inbox w' = [] \<and>
     received w' = received w @ map stored_file (sc_sending sc) \<and>
     statuses w' = statuses w @ prompts (rc_pin rc) 1 @ prompts (sc_pin sc) (Suc (length bad_s)) @ [Connected]"
proof -
  note m = assms(4) [unfolded peers_match_def]
  let ?files = "concat (map (file_wire C T) (sc_sending sc)) @ [delimiter]"
  let ?list = "notices C (sc_pin sc) bad_s @ chunked (ser_pin_sending C (PinSendingOk (sc_files sc))) @ ?files"
  note handshake = runs_receiver_handshake [OF assms(1-4), where later = ?list]
  have list: "runs ?list (await_file_list C (rc_pin_answers rc)) (sc_files sc)
      (guesses C (sc_pin sc) bad_s) (prompts (sc_pin sc) (Suc (length bad_s))) ?files"
    using m by (intro runs_await_file_list [OF assms(1)]) simp
  have answer: "runs ?files (answer_file_list C (rc_files_listener rc) (rc_choose rc) (rc_new_v4 rc) (sc_files sc)) (Some T)
      (chunked (ser_file_list C (FileListOk T))) [Connected] ?files"
    using m runs_answer_file_list [where user_choice = "rc_choose rc", OF assms(5,6)] by simp
  define prologue where "prologue =
      io_bind (receiver_handshake L C rc) (\<lambda>_.
      io_bind (await_file_list C (rc_pin_answers rc)) (\<lambda>file_list.
      io_bind (answer_file_list C (rc_files_listener rc) (rc_choose rc) (rc_new_v4 rc) file_list) (\<lambda>selection.
      io_return (selection, file_list))))"
  have task: "receive_task L C rc = io_bind prologue (\<lambda>(selection, file_list).
      case selection of None \<Rightarrow> io_return () | Some file_tokens \<Rightarrow> receive_loop C file_tokens file_list)"
    using m by (auto simp: receive_task_def prologue_def io_bind_def io_return_def fun_eq_iff split: prod.splits res.splits)
  have "runs (inbox w) prologue (Some T, sc_files sc)
      ([nonce_message L C (rc_rng rc)] @ [text_message (ser_token_response C (token_reply (rc_pin rc) tr))] @
       verdicts C (rc_pin rc) bad_r @ guesses C (sc_pin sc) bad_s @ chunked (ser_file_list C (FileListOk T)))
      (prompts (rc_pin rc) 1 @ prompts (sc_pin sc) (Suc (length bad_s)) @ [Connected]) ?files"
    unfolding assms(12) sender_transcript_def prologue_def
    by (auto intro!: runs_bind' [OF handshake [simplified]] runs_bind' [OF list] runs_bind' [OF answer] runs_return)
  from runs_world [OF this assms(9)] obtain k where "prologue w = (Ok (Some T, sc_files sc),
      w\<lparr> inbox := ?files, outbox := outbox w @ [nonce_message L C (rc_rng rc)] @
         [text_message (ser_token_response C (token_reply (rc_pin rc) tr))] @
         verdicts C (rc_pin rc) bad_r @ guesses C (sc_pin sc) bad_s @ chunked (ser_file_list C (FileListOk T)),
         dc_sends := dc_sends w + k,
         statuses := statuses w @ prompts (rc_pin rc) 1 @ prompts (sc_pin sc) (Suc (length bad_s)) @ [Connected] \<rparr>)"
    by blast
  then show ?thesis
    using assms(9-11)
    by (simp add: task io_bind_def receive_loop_files [OF assms(1,7,8), where later = "[]"] receiver_transcript_def)
qed

section \<open>Properties\<close>

text \<open>
  C3: a complete transfer between two peers that expect each other's keys (or none), with a PIN on
  either side, on both or on none, and up to the permitted number of wrong guesses: both tasks
  succeed, each writes exactly what the other reads, and the receiver stores the bytes of the files
  the sender was given, in order. Each task reports one prompt per PIN it has to enter and one for
  its own challenge, then \<open>Connected\<close>. The sender stops after the answer to the first file;
  the other answers are left unread.
\<close>

theorem transfer_end_to_end:
  assumes "codec_ok C" "base64_engine (base64_encode L) (base64_decode L)" "ed25519_correct L"
    and "peers_match L sc rc ts tr bad_s bad_r"
    and "rc_choose rc (sc_files sc) = SelectedFiles sel" "T = file_tokens_of (rc_new_v4 rc) sel"
    and "list_all (transferable T (sc_files sc)) (sc_sending sc)" "sc_sending sc \<noteq> []"
    and "fault_free ws" "outbox ws = []" "statuses ws = []"
    and "fault_free wr" "outbox wr = []" "statuses wr = []" "received wr = []"
    and "length (sc_sending sc) \<le> length (file_results wr)" "list_all fr_success (file_results wr)"
    and "inbox ws = receiver_transcript L C sc rc tr bad_s bad_r T"
    and "inbox wr = sender_transcript L C sc rc ts bad_s bad_r T"
  shows "\<exists>ws' wr'. send_task L C sc ws = (Ok (), ws') \<and> receive_task L C rc wr = (Ok (), wr') \<and>
     outbox ws' = inbox wr \<and> outbox wr' = inbox ws \<and>
     map (\<lambda>(i, cs). (i, concat cs)) (received wr') =
       map (\<lambda>f. (rf_file_id f, concat (rf_binary f))) (sc_sending sc) \<and>
     statuses ws' = prompts (rc_pin rc) (Suc (length bad_r)) @ prompts (sc_pin sc) 1 @ [Connected] \<and>
     statuses wr' = prompts (rc_pin rc) 1 @ prompts (sc_pin sc) (Suc (length bad_s)) @ [Connected] \<and>
     inbox wr' = [] \<and> length (inbox ws') = length (sc_sending sc) - 1"
proof -
  have tok: "list_all (\<lambda>f. map_of T (rf_file_id f) \<noteq> None) (sc_sending sc)"
    using assms(7) by (auto simp: list_all_iff transferable_def)
  have tokens: "distinct (map fst T)" unfolding assms(6) by (rule distinct_file_tokens)
  have stored: "map (\<lambda>(i, cs). (i, concat cs)) (map stored_file fs) =
      map (\<lambda>f. (rf_file_id f, concat (rf_binary f))) fs" for fs
    by (induction fs) (simp_all add: stored_file_def concat_chunks_of)
  obtain k where "send_task L C sc ws = (Ok (), ws\<lparr> inbox := map (success_response C \<circ> rf_file_id) (tl (sc_sending sc)),
      outbox := outbox ws @ sender_transcript L C sc rc ts bad_s bad_r T, dc_sends := dc_sends ws + k,
      statuses := statuses ws @ prompts (rc_pin rc) (Suc (length bad_r)) @ prompts (sc_pin sc) 1 @ [Connected] \<rparr>)"
    using runs_world [OF runs_send_task [OF assms(1-4) tokens tok assms(8), folded assms(18)] assms(9)] by blast
  with receive_task_run [OF assms(1-8,12,16,17,19)] stored [of "sc_sending sc"] assms(10,11,13-15,18,19)
  show ?thesis by (auto simp del: map_map)
qed

text \<open>The PINs of the demonstration in \<open>core/src/main.rs\<close>: each side gets the other's right at the third try.\<close>

definition pin_sender :: "(bytes, bytes, bytes) send_config" where
  "pin_sender = demo_sender\<lparr> sc_pin := Some \<lparr> pin = ''456'', max_tries = 3 \<rparr>,
     sc_pin_answers := [Some ''1'', Some ''2'', Some ''123''] \<rparr>"

definition pin_receiver :: "(bytes, bytes, bytes) receive_config" where
  "pin_receiver = demo_receiver\<lparr> rc_pin := Some \<lparr> pin = ''123'', max_tries = 3 \<rparr>,
     rc_pin_answers := [Some ''1'', Some ''2'', Some ''456''] \<rparr>"

lemma demo_tokens:
  "generate_token_nonce demo_crypto (sc_signing_key demo_sender)
     (generate_nonce (sc_rng demo_sender) @ generate_nonce (rc_rng demo_receiver)) = Ok demo_sender_token"
  "generate_token_nonce demo_crypto (rc_signing_key demo_receiver)
     (generate_nonce (sc_rng demo_sender) @ generate_nonce (rc_rng demo_receiver)) = Ok demo_receiver_token"
  by (simp_all add: demo_generate demo_sender_token_def demo_receiver_token_def demo_token_def
      demo_sender_def demo_receiver_def generate_nonce_def demo_rng_def Let_def)

lemmas demo_peers = fresh_world_def demo_sender_def demo_receiver_def demo_result_def demo_file_def accepts_key_def
  to_verifying_key_def validate_nonce_def generate_nonce_def demo_rng_def transferable_def file_tokens_of_def

lemma demo_peers_match:
  "peers_match demo_crypto demo_sender demo_receiver demo_sender_token demo_receiver_token [] []"
  "peers_match demo_crypto pin_sender pin_receiver demo_sender_token demo_receiver_token [''1'', ''2''] [''1'', ''2'']"
  using demo_tokens
  by (simp_all add: peers_match_def pin_sender_def pin_receiver_def guessed_def demo_peers demo_crypto_def)

theorem transfer_end_to_end_witness:
  "\<exists>ws wr ws' wr'. send_task demo_crypto plain_codec pin_sender ws = (Ok (), ws') \<and>
     receive_task demo_crypto plain_codec pin_receiver wr = (Ok (), wr') \<and>
     outbox ws' = inbox wr \<and> outbox wr' = inbox ws \<and>
     map (\<lambda>(i, cs). (i, concat cs)) (received wr') = [(''a'', [1, 2, 3])] \<and>
     statuses ws' = [PinRequired, PinRequired, PinRequired, PinRequired, Connected]"
proof -
  let ?T = "file_tokens_of (rc_new_v4 pin_receiver) [''a'']"
  let ?bad = "[''1'', ''2'']"
  let ?ws = "fresh_world (receiver_transcript demo_crypto plain_codec pin_sender pin_receiver demo_receiver_token ?bad ?bad ?T) []"
  let ?wr = "fresh_world (sender_transcript demo_crypto plain_codec pin_sender pin_receiver demo_sender_token ?bad ?bad ?T) [demo_result]"
  have "\<exists>ws' wr'. send_task demo_crypto plain_codec pin_sender ?ws = (Ok (), ws') \<and>
     receive_task demo_crypto plain_codec pin_receiver ?wr = (Ok (), wr') \<and>
     outbox ws' = inbox ?wr \<and> outbox wr' = inbox ?ws \<and>
     map (\<lambda>(i, cs). (i, concat cs)) (received wr') =
       map (\<lambda>f. (rf_file_id f, concat (rf_binary f))) (sc_sending pin_sender) \<and>
     statuses ws' = prompts (rc_pin pin_receiver) (Suc (length ?bad)) @ prompts (sc_pin pin_sender) 1 @ [Connected] \<and>
     statuses wr' = prompts (rc_pin pin_receiver) 1 @ prompts (sc_pin pin_sender) (Suc (length ?bad)) @ [Connected] \<and>
     inbox wr' = [] \<and> length (inbox ws') = length (sc_sending pin_sender) - 1"
    by (rule transfer_end_to_end [OF codec_ok_plain demo_base64 demo_ed25519 demo_peers_match(2) _ _ _ _
          fault_free_fresh _ _ fault_free_fresh, where sel = "[''a'']" and T = ?T])
      (simp_all add: demo_peers pin_sender_def pin_receiver_def)
  then obtain ws' wr' where r: "send_task demo_crypto plain_codec pin_sender ?ws = (Ok (), ws')"
    "receive_task demo_crypto plain_codec pin_receiver ?wr = (Ok (), wr')"
    "outbox ws' = inbox ?wr" "outbox wr' = inbox ?ws"
    "map (\<lambda>(i, cs). (i, concat cs)) (received wr') =
       map (\<lambda>f. (rf_file_id f, concat (rf_binary f))) (sc_sending pin_sender)"
    "statuses ws' = prompts (rc_pin pin_receiver) (Suc (length ?bad)) @ prompts (sc_pin pin_sender) 1 @ [Connected]" by blast
  have "map (\<lambda>(i, cs). (i, concat cs)) (received wr') = [(''a'', [1, 2, 3])]"
    using r(5) by (simp add: pin_sender_def demo_sender_def)
  moreover have "statuses ws' = [PinRequired, PinRequired, PinRequired, PinRequired, Connected]"
    using r(6) by (simp add: pin_sender_def pin_receiver_def prompts_def)
  ultimately show ?thesis
    using r(1-4) by (intro exI [of _ ?ws] exI [of _ ?wr] exI [of _ ws'] exI [of _ wr'] conjI)
qed

text \<open>
  C7: the sending task reports \<open>Connected\<close>, which it does before it names a single file, only
  when the peer has proved the expected key over both nonces and, if the sender set a PIN, has sent
  that PIN.
\<close>

theorem sender_connects_only_to_identified_peer:
  assumes "Connected \<notin> set (statuses w)" "Connected \<in> set (statuses (snd (send_task L C cfg w)))"
  shows "(case sc_expecting_public_key cfg of None \<Rightarrow> True
          | Some key \<Rightarrow> receiver_identified L C key (generate_nonce (sc_rng cfg)) (inbox w)) \<and>
     (case sc_pin cfg of None \<Rightarrow> True | Some p \<Rightarrow> pin_received C p (inbox w))"
proof -
  obtain x w1 where "sender_handshake L C cfg w = (Ok x, w1)"
  proof (cases "sc_opened cfg")
    case True
    then show ?thesis
      using that assms(2) connected_past [OF nch.moves_handshake(1) assms(1)]
      by (metis (no_types, lifting) send_task_def)
  qed (use assms in \<open>simp add: send_task_def io_fail_def\<close>)
  from sender_handshake_Ok [OF this] show ?thesis by (auto split: option.splits)
qed

theorem sender_connects_only_to_identified_peer_witness:
  "\<exists>w. Connected \<in> set (statuses (snd (send_task demo_crypto plain_codec demo_sender w))) \<and>
     receiver_identified demo_crypto plain_codec (Ed25519VerifyingKey [2]) (replicate 32 7) (inbox w)"
proof -
  let ?T = "file_tokens_of (rc_new_v4 demo_receiver) [''a'']"
  let ?w = "fresh_world (receiver_transcript demo_crypto plain_codec demo_sender demo_receiver demo_receiver_token [] [] ?T) []"
  have run: "runs (receiver_transcript demo_crypto plain_codec demo_sender demo_receiver demo_receiver_token [] [] ?T)
      (send_task demo_crypto plain_codec demo_sender) ()
      (sender_transcript demo_crypto plain_codec demo_sender demo_receiver demo_sender_token [] [] ?T)
      (prompts (rc_pin demo_receiver) (Suc (length ([] :: string list))) @ prompts (sc_pin demo_sender) 1 @ [Connected])
      (map (success_response plain_codec \<circ> rf_file_id) (tl (sc_sending demo_sender)))"
    by (rule runs_send_task [OF codec_ok_plain demo_base64 demo_ed25519 demo_peers_match(1)]) (simp_all add: demo_peers)
  have "Connected \<in> set (statuses (snd (send_task demo_crypto plain_codec demo_sender ?w)))"
    using runs_outcome(3) [OF run, of ?w] by (simp add: fresh_world_def fault_free_def)
  with sender_connects_only_to_identified_peer [of ?w demo_crypto plain_codec demo_sender] show ?thesis
    by (intro exI [of _ ?w]) (simp add: demo_sender_def generate_nonce_def demo_rng_def fresh_world_def)
qed

text \<open>
  C6: the receiving task reports \<open>Connected\<close>, before it shows a file or stores a byte, only
  when the peer has proved the expected key over both nonces and, if the receiver set a PIN, has
  sent that PIN.
\<close>

theorem receiver_connects_only_to_identified_peer:
  assumes "Connected \<notin> set (statuses w)" "Connected \<in> set (statuses (snd (receive_task L C cfg w)))"
  shows "(case rc_expecting_public_key cfg of None \<Rightarrow> True
          | Some key \<Rightarrow> sender_identified L C key (generate_nonce (rc_rng cfg)) (inbox w)) \<and>
     (case rc_pin cfg of None \<Rightarrow> True | Some p \<Rightarrow> pin_received C p (inbox w))"
proof -
  obtain x w1 where "receiver_handshake L C cfg w = (Ok x, w1)"
  proof (cases "rc_opened cfg")
    case True
    then show ?thesis
      using that assms(2) connected_past [OF nch.moves_handshake(2) assms(1)]
      by (metis (no_types, lifting) receive_task_def)
  qed (use assms in \<open>simp add: receive_task_def io_fail_def\<close>)
  from receiver_handshake_Ok [OF this] show ?thesis by (auto split: option.splits)
qed

theorem receiver_connects_only_to_identified_peer_witness:
  "\<exists>w. Connected \<in> set (statuses (snd (receive_task demo_crypto plain_codec demo_receiver w))) \<and>
     sender_identified demo_crypto plain_codec (Ed25519VerifyingKey [1]) (replicate 32 8) (inbox w)"
proof -
  let ?T = "file_tokens_of (rc_new_v4 demo_receiver) [''a'']"
  let ?w = "fresh_world (sender_transcript demo_crypto plain_codec demo_sender demo_receiver demo_sender_token [] [] ?T) [demo_result]"
  have "\<exists>w'. receive_task demo_crypto plain_codec demo_receiver ?w = (Ok (), w') \<and>
     outbox w' = outbox ?w @ receiver_transcript demo_crypto plain_codec demo_sender demo_receiver demo_receiver_token [] [] ?T \<and>
     inbox w' = [] \<and> received w' = received ?w @ map stored_file (sc_sending demo_sender) \<and>
     statuses w' = statuses ?w @ prompts (rc_pin demo_receiver) 1 @ prompts (sc_pin demo_sender) (Suc (length ([] :: string list))) @ [Connected]"
    by (rule receive_task_run [OF codec_ok_plain demo_base64 demo_ed25519 demo_peers_match(1), where sel = "[''a'']"])
      (simp_all add: demo_peers fault_free_def)
  then have "Connected \<in> set (statuses (snd (receive_task demo_crypto plain_codec demo_receiver ?w)))" by auto
  with receiver_connects_only_to_identified_peer [of ?w demo_crypto plain_codec demo_receiver] show ?thesis
    by (intro exI [of _ ?w]) (simp add: demo_receiver_def generate_nonce_def demo_rng_def fresh_world_def)
qed

end
