(* ===== verification/Rfc8259.thy ===== *)
theory Rfc8259
  imports Ip_Groups
begin

text \<open>
  The interface the sources expect of the JSON engine \<open>serde_json\<close>, as the locale
  \<open>json_text\<close>, and a reference printer and parser written from RFC 8259 that satisfies it.
  Numbers with a fraction or an exponent keep their literal: no message of the program has one, but
  a peer may send one in a field that is skipped. Objects keep the order and the duplicates of
  their members; what a duplicate means is decided by the reader of the object.

  The printer writes the compact form of \<open>serde_json::to_string\<close>: no blanks, the short escapes
  where they exist, other control characters as four hexadecimal digits.
\<close>

datatype json =
    JNull
  | JBool bool
  | JInt int
  | JReal string
  | JString string
  | JArray "json list"
  | JObject "(string \<times> json) list"

section \<open>Printing\<close>

abbreviation quote :: char where "quote \<equiv> CHR 0x22"
abbreviation backslash :: char where "backslash \<equiv> CHR 0x5C"

definition short_escapes :: "(char \<times> char) list" where
  "short_escapes =
     [(quote, quote), (backslash, backslash), (CHR 0x08, CHR ''b''), (CHR 0x09, CHR ''t''),
      (CHR 0x0A, CHR ''n''), (CHR 0x0C, CHR ''f''), (CHR 0x0D, CHR ''r'')]"

definition escape_char :: "char \<Rightarrow> string" where
  "escape_char c =
     (let n = of_char c :: nat in
      case map_of short_escapes c of
        Some e \<Rightarrow> [backslash, e]
      | None \<Rightarrow> if n < 32 then [backslash, CHR ''u'', digit 0, digit 0, digit (n div 16), digit (n mod 16)]
                else [c])"

definition print_string :: "string \<Rightarrow> string" where
  "print_string s = quote # concat (map escape_char s) @ [quote]"

definition print_int :: "int \<Rightarrow> string" where
  "print_int i =
     (if i < 0 then CHR ''-'' # format_radix 10 (nat (- i)) else format_radix 10 (nat i))"

fun print_json :: "json \<Rightarrow> string" where
  "print_json JNull = ''null''"
| "print_json (JBool b) = (if b then ''true'' else ''false'')"
| "print_json (JInt i) = print_int i"
| "print_json (JReal s) = s"
| "print_json (JString s) = print_string s"
| "print_json (JArray js) = CHR ''['' # join_with CHR '','' (map print_json js) @ '']''"
| "print_json (JObject m) =
     CHR ''{'' # join_with CHR '','' (map (\<lambda>(k, j). print_string k @ CHR '':'' # print_json j) m) @ ''}''"

text \<open>The strings a value contains, keys included, and its literals that are not integers.\<close>

fun json_strings :: "json \<Rightarrow> string list" where
  "json_strings (JString s) = [s]"
| "json_strings (JArray js) = concat (map json_strings js)"
| "json_strings (JObject m) = concat (map (\<lambda>(k, j). k # json_strings j) m)"
| "json_strings _ = []"

fun json_reals :: "json \<Rightarrow> string list" where
  "json_reals (JReal s) = [s]"
| "json_reals (JArray js) = concat (map json_reals js)"
| "json_reals (JObject m) = concat (map (\<lambda>(k, j). json_reals j) m)"
| "json_reals _ = []"

definition utf8_string :: "string \<Rightarrow> bool" where
  "utf8_string s \<longleftrightarrow> utf8_valid (map of_char s)"

section \<open>The interface\<close>

text \<open>
  A value without reals is read back from its text, an object is longer than the braces around
  it require at least, and the text of valid strings is valid UTF-8.
\<close>

locale json_text =
  fixes to_text :: "json \<Rightarrow> string"
    and of_text :: "string \<Rightarrow> json option"
  assumes of_text_to_text: "json_reals j = [] \<Longrightarrow> of_text (to_text j) = Some j"
    and object_text: "2 \<le> length (to_text (JObject m))"
    and utf8_text: "json_reals j = [] \<Longrightarrow> list_all utf8_string (json_strings j) \<Longrightarrow> utf8_string (to_text j)"
begin

lemma to_text_inject: "json_reals i = [] \<Longrightarrow> json_reals j = [] \<Longrightarrow> to_text i = to_text j \<longleftrightarrow> i = j"
  by (metis of_text_to_text option.inject)

end

section \<open>Parsing\<close>

definition is_blank :: "char \<Rightarrow> bool" where
  "is_blank c \<longleftrightarrow> c \<in> {CHR '' '', CHR 0x09, CHR 0x0A, CHR 0x0D}"

abbreviation skip_blanks :: "string \<Rightarrow> string" where
  "skip_blanks \<equiv> dropWhile is_blank"

text \<open>The UTF-8 form of a code point.\<close>

definition utf8_of :: "nat \<Rightarrow> string" where
  "utf8_of n =
     (if n < 128 then [char_of n]
      else if n < 2048 then [char_of (192 + n div 64), char_of (128 + n mod 64)]
      else if n < 65536 then
        [char_of (224 + n div 4096), char_of (128 + n div 64 mod 64), char_of (128 + n mod 64)]
      else [char_of (240 + n div 262144), char_of (128 + n div 4096 mod 64),
            char_of (128 + n div 64 mod 64), char_of (128 + n mod 64)])"

fun read_hex4 :: "string \<Rightarrow> (nat \<times> string) option" where
  "read_hex4 (a # b # c # d # r) =
     (case (to_digit 16 a, to_digit 16 b, to_digit 16 c, to_digit 16 d) of
        (Some w, Some x, Some y, Some z) \<Rightarrow> Some (((w * 16 + x) * 16 + y) * 16 + z, r)
      | _ \<Rightarrow> None)"
| "read_hex4 _ = None"

definition long_escapes :: "(char \<times> char) list" where
  "long_escapes = (CHR ''/'', CHR ''/'') # map (\<lambda>(c, e). (e, c)) short_escapes"

text \<open>What follows a backslash; a high surrogate needs a low one after it.\<close>

definition read_escape :: "string \<Rightarrow> (string \<times> string) option" where
  "read_escape cs =
     (case cs of
        [] \<Rightarrow> None
      | c # r \<Rightarrow>
          if c = CHR ''u'' then
            (case read_hex4 r of
               None \<Rightarrow> None
             | Some (n, r') \<Rightarrow>
                 if 55296 \<le> n \<and> n < 56320 then
                   (if take 2 r' = [backslash, CHR ''u''] then
                      (case read_hex4 (drop 2 r') of
                         Some (l, r'') \<Rightarrow>
                           if 56320 \<le> l \<and> l < 57344
                           then Some (utf8_of (65536 + (n - 55296) * 1024 + (l - 56320)), r'') else None
                       | None \<Rightarrow> None)
                    else None)
                 else if 56320 \<le> n \<and> n < 57344 then None
                 else Some (utf8_of n, r'))
          else map_option (\<lambda>x. ([x], r)) (map_of long_escapes c))"

lemma read_hex4_shorter: "read_hex4 cs = Some (n, r) \<Longrightarrow> length r < length cs"
  by (cases cs rule: read_hex4.cases) (auto split: option.splits)

lemma read_escape_shorter: "read_escape cs = Some (s, r) \<Longrightarrow> length r < length cs"
  by (auto simp: read_escape_def split: list.splits option.splits if_splits
      dest!: read_hex4_shorter)

function read_string :: "string \<Rightarrow> (string \<times> string) option" where
  "read_string cs =
     (case cs of
        [] \<Rightarrow> None
      | c # r \<Rightarrow>
          if c = quote then Some ([], r)
          else if c = backslash then
            (case read_escape r of
               None \<Rightarrow> None
             | Some (s, r') \<Rightarrow> map_option (\<lambda>(t, r''). (s @ t, r'')) (read_string r'))
          else if (of_char c :: nat) < 32 then None
          else map_option (\<lambda>(t, r''). (c # t, r'')) (read_string r))"
  by pat_completeness auto
termination
  by (relation "measure length") (auto dest: read_escape_shorter)

declare read_string.simps [simp del]

text \<open>A number; a literal that is not an integer, negative zero included, stays a literal.\<close>

definition read_fraction :: "string \<Rightarrow> (string \<times> string) option" where
  "read_fraction cs =
     (case cs of
        c # r \<Rightarrow>
          if c = CHR ''.'' then
            (let (ds, r') = read_digits 10 r in
             if ds = [] then None else Some (c # map digit ds, r'))
          else Some ([], cs)
      | [] \<Rightarrow> Some ([], cs))"

definition read_exponent :: "string \<Rightarrow> (string \<times> string) option" where
  "read_exponent cs =
     (case cs of
        c # r \<Rightarrow>
          if c \<in> {CHR ''e'', CHR ''E''} then
            (let sign = takeWhile (\<lambda>c. c \<in> {CHR ''+'', CHR ''-''}) (take 1 r);
                 (ds, r') = read_digits 10 (drop (length sign) r) in
             if ds = [] then None else Some (c # sign @ map digit ds, r'))
          else Some ([], cs)
      | [] \<Rightarrow> Some ([], cs))"

definition read_minus :: "string \<Rightarrow> bool \<times> string" where
  "read_minus cs =
     (case cs of [] \<Rightarrow> (False, []) | c # r \<Rightarrow> if c = CHR ''-'' then (True, r) else (False, cs))"

definition read_json_number :: "string \<Rightarrow> (json \<times> string) option" where
  "read_json_number cs =
     (let (negative, body) = read_minus cs; (ds, r) = read_digits 10 body;
          n = foldl (\<lambda>a d. a * 10 + d) 0 ds in
      if ds = [] \<or> (hd ds = 0 \<and> tl ds \<noteq> []) then None
      else Option.bind (read_fraction r) (\<lambda>(fraction, r1).
           Option.bind (read_exponent r1) (\<lambda>(exponent, r2).
             Some (if fraction = [] \<and> exponent = [] \<and> \<not> (negative \<and> n = 0)
                   then JInt (if negative then - int n else int n)
                   else JReal ((if negative then ''-'' else []) @ map digit ds @ fraction @ exponent), r2))))"

definition read_word :: "string \<Rightarrow> json \<Rightarrow> string \<Rightarrow> (json \<times> string) option" where
  "read_word w j cs = (if take (length w) cs = w then Some (j, drop (length w) cs) else None)"

text \<open>A value, the elements of an array and the members of an object, with fuel.\<close>

fun parse_value :: "nat \<Rightarrow> string \<Rightarrow> (json \<times> string) option"
  and parse_items :: "nat \<Rightarrow> string \<Rightarrow> (json list \<times> string) option"
  and parse_members :: "nat \<Rightarrow> string \<Rightarrow> ((string \<times> json) list \<times> string) option" where
  "parse_value 0 cs = None"
| "parse_value (Suc n) cs =
     (case skip_blanks cs of
        [] \<Rightarrow> None
      | c # r \<Rightarrow>
          if c = quote then map_option (\<lambda>(s, r'). (JString s, r')) (read_string r)
          else if c = CHR ''['' then
            (if take 1 (skip_blanks r) = '']'' then Some (JArray [], drop 1 (skip_blanks r))
             else map_option (\<lambda>(js, r'). (JArray js, r')) (parse_items n r))
          else if c = CHR ''{'' then
            (if take 1 (skip_blanks r) = ''}'' then Some (JObject [], drop 1 (skip_blanks r))
             else map_option (\<lambda>(m, r'). (JObject m, r')) (parse_members n r))
          else if c = CHR ''n'' then read_word ''null'' JNull (c # r)
          else if c = CHR ''t'' then read_word ''true'' (JBool True) (c # r)
          else if c = CHR ''f'' then read_word ''false'' (JBool False) (c # r)
          else read_json_number (c # r))"
| "parse_items 0 cs = None"
| "parse_items (Suc n) cs =
     Option.bind (parse_value n cs) (\<lambda>(j, r).
       case skip_blanks r of
         [] \<Rightarrow> None
       | c # r' \<Rightarrow>
           if c = CHR '','' then map_option (\<lambda>(js, r''). (j # js, r'')) (parse_items n r')
           else if c = CHR '']'' then Some ([j], r') else None)"
| "parse_members 0 cs = None"
| "parse_members (Suc n) cs =
     (if take 1 (skip_blanks cs) \<noteq> [quote] then None
      else Option.bind (read_string (drop 1 (skip_blanks cs))) (\<lambda>(k, r).
        if take 1 (skip_blanks r) \<noteq> '':'' then None
        else Option.bind (parse_value n (drop 1 (skip_blanks r))) (\<lambda>(j, r1).
          case skip_blanks r1 of
            [] \<Rightarrow> None
          | c # r' \<Rightarrow>
              if c = CHR '','' then map_option (\<lambda>(m, r''). ((k, j) # m, r'')) (parse_members n r')
              else if c = CHR ''}'' then Some ([(k, j)], r') else None)))"

definition parse_json :: "string \<Rightarrow> json option" where
  "parse_json cs =
     (case parse_value (length cs) cs of
        Some (j, r) \<Rightarrow> if skip_blanks r = [] then Some j else None
      | None \<Rightarrow> None)"

section \<open>Numbers are read back\<close>

definition no_digit :: "string \<Rightarrow> bool" where
  "no_digit r = (case r of [] \<Rightarrow> True | c # cs \<Rightarrow> to_digit 10 c = None)"

lemma to_digit_digit: "d < 10 \<Longrightarrow> to_digit 10 (digit d) = Some d"
proof -
  have "\<forall>d < 10. to_digit 10 (digit d) = Some d"
    by (simp add: digit_def to_digit_def digit_val_def numeral_eq_Suc less_Suc_eq Let_def)
  then show "d < 10 \<Longrightarrow> to_digit 10 (digit d) = Some d" by simp
qed

lemma read_digits_map:
  "list_all (\<lambda>d. d < 10) ds \<Longrightarrow> no_digit r \<Longrightarrow> read_digits 10 (map digit ds @ r) = (ds, r)"
proof (induction ds)
  case Nil
  then show ?case by (cases r) (simp_all add: no_digit_def)
qed (simp add: to_digit_digit)

lemma format_radix_digits:
  "\<exists>ds. format_radix 10 n = map digit ds \<and> list_all (\<lambda>d. d < 10) ds \<and> ds \<noteq> [] \<and>
     foldl (\<lambda>a d. a * 10 + d) 0 ds = n \<and> (hd ds = 0 \<longrightarrow> ds = [0])"
proof (induction n rule: less_induct)
  case (less n)
  show ?case
  proof (cases "n < 10")
    case True
    then show ?thesis by (intro exI [of _ "[n]"]) (simp add: format_radix.simps)
  next
    case False
    then obtain ds where "format_radix 10 (n div 10) = map digit ds" "list_all (\<lambda>d. d < 10) ds" "ds \<noteq> []"
      "foldl (\<lambda>a d. a * 10 + d) 0 ds = n div 10" "hd ds = 0 \<longrightarrow> ds = [0]"
      using less.IH [of "n div 10"] by auto
    then show ?thesis
      using False by (subst format_radix.simps) (intro exI [of _ "ds @ [n mod 10]"], auto)
  qed
qed

lemma format_radix_obtain:
  obtains ds where "format_radix 10 n = map digit ds" "list_all (\<lambda>d. d < 10) ds" "ds \<noteq> []"
    "foldl (\<lambda>a d. a * 10 + d) 0 ds = n" "hd ds = 0 \<longrightarrow> ds = [0]"
  using format_radix_digits [of n] by (elim exE conjE) (rule that)

definition no_number :: "string \<Rightarrow> bool" where
  "no_number r =
     (case r of [] \<Rightarrow> True | c # cs \<Rightarrow> to_digit 10 c = None \<and> c \<notin> {CHR ''.'', CHR ''e'', CHR ''E''})"

lemma no_number_simps [simp]:
  "no_number []"
  "no_number (CHR '','' # r)" "no_number (CHR '']'' # r)" "no_number (CHR ''}'' # r)"
  by (simp_all add: no_number_def to_digit_def digit_val_def Let_def)

lemma digit_not_minus: "d < 10 \<Longrightarrow> digit d \<noteq> CHR ''-''"
  using to_digit_digit [of d] by (auto simp: to_digit_def digit_val_def Let_def)

lemma no_number_ends:
  assumes "no_number r"
  shows "no_digit r" "read_fraction r = Some ([], r)" "read_exponent r = Some ([], r)"
proof -
  show "no_digit r" using assms by (simp add: no_number_def no_digit_def split: list.splits)
  show "read_fraction r = Some ([], r)" using assms by (simp add: no_number_def read_fraction_def split: list.splits)
  show "read_exponent r = Some ([], r)" using assms by (simp add: no_number_def read_exponent_def split: list.splits)
qed

lemma read_json_number_print:
  assumes "no_number r"
  shows "read_json_number (print_int i @ r) = Some (JInt i, r)"
proof -
  obtain ds where ds: "format_radix 10 (nat (abs i)) = map digit ds" "list_all (\<lambda>d. d < 10) ds" "ds \<noteq> []"
    "foldl (\<lambda>a d. a * 10 + d) 0 ds = nat (abs i)" "hd ds = 0 \<longrightarrow> ds = [0]"
    by (rule format_radix_obtain [of "nat (abs i)"])
  have lead: "(hd ds = 0 \<and> tl ds \<noteq> []) = False" using ds(5) by auto
  obtain d ds' where d: "ds = d # ds'" "d < 10" using ds(2,3) by (cases ds) simp_all
  have first: "read_minus (map digit ds @ r) = (False, map digit ds @ r)"
    "read_minus (CHR ''-'' # map digit ds @ r) = (True, map digit ds @ r)"
    using d digit_not_minus by (simp_all add: read_minus_def)
  have body: "read_digits 10 (map digit ds @ r) = (ds, r)"
    by (rule read_digits_map [OF ds(2) no_number_ends(1) [OF assms]])
  have printed: "print_int i = (if i < 0 then CHR ''-'' # map digit ds else map digit ds)"
    using ds(1) by (simp add: print_int_def abs_if split: if_splits)
  show ?thesis
  proof (cases "i < 0")
    case True
    then show ?thesis
      by (simp add: printed read_json_number_def body lead first ds(3,4) no_number_ends [OF assms])
  next
    case False
    then show ?thesis
      by (simp add: printed read_json_number_def body lead first ds(3,4) no_number_ends [OF assms])
  qed
qed

section \<open>Strings are read back\<close>

lemma escape_char_cases:
  obtains (short) e where "map_of short_escapes c = Some e" "escape_char c = [backslash, e]"
  | (long) "map_of short_escapes c = None" "(of_char c :: nat) < 32"
      "escape_char c = [backslash, CHR ''u'', digit 0, digit 0, digit (of_char c div 16), digit (of_char c mod 16)]"
  | (plain) "map_of short_escapes c = None" "\<not> (of_char c :: nat) < 32" "escape_char c = [c]"
  by (cases "map_of short_escapes c") (auto simp: escape_char_def Let_def)

lemma to_digit_hex: "d < 16 \<Longrightarrow> to_digit 16 (digit d) = Some d"
proof -
  have "\<forall>d < 16. to_digit 16 (digit d) = Some d"
    by (simp add: digit_def to_digit_def digit_val_def numeral_eq_Suc less_Suc_eq Let_def)
  then show "d < 16 \<Longrightarrow> to_digit 16 (digit d) = Some d" by simp
qed

lemma short_escape_inverse:
  "map_of short_escapes c = Some e \<Longrightarrow> map_of long_escapes e = Some c \<and> e \<noteq> CHR ''u''"
  unfolding short_escapes_def long_escapes_def by (simp split: if_split_asm; hypsubst; simp)

lemma read_escape_short:
  "map_of short_escapes c = Some e \<Longrightarrow> read_escape (e # r) = Some ([c], r)"
  using short_escape_inverse by (simp add: read_escape_def)

lemma read_escape_long:
  "(of_char c :: nat) < 32 \<Longrightarrow>
   read_escape (CHR ''u'' # digit 0 # digit 0 # digit (of_char c div 16) # digit (of_char c mod 16) # r) = Some ([c], r)"
proof -
  assume "(of_char c :: nat) < 32"
  moreover from this have "(of_char c :: nat) div 16 < 16" by simp
  ultimately show ?thesis
    by (simp add: read_escape_def to_digit_hex utf8_of_def mult.commute [of "of_char c div 16"])
qed

lemma read_string_escape:
  "read_string (escape_char c @ cs) = map_option (\<lambda>(t, r). (c # t, r)) (read_string cs)"
proof (cases c rule: escape_char_cases)
  case (short e)
  then show ?thesis
    by (subst read_string.simps) (simp add: read_escape_short split: option.splits)
next
  case long
  then show ?thesis
    by (subst read_string.simps) (simp add: read_escape_long split: option.splits)
next
  case plain
  then have "c \<noteq> quote" "c \<noteq> backslash" by (auto simp: short_escapes_def)
  with plain show ?thesis by (subst read_string.simps) simp
qed

lemma read_string_print: "read_string (concat (map escape_char s) @ quote # r) = Some (s, r)"
proof (induction s)
  case Nil
  then show ?case by (subst read_string.simps) simp
qed (simp add: read_string_escape)

section \<open>Values are read back\<close>

lemma print_int_first:
  obtains c cs where "print_int i = c # cs" "\<not> is_blank c" "c = CHR ''-'' \<or> (\<exists>d < 10. c = digit d)"
proof -
  obtain ds where ds: "format_radix 10 (nat (abs i)) = map digit ds" "list_all (\<lambda>d. d < 10) ds" "ds \<noteq> []"
    by (rule format_radix_obtain [of "nat (abs i)"])
  then obtain d ds' where d: "ds = d # ds'" "d < 10" by (cases ds) simp_all
  have "\<not> is_blank (digit d)"
    using to_digit_digit [OF d(2)] by (auto simp: is_blank_def to_digit_def digit_val_def Let_def)
  then show thesis
    using ds(1) d that by (cases "i < 0") (auto simp: print_int_def is_blank_def abs_if)
qed

lemma digit_no_json:
  "d < 10 \<Longrightarrow> digit d \<notin> {quote, CHR ''['', CHR ''{'', CHR ''n'', CHR ''t'', CHR ''f'', CHR '']'', CHR ''}''}"
  using to_digit_digit [of d] by (auto simp: to_digit_def digit_val_def Let_def)

lemma print_json_first:
  "json_reals j = [] \<Longrightarrow> \<exists>c cs. print_json j = c # cs \<and> \<not> is_blank c \<and> c \<noteq> CHR '']'' \<and> c \<noteq> CHR ''}''"
proof (cases j)
  case (JInt i)
  obtain c cs where "print_int i = c # cs" "\<not> is_blank c" "c = CHR ''-'' \<or> (\<exists>d < 10. c = digit d)"
    by (rule print_int_first)
  with JInt digit_no_json show ?thesis by auto
qed (auto simp: is_blank_def print_string_def)

lemma skip_blanks_print:
  assumes "json_reals j = []"
  shows "skip_blanks (print_json j @ r) = print_json j @ r"
    and "take 1 (print_json j @ r) \<noteq> '']''"
  using print_json_first [OF assms] by auto

lemma not_blank [simp]:
  "\<not> is_blank CHR '',''" "\<not> is_blank CHR '']''" "\<not> is_blank CHR ''}''" "\<not> is_blank CHR '':''" "\<not> is_blank quote"
  "\<not> is_blank CHR ''[''" "\<not> is_blank CHR ''{''" "\<not> is_blank CHR ''n''" "\<not> is_blank CHR ''t''" "\<not> is_blank CHR ''f''"
  by (simp_all add: is_blank_def)

lemma skip_blanks_join:
  assumes "json_reals j = []"
  shows "skip_blanks (join_with CHR '','' (print_json j # ps) @ r) = join_with CHR '','' (print_json j # ps) @ r"
    and "take (Suc 0) (join_with CHR '','' (print_json j # ps) @ r) \<noteq> '']''"
  using print_json_first [OF assms] by (cases ps; force)+

text \<open>What the parser does with the text of a value, whatever follows it.\<close>

definition parses :: "json \<Rightarrow> bool" where
  "parses j \<longleftrightarrow>
     (\<forall>n r. length (print_json j) \<le> n \<longrightarrow> no_number r \<longrightarrow> parse_value n (print_json j @ r) = Some (j, r))"

lemma parsesI:
  assumes "print_json j \<noteq> []"
    and "\<And>n r. length (print_json j) \<le> Suc n \<Longrightarrow> no_number r \<Longrightarrow> parse_value (Suc n) (print_json j @ r) = Some (j, r)"
  shows "parses j"
  unfolding parses_def
proof (intro allI impI)
  fix n r assume n: "length (print_json j) \<le> n" "no_number r"
  with assms(1) obtain m where "n = Suc m" by (cases n) auto
  with n assms(2) show "parse_value n (print_json j @ r) = Some (j, r)" by simp
qed

lemma parsesD:
  "parses j \<Longrightarrow> length (print_json j) \<le> n \<Longrightarrow> no_number r \<Longrightarrow> parse_value n (print_json j @ r) = Some (j, r)"
  by (simp add: parses_def)

lemma parse_items_print:
  assumes "js \<noteq> []" "list_all parses js" "length (join_with CHR '','' (map print_json js)) < n"
  shows "parse_items n (join_with CHR '','' (map print_json js) @ CHR '']'' # r) = Some (js, r)"
  using assms
proof (induction js arbitrary: n)
  case (Cons j js)
  then obtain m where n: "n = Suc m" by (cases n) auto
  show ?case
  proof (cases js)
    case Nil
    with Cons.prems n show ?thesis by (simp add: parsesD)
  next
    case (Cons j2 js2)
    then show ?thesis
      using Cons.prems Cons.IH [of m] n by (simp add: parsesD)
  qed
qed simp

abbreviation print_member :: "string \<times> json \<Rightarrow> string" where
  "print_member \<equiv> \<lambda>(k, j). print_string k @ CHR '':'' # print_json j"

lemma parse_members_print:
  assumes "m \<noteq> []" "list_all (\<lambda>(k, j). parses j) m" "length (join_with CHR '','' (map print_member m)) < n"
  shows "parse_members n (join_with CHR '','' (map print_member m) @ CHR ''}'' # r) = Some (m, r)"
  using assms
proof (induction m arbitrary: n)
  case (Cons p m)
  then obtain l where n: "n = Suc l" by (cases n) auto
  obtain k j where p: "p = (k, j)" by (cases p)
  show ?case
  proof (cases m)
    case Nil
    with Cons.prems n p show ?thesis by (simp add: parsesD print_string_def read_string_print)
  next
    case (Cons q qs)
    then show ?thesis
      using Cons.prems Cons.IH [of l] n p by (simp add: parsesD print_string_def read_string_print)
  qed
qed simp

lemma print_json_parses: "json_reals j = [] \<Longrightarrow> parses j"
proof (induction j rule: print_json.induct)
  case (3 i)
  obtain c cs where p: "print_int i = c # cs" "\<not> is_blank c" "c = CHR ''-'' \<or> (\<exists>d < 10. c = digit d)"
    by (rule print_int_first)
  have "c \<notin> {quote, CHR ''['', CHR ''{'', CHR ''n'', CHR ''t'', CHR ''f''}"
    using p(3) digit_no_json by auto
  with p(1,2) read_json_number_print [of _ i] show ?case by (intro parsesI) auto
next
  case (6 js)
  show ?case
  proof (rule parsesI)
    fix n r assume len: "length (print_json (JArray js)) \<le> Suc n"
    show "parse_value (Suc n) (print_json (JArray js) @ r) = Some (JArray js, r)"
    proof (cases js)
      case (Cons j js')
      then have "skip_blanks (join_with CHR '','' (map print_json js) @ CHR '']'' # r) =
          join_with CHR '','' (map print_json js) @ CHR '']'' # r"
        "take 1 (join_with CHR '','' (map print_json js) @ CHR '']'' # r) \<noteq> '']''"
        using 6 skip_blanks_join [of j "map print_json js'"] by simp_all
      then show ?thesis
        using len 6 parse_items_print [of js n r] Cons by (simp add: list_all_iff)
    qed simp
  qed simp
next
  case (7 m)
  have members: "list_all (\<lambda>(k, j). parses j) m"
    using 7 by (auto simp: list_all_iff)
  show ?case
  proof (rule parsesI)
    fix n r assume len: "length (print_json (JObject m)) \<le> Suc n"
    show "parse_value (Suc n) (print_json (JObject m) @ r) = Some (JObject m, r)"
    proof (cases m)
      case (Cons p m')
      then have "\<exists>cs. join_with CHR '','' (map print_member m) = quote # cs"
        by (cases p; cases m') (auto simp: print_string_def)
      then show ?thesis
        using len members parse_members_print [of m n r] Cons by auto
    qed simp
  qed simp
qed (auto intro!: parsesI simp: print_string_def read_word_def read_string_print split: if_splits)

lemma parse_print_json: "json_reals j = [] \<Longrightarrow> parse_json (print_json j) = Some j"
  using print_json_parses [THEN parsesD, of j "length (print_json j)" "[]"] by (simp add: parse_json_def)

section \<open>The text of valid strings is valid UTF-8\<close>

lemma utf8_valid_append: "utf8_valid xs \<Longrightarrow> utf8_valid ys \<Longrightarrow> utf8_valid (xs @ ys)"
  by (induction xs rule: utf8_valid.induct) (auto split: if_splits list.splits)

lemma utf8_valid_ascii: "list_all (\<lambda>n. n < 128) xs \<Longrightarrow> utf8_valid xs"
  by (induction xs) auto

lemma from_utf8_text: "utf8_string s \<Longrightarrow> from_utf8 (as_bytes s) = Some s"
proof -
  have "map unat (as_bytes s) = map of_char s" by (simp add: as_bytes_def unat_of_char)
  then show "utf8_string s \<Longrightarrow> from_utf8 (as_bytes s) = Some s"
    by (simp add: from_utf8_def utf8_string_def)
qed

lemma utf8_string_append: "utf8_string s \<Longrightarrow> utf8_string t \<Longrightarrow> utf8_string (s @ t)"
  by (simp add: utf8_string_def utf8_valid_append)

lemma utf8_string_ascii: "list_all (\<lambda>c. (of_char c :: nat) < 128) s \<Longrightarrow> utf8_string s"
  by (simp add: utf8_string_def utf8_valid_ascii list_all_iff)

lemma utf8_valid_multi:
  assumes "utf8_valid (a # r)" "\<not> a < 128"
  obtains bs r' where "r = bs @ r'" "list_all is_cont bs" "utf8_valid r'" "length r' \<le> length r"
    "\<forall>t. utf8_valid t \<longrightarrow> utf8_valid (a # bs @ t)"
proof -
  consider (two) "194 \<le> a \<and> a \<le> 223" | (three) "224 \<le> a \<and> a \<le> 239" | (four) "240 \<le> a \<and> a \<le> 244"
    using assms by (auto split: if_splits)
  then show thesis
  proof cases
    case two
    with assms obtain b r' where "r = b # r'" "is_cont b" "utf8_valid r'" by (auto split: list.splits)
    with two assms(2) that [of "[b]" r'] show thesis by simp
  next
    case three
    with assms obtain b c r' where "r = b # c # r'" "is_cont b" "is_cont c" "a = 224 \<longrightarrow> 160 \<le> b" "a = 237 \<longrightarrow> b < 160" "utf8_valid r'"
      by (auto split: list.splits)
    with three assms(2) that [of "[b, c]" r'] show thesis by simp
  next
    case four
    with assms obtain b c d r' where "r = b # c # d # r'" "is_cont b" "is_cont c" "is_cont d" "a = 240 \<longrightarrow> 144 \<le> b"
      "a = 244 \<longrightarrow> b < 144" "utf8_valid r'"
      by (auto split: list.splits)
    with four assms(2) that [of "[b, c, d]" r'] show thesis by simp
  qed
qed

lemma utf8_valid_concat:
  assumes "utf8_valid xs" "\<And>n. n \<in> set xs \<Longrightarrow> n < 128 \<Longrightarrow> list_all (\<lambda>x. x < 128) (f n)"
    and "\<And>n. n \<in> set xs \<Longrightarrow> 128 \<le> n \<Longrightarrow> f n = [n]"
  shows "utf8_valid (concat (map f xs))"
  using assms
proof (induction xs rule: length_induct)
  case (1 xs)
  show ?case
  proof (cases xs)
    case (Cons a r)
    show ?thesis
    proof (cases "a < 128")
      case True
      then show ?thesis
        using 1 Cons by (simp add: utf8_valid_append utf8_valid_ascii)
    next
      case False
      have "utf8_valid (a # r)" using 1(2) Cons by simp
      then obtain bs r' where r: "r = bs @ r'" "list_all is_cont bs" "utf8_valid r'" "length r' \<le> length r"
        "\<forall>t. utf8_valid t \<longrightarrow> utf8_valid (a # bs @ t)"
        using False by (rule utf8_valid_multi)
      have "\<forall>b \<in> set bs. f b = [b]"
        using r(1,2) 1(4) Cons by (simp add: list_all_iff is_cont_def)
      then have "concat (map f bs) = bs" by (induction bs) simp_all
      moreover have "utf8_valid (concat (map f r'))"
        using 1 Cons r by simp
      moreover have "f a = [a]" using 1(4) False Cons by simp
      ultimately show ?thesis
        using Cons r(1,5) by (simp del: utf8_valid.simps)
    qed
  qed simp
qed

lemma of_char_digit: "n < 16 \<Longrightarrow> (of_char (digit n) :: nat) < 128"
proof -
  assume "n < 16"
  then have "digit n \<in> set ''0123456789abcdef''"
    unfolding digit_def by (intro nth_mem) simp
  moreover have "\<forall>c \<in> set ''0123456789abcdef''. (of_char c :: nat) < 128" by simp
  ultimately show ?thesis by blast
qed

lemma short_escapes_ascii:
  "map_of short_escapes c = Some e \<Longrightarrow> (of_char c :: nat) < 128 \<and> (of_char e :: nat) < 128"
  unfolding short_escapes_def by (simp split: if_split_asm; hypsubst; simp)

lemma escape_char_codes:
  "(of_char c :: nat) < 128 \<Longrightarrow> list_all (\<lambda>x. (of_char x :: nat) < 128) (escape_char c)"
  "128 \<le> (of_char c :: nat) \<Longrightarrow> escape_char c = [c]"
  by (cases c rule: escape_char_cases; use short_escapes_ascii [of c] in \<open>auto simp: of_char_digit\<close>)+

lemma utf8_print_string:
  assumes "utf8_string s"
  shows "utf8_string (print_string s)"
proof -
  let ?f = "\<lambda>n. map of_char (escape_char (char_of n)) :: nat list"
  have "utf8_valid (concat (map ?f (map of_char s :: nat list)))"
  proof (rule utf8_valid_concat)
    show "utf8_valid (map of_char s :: nat list)" using assms by (simp add: utf8_string_def)
  qed (auto simp: escape_char_codes list_all_iff dest: escape_char_codes(1))
  then have "utf8_string (concat (map escape_char s))"
    by (simp add: utf8_string_def map_concat o_def)
  then show ?thesis
    using utf8_string_ascii [of "[quote]"] utf8_string_append [of "[quote]"] utf8_string_append [of _ "[quote]"]
    by (simp add: print_string_def)
qed

lemma utf8_join: "utf8_string [c] \<Longrightarrow> list_all utf8_string ps \<Longrightarrow> utf8_string (join_with c ps)"
proof (induction c ps rule: join_with.induct)
  case (3 c p q ps)
  then show ?case
    using utf8_string_append [of "[c]"] utf8_string_append [of p] by simp
qed (simp_all add: utf8_string_def)

lemma utf8_ascii: "(of_char c :: nat) < 128 \<Longrightarrow> utf8_string [c]"
  by (rule utf8_string_ascii) simp

lemma utf8_between:
  "utf8_string s \<Longrightarrow> (of_char a :: nat) < 128 \<Longrightarrow> (of_char b :: nat) < 128 \<Longrightarrow> utf8_string (a # s @ [b])"
  using utf8_string_append [of "[a]"] utf8_string_append [of s] by (simp add: utf8_ascii)

lemma utf8_print_json:
  "json_reals j = [] \<Longrightarrow> list_all utf8_string (json_strings j) \<Longrightarrow> utf8_string (print_json j)"
proof (induction j rule: print_json.induct)
  case (3 i)
  obtain ds where ds: "format_radix 10 (nat (abs i)) = map digit ds" "list_all (\<lambda>d. d < 10) ds"
    by (rule format_radix_obtain [of "nat (abs i)"])
  then have "list_all (\<lambda>c. (of_char c :: nat) < 128) (map digit ds)"
    by (auto simp: list_all_iff of_char_digit)
  with ds(1) show ?case
    by (auto intro!: utf8_string_ascii simp: print_int_def abs_if split: if_splits)
next
  case (6 js)
  then have "list_all utf8_string (map print_json js)" by (auto simp: list_all_iff)
  then have "utf8_string (join_with CHR '','' (map print_json js))" by (simp add: utf8_join utf8_ascii)
  then show ?case using utf8_between [of _ "CHR ''[''" "CHR '']''"] by simp
next
  case (7 m)
  have "utf8_string (print_member (k, j))" if "(k, j) \<in> set m" for k j
  proof -
    have "utf8_string k" "utf8_string (print_json j)" using 7 that by (auto simp: list_all_iff)
    then show ?thesis
      using utf8_string_append [of "[CHR '':'']"] by (simp add: utf8_string_append utf8_print_string utf8_ascii)
  qed
  then have "list_all utf8_string (map print_member m)" by (auto simp: list_all_iff)
  then have "utf8_string (join_with CHR '','' (map print_member m))" by (simp add: utf8_join utf8_ascii)
  then show ?case using utf8_between [of _ "CHR ''{''" "CHR ''}''"] by simp
qed (simp_all add: utf8_print_string utf8_string_ascii)

interpretation rfc8259: json_text print_json parse_json
  by unfold_locales (simp_all add: parse_print_json utf8_print_json)

end
