(* ===== verification/Serde_Json.thy ===== *)
theory Serde_Json
  imports Rfc8259 Rtc_Messages
begin

text \<open>
  The JSON form of the messages, as the \<open>serde\<close> attributes of the sources fix it: which
  members an object has, how fields and variants are spelled, what is left out when it is absent
  and what is supplied when it is missing. A struct is an object with a member per field; reading it
  skips members it does not know, rejects a known member given twice, takes a missing
  \<open>Option\<close> for \<open>None\<close> and also accepts the array of all field values in order. An
  internally tagged enum is the object of its variant with the variant's name under the tag; the
  rest of it is read after it has been buffered.

  The engine that turns values into text is not part of this theory (\<open>Rfc8259\<close>), nor is the
  text of a \<open>Uuid\<close>, which is an argument: its laws are the locale \<open>uuid_text\<close>, with the
  hyphenated form of RFC 9562 as reference.

  \<open>serde_value\<close> is the contract of one type; the facts are its instances, the members that
  are ignored and the spellings that are refused.
\<close>

section \<open>Reading and writing parts\<close>

definition read_str :: "json \<Rightarrow> string option" where
  "read_str j = (case j of JString s \<Rightarrow> Some s | _ \<Rightarrow> None)"

definition read_bool :: "json \<Rightarrow> bool option" where
  "read_bool j = (case j of JBool b \<Rightarrow> Some b | _ \<Rightarrow> None)"

definition read_uint :: "json \<Rightarrow> 'a :: len word option" where
  "read_uint j =
     (case j of
        JInt i \<Rightarrow> if 0 \<le> i \<and> i < 2 ^ LENGTH('a) then Some (word_of_int i) else None
      | _ \<Rightarrow> None)"

definition write_uint :: "'a :: len word \<Rightarrow> json" where
  "write_uint w = JInt (uint w)"

definition read_option :: "(json \<Rightarrow> 'a option) \<Rightarrow> json \<Rightarrow> 'a option option" where
  "read_option rd j = (if j = JNull then Some None else map_option Some (rd j))"

definition read_vec :: "(json \<Rightarrow> 'a option) \<Rightarrow> json \<Rightarrow> 'a list option" where
  "read_vec rd j = (case j of JArray js \<Rightarrow> those (map rd js) | _ \<Rightarrow> None)"

text \<open>A \<open>HashMap\<close>: of two members with the same key the later one stays.\<close>

definition read_map :: "(json \<Rightarrow> 'a option) \<Rightarrow> json \<Rightarrow> (string, 'a) hash_map option" where
  "read_map rd j =
     (case j of
        JObject m \<Rightarrow>
          map_option (\<lambda>ps. fold (\<lambda>(k, v) acc. AList.update k v acc) ps [])
            (those (map (\<lambda>(k, j). map_option (Pair k) (rd j)) m))
      | _ \<Rightarrow> None)"

definition write_map :: "('a \<Rightarrow> json) \<Rightarrow> (string, 'a) hash_map \<Rightarrow> json" where
  "write_map wr m = JObject (map (\<lambda>(k, v). (k, wr v)) m)"

text \<open>
  An enum of unit variants: its name, or an object with the name as its only key. Buffered content
  accepts an empty object for the unit as well.
\<close>

definition read_unit_enum :: "bool \<Rightarrow> (string \<times> 'a) list \<Rightarrow> json \<Rightarrow> 'a option" where
  "read_unit_enum buffered variants j =
     (case j of
        JString s \<Rightarrow> map_of variants s
      | JObject [(s, unit)] \<Rightarrow>
          if unit = JNull \<or> (buffered \<and> unit = JObject []) then map_of variants s else None
      | _ \<Rightarrow> None)"

text \<open>
  The known members of a struct: \<open>required\<close> fields at least when it is given as an array (the
  fields with a default come last).
\<close>

definition as_fields :: "string list \<Rightarrow> nat \<Rightarrow> json \<Rightarrow> (string \<times> json) list option" where
  "as_fields names required j =
     (case j of
        JObject m \<Rightarrow>
          (let known = filter (\<lambda>(k, _). k \<in> set names) m in
           if distinct (map fst known) then Some known else None)
      | JArray js \<Rightarrow>
          if required \<le> length js \<and> length js \<le> length names then Some (zip names js) else None
      | _ \<Rightarrow> None)"

definition field :: "string \<Rightarrow> (json \<Rightarrow> 'a option) \<Rightarrow> (string \<times> json) list \<Rightarrow> 'a option" where
  "field k rd m = Option.bind (map_of m k) rd"

definition option_field :: "string \<Rightarrow> (json \<Rightarrow> 'a option) \<Rightarrow> (string \<times> json) list \<Rightarrow> 'a option option" where
  "option_field k rd m = (case map_of m k of None \<Rightarrow> Some None | Some j \<Rightarrow> read_option rd j)"

definition default_field :: "string \<Rightarrow> 'a \<Rightarrow> (json \<Rightarrow> 'a option) \<Rightarrow> (string \<times> json) list \<Rightarrow> 'a option" where
  "default_field k d rd m = (case map_of m k of None \<Rightarrow> Some d | Some j \<Rightarrow> rd j)"

text \<open>\<open>skip_serializing_if = "Option::is_none"\<close>\<close>

definition option_member :: "string \<Rightarrow> ('a \<Rightarrow> json) \<Rightarrow> 'a option \<Rightarrow> (string \<times> json) list" where
  "option_member k wr v = (case v of None \<Rightarrow> [] | Some x \<Rightarrow> [(k, wr x)])"

text \<open>The tag of an internally tagged enum and what is left for the variant.\<close>

definition tagged :: "string \<Rightarrow> string \<Rightarrow> (string \<times> json) list \<Rightarrow> json" where
  "tagged key variant m = JObject ((key, JString variant) # m)"

definition untag :: "string \<Rightarrow> json \<Rightarrow> (string \<times> json) option" where
  "untag key j =
     (case j of
        JObject m \<Rightarrow>
          (case filter (\<lambda>(k, _). k = key) m of
             [(_, JString variant)] \<Rightarrow> Some (variant, JObject (filter (\<lambda>(k, _). k \<noteq> key) m))
           | _ \<Rightarrow> None)
      | JArray (JString variant # js) \<Rightarrow> Some (variant, JArray js)
      | _ \<Rightarrow> None)"

definition unit_variant :: "'a \<Rightarrow> json \<Rightarrow> 'a option" where
  "unit_variant x j = (case j of JObject m \<Rightarrow> Some x | JArray js \<Rightarrow> if js = [] then Some x else None | _ \<Rightarrow> None)"

section \<open>core/src/model\<close>

definition device_type_variants :: "(string \<times> device_type) list" where
  "device_type_variants =
     [(''MOBILE'', Mobile), (''DESKTOP'', Desktop), (''WEB'', Web), (''HEADLESS'', Headless), (''SERVER'', Server)]"

fun write_device_type :: "device_type \<Rightarrow> json" where
  "write_device_type Mobile = JString ''MOBILE''"
| "write_device_type Desktop = JString ''DESKTOP''"
| "write_device_type Web = JString ''WEB''"
| "write_device_type Headless = JString ''HEADLESS''"
| "write_device_type Server = JString ''SERVER''"

definition read_device_type :: "bool \<Rightarrow> json \<Rightarrow> device_type option" where
  "read_device_type buffered = read_unit_enum buffered device_type_variants"

definition write_metadata :: "file_metadata \<Rightarrow> json" where
  "write_metadata v =
     JObject (option_member ''modified'' JString (modified v) @ option_member ''accessed'' JString (accessed v))"

definition read_metadata :: "json \<Rightarrow> file_metadata option" where
  "read_metadata j =
     Option.bind (as_fields [''modified'', ''accessed''] 2 j) (\<lambda>m.
     Option.bind (option_field ''modified'' read_str m) (\<lambda>x0.
     Option.bind (option_field ''accessed'' read_str m) (\<lambda>x1.
     Some \<lparr> modified = x0, accessed = x1 \<rparr>)))"

definition write_file_dto :: "file_dto \<Rightarrow> json" where
  "write_file_dto v =
     JObject ([(''id'', JString (file_dto_id v)), (''fileName'', JString (file_name v)),
        (''size'', write_uint (file_size v)), (''fileType'', JString (file_type v))] @
        option_member ''sha256'' JString (file_sha256 v) @ option_member ''preview'' JString (file_preview v) @
        option_member ''metadata'' write_metadata (file_dto_metadata v))"

definition read_file_dto :: "json \<Rightarrow> file_dto option" where
  "read_file_dto j =
     Option.bind (as_fields [''id'', ''fileName'', ''size'', ''fileType'', ''sha256'', ''preview'', ''metadata''] 7 j) (\<lambda>m.
     Option.bind (field ''id'' read_str m) (\<lambda>x0.
     Option.bind (field ''fileName'' read_str m) (\<lambda>x1.
     Option.bind (field ''size'' read_uint m) (\<lambda>x2.
     Option.bind (field ''fileType'' read_str m) (\<lambda>x3.
     Option.bind (option_field ''sha256'' read_str m) (\<lambda>x4.
     Option.bind (option_field ''preview'' read_str m) (\<lambda>x5.
     Option.bind (option_field ''metadata'' read_metadata m) (\<lambda>x6.
     Some \<lparr> file_dto_id = x0, file_name = x1, file_size = x2, file_type = x3, file_sha256 = x4,
       file_preview = x5, file_dto_metadata = x6 \<rparr>))))))))"

section \<open>core/src/webrtc/webrtc.rs\<close>

definition write_nonce_message :: "string \<Rightarrow> json" where
  "write_nonce_message nonce = JObject [(''nonce'', JString nonce)]"

definition read_nonce_message :: "json \<Rightarrow> string option" where
  "read_nonce_message j = Option.bind (as_fields [''nonce''] 1 j) (field ''nonce'' read_str)"

definition write_token_request :: "string \<Rightarrow> json" where
  "write_token_request token = JObject [(''token'', JString token)]"

definition read_token_request :: "json \<Rightarrow> string option" where
  "read_token_request j = Option.bind (as_fields [''token''] 1 j) (field ''token'' read_str)"

fun write_token_response :: "rtc_token_response \<Rightarrow> json" where
  "write_token_response (TokenOk token) = tagged ''status'' ''OK'' [(''token'', JString token)]"
| "write_token_response (TokenPinRequired token) = tagged ''status'' ''PIN_REQUIRED'' [(''token'', JString token)]"
| "write_token_response TokenInvalidSignature = tagged ''status'' ''INVALID_SIGNATURE'' []"

definition read_token_response :: "json \<Rightarrow> rtc_token_response option" where
  "read_token_response j =
     Option.bind (untag ''status'' j) (\<lambda>(variant, content).
       if variant = ''OK'' then
         map_option TokenOk (Option.bind (as_fields [''token''] 1 content) (field ''token'' read_str))
       else if variant = ''PIN_REQUIRED'' then
         map_option TokenPinRequired (Option.bind (as_fields [''token''] 1 content) (field ''token'' read_str))
       else if variant = ''INVALID_SIGNATURE'' then unit_variant TokenInvalidSignature content
       else None)"

definition write_pin_message :: "string \<Rightarrow> json" where
  "write_pin_message p = JObject [(''pin'', JString p)]"

definition read_pin_message :: "json \<Rightarrow> string option" where
  "read_pin_message j = Option.bind (as_fields [''pin''] 1 j) (field ''pin'' read_str)"

fun write_pin_receiving :: "rtc_pin_receiving_response \<Rightarrow> json" where
  "write_pin_receiving PinReceivingOk = tagged ''status'' ''OK'' []"
| "write_pin_receiving PinReceivingPinRequired = tagged ''status'' ''PIN_REQUIRED'' []"
| "write_pin_receiving PinReceivingTooManyAttempts = tagged ''status'' ''TOO_MANY_ATTEMPTS'' []"

definition read_pin_receiving :: "json \<Rightarrow> rtc_pin_receiving_response option" where
  "read_pin_receiving j =
     Option.bind (untag ''status'' j) (\<lambda>(variant, content).
       if variant = ''OK'' then unit_variant PinReceivingOk content
       else if variant = ''PIN_REQUIRED'' then unit_variant PinReceivingPinRequired content
       else if variant = ''TOO_MANY_ATTEMPTS'' then unit_variant PinReceivingTooManyAttempts content
       else None)"

fun write_pin_sending :: "rtc_pin_sending_response \<Rightarrow> json" where
  "write_pin_sending (PinSendingOk files) = tagged ''status'' ''OK'' [(''files'', JArray (map write_file_dto files))]"
| "write_pin_sending PinSendingPinRequired = tagged ''status'' ''PIN_REQUIRED'' []"
| "write_pin_sending PinSendingTooManyAttempts = tagged ''status'' ''TOO_MANY_ATTEMPTS'' []"

definition read_pin_sending :: "json \<Rightarrow> rtc_pin_sending_response option" where
  "read_pin_sending j =
     Option.bind (untag ''status'' j) (\<lambda>(variant, content).
       if variant = ''OK'' then
         map_option PinSendingOk
           (Option.bind (as_fields [''files''] 1 content) (field ''files'' (read_vec read_file_dto)))
       else if variant = ''PIN_REQUIRED'' then unit_variant PinSendingPinRequired content
       else if variant = ''TOO_MANY_ATTEMPTS'' then unit_variant PinSendingTooManyAttempts content
       else None)"

fun write_file_list :: "rtc_file_list_response \<Rightarrow> json" where
  "write_file_list (FileListOk files) = tagged ''status'' ''OK'' [(''files'', write_map JString files)]"
| "write_file_list (FileListPair public_key) = tagged ''status'' ''PAIR'' [(''publicKey'', JString public_key)]"
| "write_file_list FileListDeclined = tagged ''status'' ''DECLINED'' []"
| "write_file_list FileListInvalidSignature = tagged ''status'' ''INVALID_SIGNATURE'' []"

definition read_file_list :: "json \<Rightarrow> rtc_file_list_response option" where
  "read_file_list j =
     Option.bind (untag ''status'' j) (\<lambda>(variant, content).
       if variant = ''OK'' then
         map_option FileListOk
           (Option.bind (as_fields [''files''] 1 content) (field ''files'' (read_map read_str)))
       else if variant = ''PAIR'' then
         map_option FileListPair
           (Option.bind (as_fields [''publicKey''] 1 content) (field ''publicKey'' read_str))
       else if variant = ''DECLINED'' then unit_variant FileListDeclined content
       else if variant = ''INVALID_SIGNATURE'' then unit_variant FileListInvalidSignature content
       else None)"

fun write_pair :: "rtc_pair_response \<Rightarrow> json" where
  "write_pair (PairOk public_key) = tagged ''status'' ''OK'' [(''publicKey'', JString public_key)]"
| "write_pair PairDeclined = tagged ''status'' ''PAIR_DECLINED'' []"
| "write_pair PairInvalidSignature = tagged ''status'' ''INVALID_SIGNATURE'' []"

definition write_header :: "rtc_send_file_header_request \<Rightarrow> json" where
  "write_header v = JObject [(''id'', JString (hdr_id v)), (''token'', JString (hdr_token v))]"

definition read_header :: "json \<Rightarrow> rtc_send_file_header_request option" where
  "read_header j =
     Option.bind (as_fields [''id'', ''token''] 2 j) (\<lambda>m.
     Option.bind (field ''id'' read_str m) (\<lambda>x0.
     Option.bind (field ''token'' read_str m) (\<lambda>x1.
     Some \<lparr> hdr_id = x0, hdr_token = x1 \<rparr>)))"

definition write_file_response :: "rtc_send_file_response \<Rightarrow> json" where
  "write_file_response v =
     JObject ([(''id'', JString (fr_id v)), (''success'', JBool (fr_success v))] @
       option_member ''error'' JString (fr_error v))"

section \<open>core/src/webrtc/signaling.rs\<close>

definition write_client_info_without_id :: "client_info_without_id \<Rightarrow> json" where
  "write_client_info_without_id v =
     JObject ([(''alias'', JString (cw_alias v)), (''version'', JString (cw_version v))] @
        option_member ''deviceModel'' JString (cw_device_model v) @
        option_member ''deviceType'' write_device_type (cw_device_type v) @ [(''token'', JString (cw_token v))])"

definition read_client_info_without_id :: "bool \<Rightarrow> json \<Rightarrow> client_info_without_id option" where
  "read_client_info_without_id buffered j =
     Option.bind (as_fields [''alias'', ''version'', ''deviceModel'', ''deviceType'', ''token''] 5 j) (\<lambda>m.
     Option.bind (field ''alias'' read_str m) (\<lambda>x0.
     Option.bind (field ''version'' read_str m) (\<lambda>x1.
     Option.bind (option_field ''deviceModel'' read_str m) (\<lambda>x2.
     Option.bind (option_field ''deviceType'' (read_device_type buffered) m) (\<lambda>x3.
     Option.bind (field ''token'' read_str m) (\<lambda>x4.
     Some \<lparr> cw_alias = x0, cw_version = x1, cw_device_model = x2, cw_device_type = x3, cw_token = x4 \<rparr>))))))"

definition read_uuid :: "(string \<Rightarrow> uuid option) \<Rightarrow> json \<Rightarrow> uuid option" where
  "read_uuid parse j = Option.bind (read_str j) parse"

definition write_client_info :: "(uuid \<Rightarrow> string) \<Rightarrow> client_info \<Rightarrow> json" where
  "write_client_info show_uuid v =
     JObject ([(''id'', JString (show_uuid (ci_id v))), (''alias'', JString (ci_alias v)),
         (''version'', JString (ci_version v))] @
        option_member ''deviceModel'' JString (ci_device_model v) @
        option_member ''deviceType'' write_device_type (ci_device_type v) @ [(''token'', JString (ci_token v))])"

definition read_client_info :: "(string \<Rightarrow> uuid option) \<Rightarrow> json \<Rightarrow> client_info option" where
  "read_client_info parse_uuid j =
     Option.bind (as_fields [''id'', ''alias'', ''version'', ''deviceModel'', ''deviceType'', ''token''] 6 j) (\<lambda>m.
     Option.bind (field ''id'' (read_uuid parse_uuid) m) (\<lambda>x0.
     Option.bind (field ''alias'' read_str m) (\<lambda>x1.
     Option.bind (field ''version'' read_str m) (\<lambda>x2.
     Option.bind (option_field ''deviceModel'' read_str m) (\<lambda>x3.
     Option.bind (option_field ''deviceType'' (read_device_type True) m) (\<lambda>x4.
     Option.bind (field ''token'' read_str m) (\<lambda>x5.
     Some \<lparr> ci_id = x0, ci_alias = x1, ci_version = x2, ci_device_model = x3, ci_device_type = x4,
       ci_token = x5 \<rparr>)))))))"

definition sdp_members :: "(uuid \<Rightarrow> string) \<Rightarrow> ws_server_sdp_message \<Rightarrow> (string \<times> json) list" where
  "sdp_members show_uuid v =
     [(''peer'', write_client_info show_uuid (sdp_peer v)), (''sessionId'', JString (sdp_session_id v)),
      (''sdp'', JString (sdp_sdp v))]"

definition read_sdp_message :: "(string \<Rightarrow> uuid option) \<Rightarrow> json \<Rightarrow> ws_server_sdp_message option" where
  "read_sdp_message parse_uuid j =
     Option.bind (as_fields [''peer'', ''sessionId'', ''sdp''] 3 j) (\<lambda>m.
     Option.bind (field ''peer'' (read_client_info parse_uuid) m) (\<lambda>x0.
     Option.bind (field ''sessionId'' read_str m) (\<lambda>x1.
     Option.bind (field ''sdp'' read_str m) (\<lambda>x2.
     Some \<lparr> sdp_peer = x0, sdp_session_id = x1, sdp_sdp = x2 \<rparr>))))"

fun write_ws_server_message :: "(uuid \<Rightarrow> string) \<Rightarrow> ws_server_message \<Rightarrow> json" where
  "write_ws_server_message u (Hello client peers) =
     tagged ''type'' ''HELLO''
       [(''client'', write_client_info u client), (''peers'', JArray (map (write_client_info u) peers))]"
| "write_ws_server_message u (Join peer) = tagged ''type'' ''JOIN'' [(''peer'', write_client_info u peer)]"
| "write_ws_server_message u (Update peer) = tagged ''type'' ''UPDATE'' [(''peer'', write_client_info u peer)]"
| "write_ws_server_message u (Left peer_id) = tagged ''type'' ''LEFT'' [(''peerId'', JString (u peer_id))]"
| "write_ws_server_message u (Offer m) = tagged ''type'' ''OFFER'' (sdp_members u m)"
| "write_ws_server_message u (Answer m) = tagged ''type'' ''ANSWER'' (sdp_members u m)"
| "write_ws_server_message u (Error code) = tagged ''type'' ''ERROR'' [(''code'', write_uint code)]"

definition read_peer_variant ::
  "(string \<Rightarrow> uuid option) \<Rightarrow> (client_info \<Rightarrow> ws_server_message) \<Rightarrow> json \<Rightarrow> ws_server_message option" where
  "read_peer_variant parse_uuid variant content =
     map_option variant (Option.bind (as_fields [''peer''] 1 content) (field ''peer'' (read_client_info parse_uuid)))"

definition read_ws_server_message :: "(string \<Rightarrow> uuid option) \<Rightarrow> json \<Rightarrow> ws_server_message option" where
  "read_ws_server_message parse_uuid j =
     Option.bind (untag ''type'' j) (\<lambda>(variant, content).
       if variant = ''HELLO'' then
         Option.bind (as_fields [''client'', ''peers''] 2 content) (\<lambda>m.
         Option.bind (field ''client'' (read_client_info parse_uuid) m) (\<lambda>client.
         Option.bind (field ''peers'' (read_vec (read_client_info parse_uuid)) m) (\<lambda>peers.
         Some (Hello client peers))))
       else if variant = ''JOIN'' then read_peer_variant parse_uuid Join content
       else if variant = ''UPDATE'' then read_peer_variant parse_uuid Update content
       else if variant = ''LEFT'' then
         map_option Left (Option.bind (as_fields [''peerId''] 1 content) (field ''peerId'' (read_uuid parse_uuid)))
       else if variant = ''OFFER'' then map_option Offer (read_sdp_message parse_uuid content)
       else if variant = ''ANSWER'' then map_option Answer (read_sdp_message parse_uuid content)
       else if variant = ''ERROR'' then
         map_option Error (Option.bind (as_fields [''code''] 1 content) (field ''code'' read_uint))
       else None)"

definition client_sdp_members :: "(uuid \<Rightarrow> string) \<Rightarrow> ws_client_sdp_message \<Rightarrow> (string \<times> json) list" where
  "client_sdp_members show_uuid v =
     [(''sessionId'', JString (csdp_session_id v)), (''target'', JString (show_uuid (csdp_target v))),
      (''sdp'', JString (csdp_sdp v))]"

definition read_client_sdp_message :: "(string \<Rightarrow> uuid option) \<Rightarrow> json \<Rightarrow> ws_client_sdp_message option" where
  "read_client_sdp_message parse_uuid j =
     Option.bind (as_fields [''sessionId'', ''target'', ''sdp''] 3 j) (\<lambda>m.
     Option.bind (field ''sessionId'' read_str m) (\<lambda>x0.
     Option.bind (field ''target'' (read_uuid parse_uuid) m) (\<lambda>x1.
     Option.bind (field ''sdp'' read_str m) (\<lambda>x2.
     Some \<lparr> csdp_session_id = x0, csdp_target = x1, csdp_sdp = x2 \<rparr>))))"

fun write_ws_client_message :: "(uuid \<Rightarrow> string) \<Rightarrow> ws_client_message \<Rightarrow> json" where
  "write_ws_client_message u (ClientUpdate info) =
     tagged ''type'' ''UPDATE'' [(''info'', write_client_info_without_id info)]"
| "write_ws_client_message u (ClientOffer m) = tagged ''type'' ''OFFER'' (client_sdp_members u m)"
| "write_ws_client_message u (ClientAnswer m) = tagged ''type'' ''ANSWER'' (client_sdp_members u m)"

definition read_ws_client_message :: "(string \<Rightarrow> uuid option) \<Rightarrow> json \<Rightarrow> ws_client_message option" where
  "read_ws_client_message parse_uuid j =
     Option.bind (untag ''type'' j) (\<lambda>(variant, content).
       if variant = ''UPDATE'' then
         map_option ClientUpdate
           (Option.bind (as_fields [''info''] 1 content) (field ''info'' (read_client_info_without_id True)))
       else if variant = ''OFFER'' then map_option ClientOffer (read_client_sdp_message parse_uuid content)
       else if variant = ''ANSWER'' then map_option ClientAnswer (read_client_sdp_message parse_uuid content)
       else None)"

section \<open>core/src/http/dto.rs\<close>

definition write_nonce_request :: "nonce_request \<Rightarrow> json" where
  "write_nonce_request v = JObject [(''nonce'', JString (req_nonce v))]"

definition read_nonce_request :: "json \<Rightarrow> nonce_request option" where
  "read_nonce_request j =
     Option.bind (as_fields [''nonce''] 1 j) (\<lambda>m.
     Option.bind (field ''nonce'' read_str m) (\<lambda>x0. Some \<lparr> req_nonce = x0 \<rparr>))"

definition write_nonce_response :: "nonce_response \<Rightarrow> json" where
  "write_nonce_response v = JObject [(''nonce'', JString (res_nonce v))]"

definition read_nonce_response :: "json \<Rightarrow> nonce_response option" where
  "read_nonce_response j =
     Option.bind (as_fields [''nonce''] 1 j) (\<lambda>m.
     Option.bind (field ''nonce'' read_str m) (\<lambda>x0. Some \<lparr> res_nonce = x0 \<rparr>))"

definition write_error_response :: "error_response \<Rightarrow> json" where
  "write_error_response v = JObject [(''message'', JString (err_message v))]"

definition read_error_response :: "json \<Rightarrow> error_response option" where
  "read_error_response j =
     Option.bind (as_fields [''message''] 1 j) (\<lambda>m.
     Option.bind (field ''message'' read_str m) (\<lambda>x0. Some \<lparr> err_message = x0 \<rparr>))"

fun write_protocol_type :: "protocol_type \<Rightarrow> json" where
  "write_protocol_type Http = JString ''HTTP''"
| "write_protocol_type Https = JString ''HTTPS''"

definition read_protocol_type :: "json \<Rightarrow> protocol_type option" where
  "read_protocol_type = read_unit_enum False [(''HTTP'', Http), (''HTTPS'', Https)]"

text \<open>\<open>skip_serializing_if = "is_default"\<close> on a \<open>bool\<close>\<close>

definition flag_member :: "string \<Rightarrow> bool \<Rightarrow> (string \<times> json) list" where
  "flag_member k b = (if b then [(k, JBool b)] else [])"

definition write_register_dto :: "register_dto \<Rightarrow> json" where
  "write_register_dto v =
     JObject ([(''alias'', JString (reg_alias v)), (''version'', JString (reg_version v))] @
        option_member ''deviceModel'' JString (reg_device_model v) @
        option_member ''deviceType'' write_device_type (reg_device_type v) @
        [(''token'', JString (reg_token v)), (''port'', write_uint (reg_port v)),
         (''protocol'', write_protocol_type (reg_protocol v))] @
        flag_member ''hasWebInterface'' (reg_has_web_interface v))"

definition read_register_dto :: "json \<Rightarrow> register_dto option" where
  "read_register_dto j =
     Option.bind (as_fields [''alias'', ''version'', ''deviceModel'', ''deviceType'', ''token'', ''port'', ''protocol'',
       ''hasWebInterface''] 7 j) (\<lambda>m.
     Option.bind (field ''alias'' read_str m) (\<lambda>x0.
     Option.bind (field ''version'' read_str m) (\<lambda>x1.
     Option.bind (option_field ''deviceModel'' read_str m) (\<lambda>x2.
     Option.bind (option_field ''deviceType'' (read_device_type False) m) (\<lambda>x3.
     Option.bind (field ''token'' read_str m) (\<lambda>x4.
     Option.bind (field ''port'' read_uint m) (\<lambda>x5.
     Option.bind (field ''protocol'' read_protocol_type m) (\<lambda>x6.
     Option.bind (default_field ''hasWebInterface'' False read_bool m) (\<lambda>x7.
     Some \<lparr> reg_alias = x0, reg_version = x1, reg_device_model = x2, reg_device_type = x3, reg_token = x4,
       reg_port = x5, reg_protocol = x6, reg_has_web_interface = x7 \<rparr>)))))))))"

definition write_register_response :: "register_response_dto \<Rightarrow> json" where
  "write_register_response v =
     JObject ([(''alias'', JString (rr_alias v)), (''version'', JString (rr_version v))] @
        option_member ''deviceModel'' JString (rr_device_model v) @
        option_member ''deviceType'' write_device_type (rr_device_type v) @
        [(''token'', JString (rr_token v))] @ flag_member ''hasWebInterface'' (rr_has_web_interface v))"

definition read_register_response :: "json \<Rightarrow> register_response_dto option" where
  "read_register_response j =
     Option.bind (as_fields [''alias'', ''version'', ''deviceModel'', ''deviceType'', ''token'', ''hasWebInterface''] 5 j) (\<lambda>m.
     Option.bind (field ''alias'' read_str m) (\<lambda>x0.
     Option.bind (field ''version'' read_str m) (\<lambda>x1.
     Option.bind (option_field ''deviceModel'' read_str m) (\<lambda>x2.
     Option.bind (option_field ''deviceType'' (read_device_type False) m) (\<lambda>x3.
     Option.bind (field ''token'' read_str m) (\<lambda>x4.
     Option.bind (default_field ''hasWebInterface'' False read_bool m) (\<lambda>x5.
     Some \<lparr> rr_alias = x0, rr_version = x1, rr_device_model = x2, rr_device_type = x3, rr_token = x4,
       rr_has_web_interface = x5 \<rparr>)))))))"

definition write_prepare_upload_request :: "prepare_upload_request_dto \<Rightarrow> json" where
  "write_prepare_upload_request v =
     JObject [(''info'', write_register_dto (pu_info v)), (''files'', write_map write_file_dto (pu_files v))]"

definition read_prepare_upload_request :: "json \<Rightarrow> prepare_upload_request_dto option" where
  "read_prepare_upload_request j =
     Option.bind (as_fields [''info'', ''files''] 2 j) (\<lambda>m.
     Option.bind (field ''info'' read_register_dto m) (\<lambda>x0.
     Option.bind (field ''files'' (read_map read_file_dto) m) (\<lambda>x1.
     Some \<lparr> pu_info = x0, pu_files = x1 \<rparr>)))"

definition write_prepare_upload_response :: "prepare_upload_response_dto \<Rightarrow> json" where
  "write_prepare_upload_response v =
     JObject [(''sessionId'', JString (pu_session_id v)), (''files'', write_map JString (pu_tokens v))]"

definition read_prepare_upload_response :: "json \<Rightarrow> prepare_upload_response_dto option" where
  "read_prepare_upload_response j =
     Option.bind (as_fields [''sessionId'', ''files''] 2 j) (\<lambda>m.
     Option.bind (field ''sessionId'' read_str m) (\<lambda>x0.
     Option.bind (field ''files'' (read_map read_str) m) (\<lambda>x1.
     Some \<lparr> pu_session_id = x0, pu_tokens = x1 \<rparr>)))"

section \<open>The contract of a type\<close>

named_theorems serde_simps \<open>evaluation of the readers on what the writers produce\<close>

lemma fold_update_append:
  "distinct (map fst m) \<Longrightarrow> fst ` set acc \<inter> fst ` set m = {} \<Longrightarrow>
   fold (\<lambda>(k, v) acc. AList.update k v acc) m acc = acc @ m"
proof (induction m arbitrary: acc)
  case (Cons p m)
  then have "map_of acc (fst p) = None" by (auto simp: map_of_eq_None_iff)
  with Cons show ?case by (cases p) (auto simp: update_new)
qed simp

lemma fold_update_distinct:
  "distinct (map fst m) \<Longrightarrow> fold (\<lambda>p. AList.update (fst p) (snd p)) m [] = m"
  using fold_update_append [of m "[]"] by (simp add: case_prod_unfold)

text \<open>
  What is written is read back, has only integers among its numbers, and its strings are those of
  the value, the names of members and the names of variants.
\<close>

locale serde_value =
  fixes wr :: "'a \<Rightarrow> json"
    and rd :: "json \<Rightarrow> 'a option"
    and ok :: "'a \<Rightarrow> bool"
  assumes read_write: "ok x \<Longrightarrow> rd (wr x) = Some x"
    and no_reals: "json_reals (wr x) = []"
    and not_null: "wr x \<noteq> JNull"
begin

lemma read_write_option: "option_field k rd (option_member k wr v) = Some v" if "pred_option ok v"
  using that by (cases v) (simp_all add: option_field_def option_member_def read_option_def read_write not_null)

lemma those_read: "list_all ok xs \<Longrightarrow> those (map (rd \<circ> wr) xs) = Some xs"
  by (induction xs) (simp_all add: read_write)

lemma vec_value: "serde_value (\<lambda>xs. JArray (map wr xs)) (read_vec rd) (list_all ok)"
  by unfold_locales (simp_all add: read_vec_def those_read no_reals)

lemma those_read_members:
  "list_all (ok \<circ> snd) m \<Longrightarrow> those (map (\<lambda>p. map_option (Pair (fst p)) (rd (wr (snd p)))) m) = Some m"
  by (induction m) (simp_all add: read_write)

lemma map_value: "serde_value (write_map wr) (read_map rd) (\<lambda>m. list_all (ok \<circ> snd) m \<and> distinct (map fst m))"
proof unfold_locales
  fix m :: "(string \<times> 'a) list"
  assume "list_all (ok \<circ> snd) m \<and> distinct (map fst m)"
  then show "read_map rd (write_map wr m) = Some m"
    by (simp add: read_map_def write_map_def case_prod_unfold o_def those_read_members fold_update_distinct)
qed (simp_all add: write_map_def case_prod_unfold o_def no_reals)

lemma inject: "ok x \<Longrightarrow> ok y \<Longrightarrow> wr x = wr y \<longleftrightarrow> x = y"
  by (metis read_write option.inject)

end

lemma filter_members: "key \<notin> fst ` set m \<Longrightarrow> filter (\<lambda>(k, _). k = key) m = [] \<and> filter (\<lambda>(k, _). k \<noteq> key) m = m"
  by (induction m) auto

lemma untag_tagged [serde_simps]:
  "key \<notin> fst ` set m \<Longrightarrow> untag key (tagged key variant m) = Some (variant, JObject m)"
  using filter_members [of key m] by (simp add: untag_def tagged_def)

lemma as_fields_members [serde_simps]:
  assumes "fst ` set m \<subseteq> set names" "distinct (map fst m)"
  shows "as_fields names required (JObject m) = Some m"
proof -
  have "filter (\<lambda>(k, _). k \<in> set names) m = m" using assms(1) by (intro filter_True) auto
  with assms(2) show ?thesis by (simp add: as_fields_def)
qed

lemma unit_variant_object [serde_simps]: "unit_variant x (JObject m) = Some x"
  by (simp add: unit_variant_def)

lemma field_simps [serde_simps]:
  "field k rd ((k', j) # m) = (if k = k' then rd j else field k rd m)"
  "option_field k rd' ((k', j) # m) = (if k = k' then read_option rd' j else option_field k rd' m)"
  "option_field k rd' [] = Some None"
  "default_field k d rd ((k', j) # m) = (if k = k' then rd j else default_field k d rd m)"
  "default_field k d rd [] = Some d"
  by (simp_all add: field_def option_field_def default_field_def)

lemma member_simps [serde_simps]:
  "option_member k wr None = []" "option_member k wr (Some x) = [(k, wr x)]"
  "flag_member k True = [(k, JBool True)]" "flag_member k False = []"
  by (simp_all add: option_member_def flag_member_def)

lemma leaf_simps [serde_simps]:
  "read_str (JString s) = Some s" "read_bool (JBool b) = Some b" "read_uint (write_uint w) = Some w"
  "read_option rd JNull = Some None" "j \<noteq> JNull \<Longrightarrow> read_option rd j = map_option Some (rd j)"
  using uint_lt2p [of w]
  by (simp_all add: read_str_def read_bool_def read_uint_def write_uint_def read_option_def)

lemma json_reals_members [serde_simps]:
  "json_reals (write_uint w) = []" "json_reals (tagged key variant m) = json_reals (JObject m)"
  "write_uint w \<noteq> JNull" "tagged key variant m \<noteq> JNull"
  by (simp_all add: write_uint_def tagged_def)

section \<open>Every type of the program\<close>

lemma string_value: "serde_value JString read_str (\<lambda>s. True)"
  by unfold_locales (simp_all add: read_str_def)

interpretation v_string: serde_value JString read_str "\<lambda>s. True"
  by (rule string_value)

interpretation v_device_type: serde_value write_device_type "read_device_type buffered" "\<lambda>d. True" for buffered
proof unfold_locales
  fix d show "read_device_type buffered (write_device_type d) = Some d"
    by (cases d) (simp_all add: read_device_type_def read_unit_enum_def device_type_variants_def)
next
  fix d show "json_reals (write_device_type d) = []" "write_device_type d \<noteq> JNull" by (cases d; simp)+
qed

lemmas device_type_simps [serde_simps] = v_device_type.read_write v_device_type.no_reals v_device_type.not_null

interpretation v_metadata: serde_value write_metadata read_metadata "\<lambda>v. True"
proof unfold_locales
  fix v show "read_metadata (write_metadata v) = Some v"
    by (cases "modified v"; cases "accessed v") (simp_all add: read_metadata_def write_metadata_def serde_simps)
  show "json_reals (write_metadata v) = []" "write_metadata v \<noteq> JNull"
    by (auto simp: write_metadata_def option_member_def split: option.split)
qed

lemmas metadata_simps [serde_simps] = v_metadata.read_write v_metadata.no_reals v_metadata.not_null

interpretation v_file_dto: serde_value write_file_dto read_file_dto "\<lambda>v. True"
proof unfold_locales
  fix v show "read_file_dto (write_file_dto v) = Some v"
    by (cases "file_sha256 v"; cases "file_preview v"; cases "file_dto_metadata v")
      (simp_all add: read_file_dto_def write_file_dto_def serde_simps)
  show "json_reals (write_file_dto v) = []" "write_file_dto v \<noteq> JNull"
    by (auto simp: write_file_dto_def option_member_def serde_simps split: option.split)
qed

interpretation v_files: serde_value "\<lambda>xs. JArray (map write_file_dto xs)" "read_vec read_file_dto" "list_all (\<lambda>v. True)"
  by (rule v_file_dto.vec_value)

interpretation v_tokens: serde_value "write_map JString" "read_map read_str"
    "\<lambda>m. list_all ((\<lambda>s. True) \<circ> snd) m \<and> distinct (map fst m)"
  by (rule v_string.map_value)

lemmas compound_simps [serde_simps] = v_files.read_write v_files.no_reals v_tokens.read_write v_tokens.no_reals
  v_tokens.not_null

interpretation v_nonce: serde_value write_nonce_message read_nonce_message "\<lambda>v. True"
  by unfold_locales (simp_all add: write_nonce_message_def read_nonce_message_def serde_simps)

interpretation v_token_request: serde_value write_token_request read_token_request "\<lambda>v. True"
  by unfold_locales (simp_all add: write_token_request_def read_token_request_def serde_simps)

interpretation v_pin: serde_value write_pin_message read_pin_message "\<lambda>v. True"
  by unfold_locales (simp_all add: write_pin_message_def read_pin_message_def serde_simps)

interpretation v_header: serde_value write_header read_header "\<lambda>v. True"
  by unfold_locales (simp_all add: write_header_def read_header_def serde_simps)

interpretation v_token_response: serde_value write_token_response read_token_response "\<lambda>v. True"
proof unfold_locales
  fix r show "read_token_response (write_token_response r) = Some r"
    by (cases r) (simp_all add: read_token_response_def serde_simps)
  show "json_reals (write_token_response r) = []" "write_token_response r \<noteq> JNull"
    by (cases r; simp add: serde_simps)+
qed

interpretation v_pin_receiving: serde_value write_pin_receiving read_pin_receiving "\<lambda>v. True"
proof unfold_locales
  fix r show "read_pin_receiving (write_pin_receiving r) = Some r"
    by (cases r) (simp_all add: read_pin_receiving_def serde_simps)
  show "json_reals (write_pin_receiving r) = []" "write_pin_receiving r \<noteq> JNull"
    by (cases r; simp add: serde_simps)+
qed

interpretation v_pin_sending: serde_value write_pin_sending read_pin_sending "\<lambda>v. True"
proof unfold_locales
  fix r show "read_pin_sending (write_pin_sending r) = Some r"
    by (cases r) (simp_all add: read_pin_sending_def serde_simps list_all_iff)
  show "json_reals (write_pin_sending r) = []" "write_pin_sending r \<noteq> JNull"
    by (cases r; simp add: serde_simps v_files.no_reals [simplified])+
qed

interpretation v_file_list: serde_value write_file_list read_file_list ok_file_list
proof unfold_locales
  fix r assume "ok_file_list r"
  then show "read_file_list (write_file_list r) = Some r"
    by (cases r) (simp_all add: read_file_list_def serde_simps list_all_iff ok_file_list_def)
next
  fix r show "json_reals (write_file_list r) = []" "write_file_list r \<noteq> JNull"
    by (cases r; simp add: serde_simps)+
qed

section \<open>The signaling messages\<close>

lemma no_type_member [serde_simps]:
  "''type'' \<notin> fst ` set (sdp_members u m)" "''type'' \<notin> fst ` set (client_sdp_members u c)"
  by (simp_all add: sdp_members_def client_sdp_members_def)

locale uuid_text =
  fixes show_uuid :: "uuid \<Rightarrow> string"
    and parse_uuid :: "string \<Rightarrow> uuid option"
  assumes parse_show: "parse_uuid (show_uuid u) = Some u"
begin

lemma read_uuid_show: "read_uuid parse_uuid (JString (show_uuid u)) = Some u"
  by (simp add: read_uuid_def read_str_def parse_show)

lemma client_info_value: "serde_value (write_client_info show_uuid) (read_client_info parse_uuid) (\<lambda>v. True)"
proof unfold_locales
  fix v show "read_client_info parse_uuid (write_client_info show_uuid v) = Some v"
    by (cases "ci_device_model v"; cases "ci_device_type v")
      (simp_all add: read_client_info_def write_client_info_def serde_simps read_uuid_show)
  show "json_reals (write_client_info show_uuid v) = []" "write_client_info show_uuid v \<noteq> JNull"
    by (auto simp: write_client_info_def option_member_def serde_simps split: option.split)
qed

lemma sdp_read: "read_sdp_message parse_uuid (JObject (sdp_members show_uuid m)) = Some m"
  by (simp add: read_sdp_message_def sdp_members_def serde_simps
      serde_value.read_write [OF client_info_value])

lemma client_sdp_read: "read_client_sdp_message parse_uuid (JObject (client_sdp_members show_uuid m)) = Some m"
  by (simp add: read_client_sdp_message_def client_sdp_members_def serde_simps read_uuid_show)

end

interpretation v_without_id: serde_value write_client_info_without_id "read_client_info_without_id buffered" "\<lambda>v. True"
  for buffered
proof unfold_locales
  fix v show "read_client_info_without_id buffered (write_client_info_without_id v) = Some v"
    by (cases "cw_device_model v"; cases "cw_device_type v")
      (simp_all add: read_client_info_without_id_def write_client_info_without_id_def serde_simps)
next
  fix v show "json_reals (write_client_info_without_id v) = []" "write_client_info_without_id v \<noteq> JNull"
    by (auto simp: write_client_info_without_id_def option_member_def serde_simps split: option.split)
qed

lemmas without_id_simps [serde_simps] =
  v_without_id.read_write v_without_id.no_reals v_without_id.not_null

context uuid_text begin

lemmas client_simps =
  serde_value.read_write [OF client_info_value] serde_value.no_reals [OF client_info_value]
  serde_value.read_write [OF serde_value.vec_value [OF client_info_value]]
  serde_value.no_reals [OF serde_value.vec_value [OF client_info_value]]

lemma server_message_value:
  "serde_value (write_ws_server_message show_uuid) (read_ws_server_message parse_uuid) (\<lambda>m. True)"
proof unfold_locales
  fix m show "read_ws_server_message parse_uuid (write_ws_server_message show_uuid m) = Some m"
    by (cases m) (simp_all add: read_ws_server_message_def read_peer_variant_def serde_simps client_simps
        read_uuid_show sdp_read list_all_iff del: map_map)
  show "json_reals (write_ws_server_message show_uuid m) = []" "write_ws_server_message show_uuid m \<noteq> JNull"
    by (cases m; simp add: serde_simps client_simps [simplified] sdp_members_def)+
qed

lemma client_message_value:
  "serde_value (write_ws_client_message show_uuid) (read_ws_client_message parse_uuid) (\<lambda>m. True)"
proof unfold_locales
  fix m show "read_ws_client_message parse_uuid (write_ws_client_message show_uuid m) = Some m"
    by (cases m) (simp_all add: read_ws_client_message_def serde_simps client_sdp_read)
  show "json_reals (write_ws_client_message show_uuid m) = []" "write_ws_client_message show_uuid m \<noteq> JNull"
    by (cases m; simp add: serde_simps client_sdp_members_def)+
qed

end

section \<open>The HTTP messages\<close>

interpretation v_nonce_request: serde_value write_nonce_request read_nonce_request "\<lambda>v. True"
  by unfold_locales (simp_all add: write_nonce_request_def read_nonce_request_def serde_simps)

interpretation v_nonce_response: serde_value write_nonce_response read_nonce_response "\<lambda>v. True"
  by unfold_locales (simp_all add: write_nonce_response_def read_nonce_response_def serde_simps)

interpretation v_error_response: serde_value write_error_response read_error_response "\<lambda>v. True"
  by unfold_locales (simp_all add: write_error_response_def read_error_response_def serde_simps)

interpretation v_protocol_type: serde_value write_protocol_type read_protocol_type "\<lambda>v. True"
proof unfold_locales
  fix v show "read_protocol_type (write_protocol_type v) = Some v"
    by (cases v) (simp_all add: read_protocol_type_def read_unit_enum_def)
  show "json_reals (write_protocol_type v) = []" "write_protocol_type v \<noteq> JNull" by (cases v; simp)+
qed

lemmas protocol_simps [serde_simps] = v_protocol_type.read_write v_protocol_type.no_reals v_protocol_type.not_null

interpretation v_register_dto: serde_value write_register_dto read_register_dto "\<lambda>v. True"
proof unfold_locales
  fix v show "read_register_dto (write_register_dto v) = Some v"
    by (cases "reg_device_model v"; cases "reg_device_type v"; cases "reg_has_web_interface v")
      (simp_all add: read_register_dto_def write_register_dto_def serde_simps)
  show "json_reals (write_register_dto v) = []" "write_register_dto v \<noteq> JNull"
    by (auto simp: write_register_dto_def option_member_def flag_member_def serde_simps split: option.split)
qed

interpretation v_register_response: serde_value write_register_response read_register_response "\<lambda>v. True"
proof unfold_locales
  fix v show "read_register_response (write_register_response v) = Some v"
    by (cases "rr_device_model v"; cases "rr_device_type v"; cases "rr_has_web_interface v")
      (simp_all add: read_register_response_def write_register_response_def serde_simps)
  show "json_reals (write_register_response v) = []" "write_register_response v \<noteq> JNull"
    by (auto simp: write_register_response_def option_member_def flag_member_def serde_simps split: option.split)
qed

interpretation v_file_map: serde_value "write_map write_file_dto" "read_map read_file_dto"
    "\<lambda>m. list_all ((\<lambda>v. True) \<circ> snd) m \<and> distinct (map fst m)"
  by (rule v_file_dto.map_value)

lemmas http_simps [serde_simps] =
  v_register_dto.read_write v_register_dto.no_reals v_file_map.read_write v_file_map.no_reals

interpretation v_prepare_upload_request: serde_value write_prepare_upload_request read_prepare_upload_request
    "\<lambda>v. distinct (map fst (pu_files v))"
  by unfold_locales
    (simp_all add: write_prepare_upload_request_def read_prepare_upload_request_def serde_simps list_all_iff)

interpretation v_prepare_upload_response: serde_value write_prepare_upload_response read_prepare_upload_response
    "\<lambda>v. distinct (map fst (pu_tokens v))"
  by unfold_locales
    (simp_all add: write_prepare_upload_response_def read_prepare_upload_response_def serde_simps list_all_iff)

section \<open>The hyphenated form of a UUID\<close>

fun hex_pad :: "nat \<Rightarrow> nat \<Rightarrow> nat list" where
  "hex_pad 0 n = []"
| "hex_pad (Suc k) n = hex_pad k (n div 16) @ [n mod 16]"

definition print_uuid :: "uuid \<Rightarrow> string" where
  "print_uuid u =
     (let ds = map digit (hex_pad 32 (unat u)) in
      take 8 ds @ ''-'' @ take 4 (drop 8 ds) @ ''-'' @ take 4 (drop 12 ds) @ ''-'' @ take 4 (drop 16 ds) @ ''-'' @ drop 20 ds)"

definition parse_hyphenated :: "string \<Rightarrow> uuid option" where
  "parse_hyphenated cs =
     (if length cs = 36 \<and> map (\<lambda>i. cs ! i) [8, 13, 18, 23] = ''----'' then
        map_option (\<lambda>ds. word_of_nat (foldl (\<lambda>a d. a * 16 + d) 0 ds))
          (those (map (to_digit 16) (take 8 cs @ take 4 (drop 9 cs) @ take 4 (drop 14 cs) @ take 4 (drop 19 cs) @ drop 24 cs)))
      else None)"

lemma length_hex_pad [simp]: "length (hex_pad k n) = k"
  by (induction k arbitrary: n) simp_all

lemma hex_pad_value: "foldl (\<lambda>a d. a * 16 + d) 0 (hex_pad k n) = n mod 16 ^ k"
proof (induction k arbitrary: n)
  case (Suc k)
  have "n mod (16 * 16 ^ k) = 16 * (n div 16 mod 16 ^ k) + n mod 16" by (rule mod_mult2_eq)
  with Suc show ?case by (simp add: mult.commute)
qed simp

lemma hex_pad_digits: "list_all (\<lambda>d. d < 16) (hex_pad k n)"
  by (induction k arbitrary: n) simp_all

lemma those_digits: "list_all (\<lambda>d. d < 16) ds \<Longrightarrow> those (map (to_digit 16 \<circ> digit) ds) = Some ds"
  by (induction ds) (simp_all add: to_digit_hex)

lemma parse_print_uuid: "parse_hyphenated (print_uuid u) = Some u"
proof -
  let ?ds = "hex_pad 32 (unat u)"
  obtain a b c d e where ds: "?ds = a @ b @ c @ d @ e"
    and len: "length a = 8" "length b = 4" "length c = 4" "length d = 4" "length e = 12"
  proof
    show "?ds = take 8 ?ds @ take 4 (drop 8 ?ds) @ take 4 (drop 12 ?ds) @ take 4 (drop 16 ?ds) @ drop 20 ?ds"
      by (simp add: append_take_drop_id take_add [symmetric] flip: append_assoc drop_drop)
  qed simp_all
  have "print_uuid u = map digit a @ ''-'' @ map digit b @ ''-'' @ map digit c @ ''-'' @ map digit d @ ''-'' @ map digit e"
    using len by (simp add: print_uuid_def ds)
  moreover have "those (map (to_digit 16 \<circ> digit) (a @ b @ c @ d @ e)) = Some ?ds"
    using those_digits [OF hex_pad_digits] ds by metis
  moreover have "unat u < 16 ^ 32" using unsigned_less [where 'a = nat, of u] by simp
  ultimately show ?thesis
    using len by (simp add: parse_hyphenated_def nth_append hex_pad_value)
qed

interpretation rfc9562: uuid_text print_uuid parse_hyphenated
  by unfold_locales (rule parse_print_uuid)

section \<open>Members that are skipped\<close>

lemma as_fields_skip:
  "k \<notin> set names \<Longrightarrow> as_fields names required (JObject (m @ (k, j) # m')) = as_fields names required (JObject (m @ m'))"
  by (simp add: as_fields_def)

lemma unit_variant_skip: "unit_variant x (JObject (m @ p # m')) = unit_variant x (JObject (m @ m'))"
  by (simp add: unit_variant_def)

lemma untag_skip:
  assumes "k \<noteq> key" "\<And>v a b. F (v, JObject (a @ (k, j) # b)) = F (v, JObject (a @ b))"
  shows "Option.bind (untag key (JObject (m @ (k, j) # m'))) F = Option.bind (untag key (JObject (m @ m'))) F"
  using assms by (simp add: untag_def split: list.splits json.splits)

lemmas skip_simps = as_fields_skip unit_variant_skip

text \<open>Every member name of a message.\<close>

definition known_members :: "string set" where
  "known_members = {''type'', ''status'', ''client'', ''peers'', ''peer'', ''peerId'', ''sessionId'', ''sdp'', ''code'',
     ''info'', ''target'', ''id'', ''alias'', ''version'', ''deviceModel'', ''deviceType'', ''token'', ''nonce'', ''pin'',
     ''files'', ''publicKey'', ''fileName'', ''size'', ''fileType'', ''sha256'', ''preview'', ''metadata'', ''modified'',
     ''accessed'', ''port'', ''protocol'', ''hasWebInterface'', ''message''}"

lemma skip_struct:
  assumes "k \<notin> known_members"
  shows "read_client_info_without_id buffered (JObject (m @ (k, j) # m')) = read_client_info_without_id buffered (JObject (m @ m'))"
    and "read_client_info V (JObject (m @ (k, j) # m')) = read_client_info V (JObject (m @ m'))"
    and "read_sdp_message V (JObject (m @ (k, j) # m')) = read_sdp_message V (JObject (m @ m'))"
    and "read_client_sdp_message V (JObject (m @ (k, j) # m')) = read_client_sdp_message V (JObject (m @ m'))"
    and "read_file_dto (JObject (m @ (k, j) # m')) = read_file_dto (JObject (m @ m'))"
    and "read_header (JObject (m @ (k, j) # m')) = read_header (JObject (m @ m'))"
    and "read_register_dto (JObject (m @ (k, j) # m')) = read_register_dto (JObject (m @ m'))"
    and "read_prepare_upload_response (JObject (m @ (k, j) # m')) = read_prepare_upload_response (JObject (m @ m'))"
  using assms
  by (simp_all add: read_client_info_without_id_def read_client_info_def read_sdp_message_def read_client_sdp_message_def
      read_file_dto_def read_header_def read_register_dto_def read_prepare_upload_response_def as_fields_skip known_members_def)

lemma skip_enum:
  assumes "k \<notin> known_members"
  shows "read_ws_server_message V (JObject (m @ (k, j) # m')) = read_ws_server_message V (JObject (m @ m'))"
    and "read_ws_client_message V (JObject (m @ (k, j) # m')) = read_ws_client_message V (JObject (m @ m'))"
    and "read_token_response (JObject (m @ (k, j) # m')) = read_token_response (JObject (m @ m'))"
    and "read_pin_receiving (JObject (m @ (k, j) # m')) = read_pin_receiving (JObject (m @ m'))"
    and "read_pin_sending (JObject (m @ (k, j) # m')) = read_pin_sending (JObject (m @ m'))"
    and "read_file_list (JObject (m @ (k, j) # m')) = read_file_list (JObject (m @ m'))"
proof -
  have k: "k \<noteq> ''type''" "k \<noteq> ''status''" "k \<notin> {''client'', ''peers'', ''peer'', ''peerId'', ''code'', ''info'', ''files'', ''publicKey'', ''token''}"
    using assms by (simp_all add: known_members_def)
  show "read_ws_server_message V (JObject (m @ (k, j) # m')) = read_ws_server_message V (JObject (m @ m'))"
    unfolding read_ws_server_message_def
    by (rule untag_skip) (use k in \<open>simp_all add: skip_simps read_peer_variant_def skip_struct [OF assms]\<close>)
  show "read_ws_client_message V (JObject (m @ (k, j) # m')) = read_ws_client_message V (JObject (m @ m'))"
    unfolding read_ws_client_message_def
    by (rule untag_skip) (use k in \<open>simp_all add: skip_simps skip_struct [OF assms]\<close>)
  show "read_token_response (JObject (m @ (k, j) # m')) = read_token_response (JObject (m @ m'))"
    unfolding read_token_response_def by (rule untag_skip) (use k in \<open>simp_all add: skip_simps\<close>)
  show "read_pin_receiving (JObject (m @ (k, j) # m')) = read_pin_receiving (JObject (m @ m'))"
    unfolding read_pin_receiving_def by (rule untag_skip) (use k in \<open>simp_all add: skip_simps\<close>)
  show "read_pin_sending (JObject (m @ (k, j) # m')) = read_pin_sending (JObject (m @ m'))"
    unfolding read_pin_sending_def by (rule untag_skip) (use k in \<open>simp_all add: skip_simps\<close>)
  show "read_file_list (JObject (m @ (k, j) # m')) = read_file_list (JObject (m @ m'))"
    unfolding read_file_list_def by (rule untag_skip) (use k in \<open>simp_all add: skip_simps\<close>)
qed

section \<open>Spellings that are refused\<close>

lemma read_device_type_refused:
  "s \<notin> fst ` set device_type_variants \<Longrightarrow> read_device_type buffered (JString s) = None"
  by (simp add: read_device_type_def read_unit_enum_def map_of_eq_None_iff)

lemma map_of_known: "k \<in> K \<Longrightarrow> map_of (filter (\<lambda>(k, _). k \<in> K) m) k = map_of m k"
  by (induction m) auto

lemma option_field_refused:
  assumes "map_of m k = Some j" "j \<noteq> JNull" "rd j = None" "as_fields names required (JObject m) = Some fs" "k \<in> set names"
  shows "option_field k rd fs = None"
  using assms map_of_known [OF assms(5), of m]
  by (auto simp: as_fields_def option_field_def read_option_def Let_def split: if_splits)

end
