(* ===== verification/Protocol_Text.thy ===== *)
theory Protocol_Text
  imports Serde_Json File_Transfer Http_Client Signaling_Join
begin

text \<open>
  The protocols over their real texts: the JSON arguments of the transfer tasks, of the HTTP parts
  and of the signaling parts, built from the readers and writers of \<open>Serde_Json\<close> and a JSON
  engine. The facts discharge the contracts those parts were proved under (\<open>codec_ok\<close>,
  \<open>nonce_json_ok\<close>) from the laws of the engine, follow a client description from
  \<open>SignalingConnection::connect\<close> through \<open>ws_handler\<close> and back, and show which members
  and spellings a receiver tolerates.
\<close>

section \<open>serde_json::to_string and serde_json::from_str\<close>

definition json_bytes :: "(json \<Rightarrow> string) \<Rightarrow> ('a \<Rightarrow> json) \<Rightarrow> 'a \<Rightarrow> bytes" where
  "json_bytes to_text wr x = as_bytes (to_text (wr x))"

definition of_json_bytes :: "(string \<Rightarrow> json option) \<Rightarrow> (json \<Rightarrow> 'a option) \<Rightarrow> bytes \<Rightarrow> 'a option" where
  "of_json_bytes of_text rd b = Option.bind (of_text (bytes_string b)) rd"

text \<open>The messages of \<open>core/src/webrtc/webrtc.rs\<close>.\<close>

definition serde_codec :: "(json \<Rightarrow> string) \<Rightarrow> (string \<Rightarrow> json option) \<Rightarrow> rtc_codec" where
  "serde_codec to_text of_text = \<lparr>
     ser_nonce = json_bytes to_text write_nonce_message, de_nonce = of_json_bytes of_text read_nonce_message,
     ser_token_request = json_bytes to_text write_token_request,
     de_token_request = of_json_bytes of_text read_token_request,
     ser_token_response = json_bytes to_text write_token_response,
     de_token_response = of_json_bytes of_text read_token_response,
     ser_pin = json_bytes to_text write_pin_message, de_pin = of_json_bytes of_text read_pin_message,
     ser_pin_receiving = json_bytes to_text write_pin_receiving,
     de_pin_receiving = of_json_bytes of_text read_pin_receiving,
     ser_pin_sending = json_bytes to_text write_pin_sending,
     de_pin_sending = of_json_bytes of_text read_pin_sending,
     ser_file_list = json_bytes to_text write_file_list, de_file_list = of_json_bytes of_text read_file_list,
     ser_pair = json_bytes to_text write_pair,
     ser_header = json_bytes to_text write_header, de_header = of_json_bytes of_text read_header,
     ser_file_response = json_bytes to_text write_file_response \<rparr>"

text \<open>The messages of \<open>core/src/http\<close>; writing them never fails.\<close>

definition serde_json_lib :: "(json \<Rightarrow> string) \<Rightarrow> (string \<Rightarrow> json option) \<Rightarrow> (nat \<Rightarrow> string) \<Rightarrow> json_lib" where
  "serde_json_lib to_text of_text display = \<lparr>
     de_nonce_request = of_json_bytes of_text read_nonce_request, ser_nonce_request = to_text \<circ> write_nonce_request,
     de_nonce_response = of_json_bytes of_text read_nonce_response,
     ser_nonce_response = Some \<circ> to_text \<circ> write_nonce_response,
     de_register_dto = of_json_bytes of_text read_register_dto, ser_register_dto = to_text \<circ> write_register_dto,
     de_register_response = of_json_bytes of_text read_register_response,
     ser_register_response = Some \<circ> to_text \<circ> write_register_response,
     ser_prepare_upload = to_text \<circ> write_prepare_upload_request,
     de_prepare_upload_response = of_json_bytes of_text read_prepare_upload_response,
     de_error_response = of_json_bytes of_text read_error_response,
     ser_error_response = Some \<circ> to_text \<circ> write_error_response,
     status_display = display \<rparr>"

text \<open>The messages of \<open>core/src/webrtc/signaling.rs\<close> and \<open>ws_controller.rs\<close>.\<close>

definition client_info_text :: "(json \<Rightarrow> string) \<Rightarrow> client_info_without_id \<Rightarrow> string" where
  "client_info_text to_text info = to_text (write_client_info_without_id info)"

definition client_info_of_text :: "(string \<Rightarrow> json option) \<Rightarrow> string \<Rightarrow> client_info_without_id option" where
  "client_info_of_text of_text t = Option.bind (of_text t) (read_client_info_without_id False)"

definition server_message_text :: "(json \<Rightarrow> string) \<Rightarrow> (uuid \<Rightarrow> string) \<Rightarrow> ws_server_message \<Rightarrow> string" where
  "server_message_text to_text show_uuid m = to_text (write_ws_server_message show_uuid m)"

definition server_message_of_text ::
  "(string \<Rightarrow> json option) \<Rightarrow> (string \<Rightarrow> uuid option) \<Rightarrow> string \<Rightarrow> ws_server_message option" where
  "server_message_of_text of_text parse_uuid t = Option.bind (of_text t) (read_ws_server_message parse_uuid)"

definition client_message_text :: "(json \<Rightarrow> string) \<Rightarrow> (uuid \<Rightarrow> string) \<Rightarrow> ws_client_message \<Rightarrow> string" where
  "client_message_text to_text show_uuid m = to_text (write_ws_client_message show_uuid m)"

definition client_message_of_text ::
  "(string \<Rightarrow> json option) \<Rightarrow> (string \<Rightarrow> uuid option) \<Rightarrow> string \<Rightarrow> ws_client_message option" where
  "client_message_of_text of_text parse_uuid t = Option.bind (of_text t) (read_ws_client_message parse_uuid)"

section \<open>Facts\<close>

context json_text begin

lemma of_bytes:
  assumes "serde_value wr rd ok" "ok x"
  shows "of_json_bytes of_text rd (json_bytes to_text wr x) = Some x"
    and "Option.bind (of_text (to_text (wr x))) rd = Some x"
  using assms by (simp_all add: of_json_bytes_def json_bytes_def of_text_to_text serde_value.no_reals serde_value.read_write)

lemma serde_codec_contract: "codec_ok (serde_codec to_text of_text)"
proof -
  have "2 \<le> length (json_bytes to_text write_header h)" for h
    by (simp add: json_bytes_def write_header_def object_text)
  then show ?thesis
    unfolding codec_ok_def serde_codec_def
    by (simp add: of_bytes(1) [OF v_nonce.serde_value_axioms] of_bytes(1) [OF v_token_request.serde_value_axioms]
        of_bytes(1) [OF v_token_response.serde_value_axioms] of_bytes(1) [OF v_pin.serde_value_axioms]
        of_bytes(1) [OF v_pin_receiving.serde_value_axioms] of_bytes(1) [OF v_pin_sending.serde_value_axioms]
        of_bytes(1) [OF v_file_list.serde_value_axioms] of_bytes(1) [OF v_header.serde_value_axioms] less_eq_Suc_le
        numeral_2_eq_2)
qed

lemma serde_json_lib_contract: "nonce_json_ok (serde_json_lib to_text of_text display)"
  using of_bytes(1) [OF v_nonce_request.serde_value_axioms] of_bytes(1) [OF v_nonce_response.serde_value_axioms]
  by (simp add: nonce_json_ok_def serde_json_lib_def json_bytes_def)

end

definition utf8_client_info :: "client_info_without_id \<Rightarrow> bool" where
  "utf8_client_info info \<longleftrightarrow>
     utf8_string (cw_alias info) \<and> utf8_string (cw_version info) \<and> utf8_string (cw_token info) \<and>
     pred_option utf8_string (cw_device_model info)"

text \<open>Literals are ASCII, hence valid.\<close>

lemma utf8_member_names:
  "list_all utf8_string [''alias'', ''version'', ''deviceModel'', ''deviceType'', ''token'',
     ''MOBILE'', ''DESKTOP'', ''WEB'', ''HEADLESS'', ''SERVER'']"
  by (simp add: utf8_string_ascii)

lemma utf8_write_client_info:
  "utf8_client_info info \<Longrightarrow> list_all utf8_string (json_strings (write_client_info_without_id info))"
  using utf8_member_names
  by (cases "cw_device_model info"; cases "cw_device_type info"; cases "the (cw_device_type info)")
    (simp_all add: utf8_client_info_def write_client_info_without_id_def option_member_def)

context json_text begin

lemma client_info_text_read:
  "client_info_of_text of_text (client_info_text to_text info) = Some info"
  using of_bytes(2) [OF v_without_id.serde_value_axioms [of False]]
  by (simp add: client_info_of_text_def client_info_text_def)

lemma client_info_text_utf8:
  "utf8_client_info info \<Longrightarrow> from_utf8 (as_bytes (client_info_text to_text info)) = Some (client_info_text to_text info)"
  by (simp add: client_info_text_def from_utf8_text utf8_text utf8_write_client_info v_without_id.no_reals)

lemma server_message_text_read:
  "uuid_text U V \<Longrightarrow> server_message_of_text of_text V (server_message_text to_text U m) = Some m"
  using of_bytes(2) [OF uuid_text.server_message_value]
  by (simp add: server_message_of_text_def server_message_text_def)

lemma client_message_text_read:
  "uuid_text U V \<Longrightarrow> client_message_of_text of_text V (client_message_text to_text U m) = Some m"
  using of_bytes(2) [OF uuid_text.client_message_value]
  by (simp add: client_message_of_text_def client_message_text_def)

end

section \<open>Properties\<close>

text \<open>
  C9: over any JSON engine that reads back what it prints, the messages of the transfer protocol
  and of the nonce exchange, written and read as the attributes of their types say, satisfy the
  contracts the transfer tasks and the HTTP parts rely on.
\<close>

theorem serde_json_contracts:
  assumes "json_text to_text of_text"
  shows "codec_ok (serde_codec to_text of_text) \<and> nonce_json_ok (serde_json_lib to_text of_text display)"
  using json_text.serde_codec_contract [OF assms] json_text.serde_json_lib_contract [OF assms] by blast

theorem serde_json_contracts_witness:
  "codec_ok (serde_codec print_json parse_json) \<and> nonce_json_ok (serde_json_lib print_json parse_json (\<lambda>n. []))"
  by (rule serde_json_contracts [OF rfc8259.json_text_axioms])

text \<open>
  C25: every message between a signaling client and the server is read back as it was written, in
  both directions.
\<close>

theorem signaling_messages_roundtrip:
  assumes "json_text to_text of_text" "uuid_text show_uuid parse_uuid"
  shows "server_message_of_text of_text parse_uuid (server_message_text to_text show_uuid m) = Some m \<and>
     client_message_of_text of_text parse_uuid (client_message_text to_text show_uuid c) = Some c"
  using json_text.server_message_text_read [OF assms] json_text.client_message_text_read [OF assms] by blast

theorem signaling_messages_roundtrip_witness:
  "server_message_of_text parse_json parse_hyphenated (server_message_text print_json print_uuid (Left 7)) = Some (Left 7) \<and>
   client_message_of_text parse_json parse_hyphenated
     (client_message_text print_json print_uuid (ClientUpdate demo_client)) = Some (ClientUpdate demo_client)"
  by (rule signaling_messages_roundtrip [OF rfc8259.json_text_axioms rfc9562.uuid_text_axioms])

text \<open>
  C10: the way of a connection from the address the client opens to what \<open>connect\<close> returns. The
  server decodes exactly the description the client sent, under its own id, for the room of the
  address. If the room has a place and a request left, the client is registered there with that
  description, and nobody else's entry changes; then, whatever the server does afterwards, a client
  whose socket carries the messages of its channel returns exactly its own description under that
  id, once the greeting is among them and at most one message overtook it, and otherwise waits, or
  panics when the socket ends first. If not, no entry changes, and a client that reads the refusal
  panics.
\<close>

theorem connect_registers_client:
  assumes json: "json_text to_text of_text" "uuid_text show_uuid parse_uuid"
    and b64: "base64_engine (base64_encode L) (base64_decode L)" and utf8: "utf8_client_info info"
    and d: "d = encode L (as_bytes (client_info_text to_text info))" and g: "g = get_ip_group (client_ip xff addr)"
    and server: "reachable cfg w" "exec cfg (EvConnect g info new_uuid tx) w = Some w1"
      "run_events (exec cfg) es w1 = Some w2"
    and socket: "connect_async (uri @ ''?d='' @ d) = Some socket"
    and plain: "of_text ''Limit reached'' = None"
  shows "ws_handler (base64_decode L) (client_info_of_text of_text) new_uuid d xff addr =
       Inr (g, client_info_from info new_uuid) \<and>
     (let connected = signaling_connect L (Some \<circ> client_info_text to_text)
            (server_message_of_text of_text parse_uuid) connect_async uri info;
          carried = chan_messages w2 tx
      in if room_open cfg (w_app w) g
         then entry (w_app w1) g new_uuid = Some \<lparr> cs_client = info, cs_tx = tx \<rparr> \<and>
           (\<forall>g' j. (g', j) \<noteq> (g, new_uuid) \<longrightarrow> entry (w_app w1) g' j = entry (w_app w) g' j) \<and>
           (ws_frames socket = server_frames (server_message_text to_text show_uuid) carried \<longrightarrow>
              connected =
                (if 1 < overtakers carried then None
                 else if list_ex is_greeting carried then Some (Ok (client_info_from info new_uuid))
                 else if ws_closed socket then Some (Panic ''called `Option::unwrap()` on a `None` value'') else None))
         else entry (w_app w1) = entry (w_app w) \<and> (new_uuid, ''Limit reached'') \<in> set (w_refused w1) \<and>
           (socket = \<lparr> ws_frames = refusal_frames, ws_closed = True \<rparr> \<longrightarrow>
              connected = Some (Panic ''called `Option::unwrap()` on a `None` value'')))"
proof -
  have handler: "ws_handler (base64_decode L) (client_info_of_text of_text) new_uuid d xff addr =
       Inr (g, client_info_from info new_uuid)"
    using json_text.client_info_text_utf8 [OF json(1) utf8] json_text.client_info_text_read [OF json(1)]
      base64_engine.dec_enc [OF b64]
    by (simp add: ws_handler_def d g encode_def)
  have written: "(Some \<circ> client_info_text to_text) info = Some (client_info_text to_text info)" by simp
  have opened: "connect_async (signaling_uri L (client_info_text to_text info) uri) = Some socket"
    using socket by (simp add: signaling_uri_def d)
  have refusal: "server_message_of_text of_text parse_uuid ''Limit reached'' = None"
    using plain by (simp add: server_message_of_text_def)
  note connected = admitted_connect [where to_json = "Some \<circ> client_info_text to_text" and connect_async = connect_async
        and L = L and uri = uri and from_json = "server_message_of_text of_text parse_uuid"
        and to_text = "server_message_text to_text show_uuid", OF reachable_world_ok [OF server(1)] server(2) _ server(3)
      json_text.server_message_text_read [OF json] _ written opened]
  from handler connect_event [OF server(2)] connected
    refused_connect [where to_json = "Some \<circ> client_info_text to_text" and connect_async = connect_async
        and L = L and uri = uri and from_json = "server_message_of_text of_text parse_uuid", OF refusal written] opened
  show ?thesis by (simp add: Let_def)
qed

text \<open>Joining the room of the server's own demonstration run, where two peers are; the texts are real.\<close>

definition greeted_world :: ws_world where
  "greeted_world = the (run_events (exec default_config)
     [EvConnect ''10.0.0.7'' demo_client 7 17, EvSend 7, EvSend 7, EvSend 7] demo_world)"

theorem connect_registers_client_witness:
  "ws_handler (base64_decode demo_crypto) (client_info_of_text parse_json) 7
       (encode demo_crypto (as_bytes (client_info_text print_json demo_client))) None (V4 10 0 0 7) =
     Inr (''10.0.0.7'', client_info_from demo_client 7) \<and>
   entry (w_app greeted_world) ''10.0.0.7'' 7 = Some \<lparr> cs_client = demo_client, cs_tx = 17 \<rparr> \<and>
   signaling_connect demo_crypto (Some \<circ> client_info_text print_json)
       (server_message_of_text parse_json parse_hyphenated)
       (\<lambda>uri. Some \<lparr> ws_frames = server_frames (server_message_text print_json print_uuid) (chan_messages greeted_world 17),
          ws_closed = False \<rparr>) ''ws'' demo_client =
     Some (Ok (client_info_from demo_client 7))"
proof -
  let ?d = "encode demo_crypto (as_bytes (client_info_text print_json demo_client))"
  let ?join = "EvConnect ''10.0.0.7'' demo_client 7 17"
  define w1 where "w1 = the (exec default_config ?join demo_world)"
  have step: "exec default_config ?join demo_world = Some w1"
    unfolding w1_def demo_world_def by (rule option.collapse [symmetric]) code_simp
  have run: "run_events (exec default_config) [EvSend 7, EvSend 7, EvSend 7] w1 = Some greeted_world"
    unfolding greeted_world_def w1_def demo_world_def by code_simp
  have room: "room_open default_config (w_app demo_world) ''10.0.0.7''"
    unfolding demo_world_def by code_simp
  have carried: "overtakers (chan_messages greeted_world 17) = 0" "list_ex is_greeting (chan_messages greeted_world 17)"
    unfolding greeted_world_def demo_world_def by code_simp+
  have same: "entry (w_app greeted_world) ''10.0.0.7'' 7 = entry (w_app w1) ''10.0.0.7'' 7"
    unfolding greeted_world_def w1_def demo_world_def by code_simp
  have utf8: "utf8_client_info demo_client"
    by (simp add: utf8_client_info_def demo_client_def utf8_string_ascii)
  have plain: "parse_json ''Limit reached'' = None" by code_simp
  have group: "''10.0.0.7'' = get_ip_group (client_ip None (V4 10 0 0 7))" by code_simp
  note joined = connect_registers_client [OF rfc8259.json_text_axioms rfc9562.uuid_text_axioms demo_base64 utf8 refl group
      demo_reachable step run, of "\<lambda>uri. Some \<lparr> ws_frames = server_frames (server_message_text print_json print_uuid)
        (chan_messages greeted_world 17), ws_closed = False \<rparr>" "''ws''", OF refl plain]
  from joined room carried same show ?thesis by (simp add: Let_def)
qed

text \<open>
  A member no message of the program has is skipped wherever it stands, so that a newer peer can
  add members: what is read depends on the known members only.
\<close>

theorem unknown_members_ignored:
  assumes "k \<notin> known_members"
  shows "read_ws_server_message V (JObject (m @ (k, j) # m')) = read_ws_server_message V (JObject (m @ m')) \<and>
     read_ws_client_message V (JObject (m @ (k, j) # m')) = read_ws_client_message V (JObject (m @ m')) \<and>
     read_client_info V (JObject (m @ (k, j) # m')) = read_client_info V (JObject (m @ m')) \<and>
     read_client_info_without_id buffered (JObject (m @ (k, j) # m')) = read_client_info_without_id buffered (JObject (m @ m')) \<and>
     read_token_response (JObject (m @ (k, j) # m')) = read_token_response (JObject (m @ m')) \<and>
     read_pin_sending (JObject (m @ (k, j) # m')) = read_pin_sending (JObject (m @ m')) \<and>
     read_file_dto (JObject (m @ (k, j) # m')) = read_file_dto (JObject (m @ m')) \<and>
     read_file_list (JObject (m @ (k, j) # m')) = read_file_list (JObject (m @ m')) \<and>
     read_register_dto (JObject (m @ (k, j) # m')) = read_register_dto (JObject (m @ m'))"
  by (intro conjI skip_struct [OF assms] skip_enum [OF assms])

theorem unknown_members_ignored_witness:
  "read_file_list (JObject [(''status'', JString ''DECLINED''), (''reason'', JReal ''1.5'')]) = Some FileListDeclined"
  using unknown_members_ignored [of "''reason''" _ "[(''status'', JString ''DECLINED'')]" "JReal ''1.5''" "[]"]
    v_file_list.read_write [of FileListDeclined]
  by (simp add: known_members_def tagged_def ok_file_list_def)

text \<open>
  A device type is accepted in its five upper-case spellings only; with any other string the
  whole message is refused, the lower-case spelling the tests of \<open>signaling.rs\<close> expect included.
\<close>

theorem device_type_spelling:
  assumes "map_of m ''deviceType'' = Some (JString s)" "s \<notin> fst ` set device_type_variants"
  shows "read_client_info V (JObject m) = None \<and> read_client_info_without_id buffered (JObject m) = None \<and>
     read_register_dto (JObject m) = None"
proof -
  note refused = option_field_refused [OF assms(1), where rd = "read_device_type b" for b,
      OF _ read_device_type_refused [OF assms(2)], simplified]
  show ?thesis
    by (auto simp: read_client_info_def read_client_info_without_id_def read_register_dto_def bind_eq_None_conv refused)
qed

text \<open>The object \<open>ws_client_update_message_encoding\<close> expects.\<close>

theorem device_type_spelling_witness:
  "read_client_info_without_id True (JObject [(''alias'', JString ''Cute Apple''), (''version'', JString ''2.3''),
     (''deviceModel'', JString ''Dell''), (''deviceType'', JString ''desktop''), (''token'', JString ''123'')]) = None"
  using device_type_spelling [where s = "''desktop''" and m = "[(''alias'', JString ''Cute Apple''), (''version'', JString ''2.3''),
     (''deviceModel'', JString ''Dell''), (''deviceType'', JString ''desktop''), (''token'', JString ''123'')]"]
  by (simp add: device_type_variants_def)

end
