(* ===== verification/Demo_Program.thy ===== *)
theory Demo_Program
  imports Transfer_Runs Peer_Connection Http_Listener Protocol_Text
begin

text \<open>
  The binary of the crate, \<open>core/src/main.rs\<close>: a program that exercises the crate end to end. It
  waits on the signaling server for a peer and sends it a file or receives one, with PINs on both
  sides, and then runs an HTTP client against an HTTP server of the crate.

  What the operating system does is an argument: how many bytes a read returns, whether a file can
  be created and which call of \<open>write_all\<close> fails. The file a write leaves behind is the data
  handed to it. The two PEM constants \<open>PRIVATE_KEY\<close> and \<open>CERT\<close> are arguments too: nothing
  depends on their bytes.

  The facts: the file the sender reads from disk is the file the receiver writes, byte for byte; the
  loop serves offers until the first peer joins; the HTTP client always fails at its third request.
\<close>

section \<open>Tokens\<close>

definition TEST_PUBLIC_KEY :: string where
  "TEST_PUBLIC_KEY = join_with (CHR 0x0A)
     [''-----BEGIN PUBLIC KEY-----'', ''MCowBQYDK2VwAyEAZmdXP230oqK92o65ra3XaF2F8r3+fK5DEBK4c40qVts='',
      ''-----END PUBLIC KEY-----'']"

definition TEST_TOKEN :: string where
  "TEST_TOKEN = ''sha256.RikOdJlAUTdMVFZjEk7Bft5G9cxnNBBLfgttPpyS2FY.hJCuZwAAAAA.ed25519.iNgHrRzX2Iel-Ozj47yn5o5v0cGY_BswK6JYqwY65j7Krpr43KanAaCrjUng7gHtc2pCcylUrKswR_rxyswhDA''"

text \<open>What \<open>crypto_test\<close> prints: the two keys, a token, and the result of a verification.\<close>

definition crypto_test ::
  "('sk, 'vk, 'rk) crypto_lib \<Rightarrow> bytes \<Rightarrow> u64 option \<Rightarrow> (string \<times> string \<times> string \<times> unit res) res" where
  "crypto_test L os_rng now =
     (let key = generate_key L os_rng in
      res_bind (export_private_key L key) (\<lambda>pem.
      res_bind (export_public_key L key) (\<lambda>public_key.
      res_bind (generate_token_timestamp L now key) (\<lambda>fingerprint.
      res_bind (parse_public_key L TEST_PUBLIC_KEY ''ed25519'') (\<lambda>parsed_key.
      case verify_token_with_result L parsed_key TEST_TOKEN (\<lambda>_. Ok ()) of
        Panic p \<Rightarrow> Panic p
      | signature \<Rightarrow> Ok (pem, public_key, fingerprint, signature))))))"

section \<open>HTTP\<close>

definition server_test_info :: http_client_info where
  "server_test_info =
     \<lparr> hi_alias = ''Server-Test'', hi_version = ''1.2.3'', hi_device_model = None, hi_device_type = None,
       hi_token = ''456'' \<rparr>"

text \<open>
  \<open>server_test\<close> starts the server with TLS and the old protocol, then sleeps: what it starts, on
  which environment.
\<close>

definition server_test ::
  "('sk, 'vk, 'rk, 'cert, 'spki, 'pk, 'c) http_env \<Rightarrow> ('der, 'key) tls_lib \<Rightarrow> (address_family \<Rightarrow> bool) \<Rightarrow>
     string \<Rightarrow> string \<Rightarrow> ('der, 'key) listener_env \<times> unit res \<times> 'c listener_world" where
  "server_test E tls_lib can_bind private_key cert =
     (\<lparr> ln_tls_lib = tls_lib, ln_bind = can_bind,
        ln_tls = Some \<lparr> tls_cert = cert, tls_private_key = private_key \<rparr>, ln_legacy = True \<rparr>,
      start_with_port E server_test_info)"

definition test_register_dto :: register_dto where
  "test_register_dto =
     \<lparr> reg_alias = ''test 2'', reg_version = ''2.3'', reg_device_model = Some ''test'',
       reg_device_type = Some Headless, reg_token = ''test'', reg_port = 53317, reg_protocol = Https,
       reg_has_web_interface = False \<rparr>"

definition test_file :: "u64 \<Rightarrow> file_dto" where
  "test_file n =
     \<lparr> file_dto_id = ''test-123-id'', file_name = ''test.mp4'', file_size = n, file_type = ''video/mp4'',
       file_sha256 = None, file_preview = None, file_dto_metadata = None \<rparr>"

definition test_prepare_upload_dto :: prepare_upload_request_dto where
  "test_prepare_upload_dto = \<lparr> pu_info = test_register_dto, pu_files = [(''test-123-id'', test_file 1000)] \<rparr>"

text \<open>
  The program logs at level debug, so the call \<open>nonce\<close> formats its debug output. \<open>post\<close> is the
  network as the built client reaches it.
\<close>

definition client_test ::
  "('sk, 'vk, 'rk, 'cert, 'spki, 'pk, 'c) http_env \<Rightarrow> (bytes \<Rightarrow> 'id option) \<Rightarrow> ('id \<Rightarrow> 'client option) \<Rightarrow>
     string \<Rightarrow> string \<Rightarrow> (nat \<Rightarrow> bytes) \<Rightarrow> ('client \<Rightarrow> 'n transport) \<Rightarrow> 'n \<Rightarrow> unit client_result \<times> 'n" where
  "client_test E identity_from_pem build private_key cert rng post net =
     (case http_client_try_new (he_lru E) identity_from_pem build private_key cert of
        Inl e \<Rightarrow> (Inl e, net)
      | Inr (client, c) \<Rightarrow>
          (case client_nonce E rng True (post client) Https ''localhost'' 53317 c net of
             (Inl e, c1, net1) \<Rightarrow> (Inl e, net1)
           | (Inr nonce, c1, net1) \<Rightarrow>
               (case client_register E (post client) Https ''localhost'' 53317 test_register_dto net1 of
                  (Inl e, net2) \<Rightarrow> (Inl e, net2)
                | (Inr response, net2) \<Rightarrow>
                    (case client_prepare_upload E (post client) Https ''localhost'' 53317
                            (rres_public_key response) test_prepare_upload_dto net2 of
                       (Inl e, net3) \<Rightarrow> (Inl e, net3)
                     | (Inr prepared, net3) \<Rightarrow> (Inr (), net3)))))"

section \<open>Files\<close>

definition READ_BUFFER :: nat where
  "READ_BUFFER = 1024"

text \<open>
  \<open>os_read rest\<close> is how many bytes the next read of \<open>rest\<close> would like to return, \<open>gone n\<close> whether
  the receiver is dropped at the \<open>n\<close>-th send. A read of no byte ends the loop.
\<close>

function read_file_loop ::
  "(bytes \<Rightarrow> nat res) \<Rightarrow> (nat \<Rightarrow> bool) \<Rightarrow> bytes \<Rightarrow> bytes list \<Rightarrow> unit res \<times> bytes list" where
  "read_file_loop os_read gone rest sent =
     (case os_read rest of
        Err e \<Rightarrow> (Err e, sent)
      | Panic p \<Rightarrow> (Panic p, sent)
      | Ok k \<Rightarrow>
          (let bytes_read = min k (min READ_BUFFER (length rest)) in
           if bytes_read = 0 then (Ok (), sent)
           else if gone (length sent) then (Ok (), sent)
           else read_file_loop os_read gone (drop bytes_read rest) (sent @ [take bytes_read rest])))"
  by pat_completeness auto
termination
  by (relation "measure (\<lambda>(os_read, gone, rest, sent). length rest)") (auto simp: READ_BUFFER_def)

declare read_file_loop.simps [simp del]

definition read_file_to_sender ::
  "(bytes \<Rightarrow> nat res) \<Rightarrow> (nat \<Rightarrow> bool) \<Rightarrow> bytes option \<Rightarrow> unit res \<times> bytes list" where
  "read_file_to_sender os_read gone file =
     (case file of
        None \<Rightarrow> (Err (Lib ''open''), [])
      | Some content \<Rightarrow> read_file_loop os_read gone content [])"

fun write_file_loop :: "(nat \<Rightarrow> bool) \<Rightarrow> nat \<Rightarrow> bytes list \<Rightarrow> bytes \<Rightarrow> unit res \<times> bytes" where
  "write_file_loop write_fails n [] content = (Ok (), content)"
| "write_file_loop write_fails n (chunk # chunks) content =
     (if write_fails n then (Err (Lib ''write_all''), content)
      else write_file_loop write_fails (Suc n) chunks (content @ chunk))"

definition write_file_from_receiver ::
  "bool \<Rightarrow> (nat \<Rightarrow> bool) \<Rightarrow> bytes list \<Rightarrow> unit res \<times> bytes option" where
  "write_file_from_receiver can_create write_fails chunks =
     (if \<not> can_create then (Err (Lib ''create''), None)
      else (case write_file_loop write_fails 0 chunks [] of (r, content) \<Rightarrow> (r, Some content)))"

section \<open>The sending handler\<close>

definition offered_files :: "file_dto list" where
  "offered_files = [test_file 100]"

text \<open>
  The task that answers PIN prompts has three PINs; at a fourth prompt it panics and is gone. The
  file is sent whatever was selected. \<open>chunks\<close> is what \<open>read_file_to_sender\<close> has put into the channel.
\<close>

definition send_handler_config ::
  "('sk, 'vk, 'rk) crypto_lib \<Rightarrow> bytes \<Rightarrow> (nat \<Rightarrow> bytes) \<Rightarrow> bytes list \<Rightarrow> ('sk, 'vk, 'rk) send_config" where
  "send_handler_config L os_rng rng chunks =
     \<lparr> sc_opened = True, sc_signing_key = generate_key L os_rng, sc_expecting_public_key = None,
       sc_pin = Some \<lparr> pin = ''456'', max_tries = 3 \<rparr>, sc_files = offered_files, sc_rng = rng,
       sc_pin_answers = [Some ''1'', Some ''2'', Some ''123''], sc_pair_reply = PairReply False,
       sc_selection_listener = True,
       sc_sending = [\<lparr> rf_file_id = file_dto_id (hd offered_files), rf_binary = chunks \<rparr>] \<rparr>"

text \<open>A failed session is an \<open>expect\<close> in a spawned task: the handler logs it and returns.\<close>

definition log_result :: "unit peer_io \<Rightarrow> unit peer_io" where
  "log_result session w =
     (case session w of
        (Returns r, w') \<Rightarrow> (Returns (Ok ()), w')
      | (Waits, w') \<Rightarrow> (Waits, w'))"

definition send_handler ::
  "('sk, 'vk, 'rk) crypto_lib \<Rightarrow> zlib_lib \<Rightarrow> rtc_codec \<Rightarrow> peer_lib \<Rightarrow> bool \<Rightarrow> select_branch \<Rightarrow> string \<Rightarrow>
     bool Signaling_Client.listener_event list \<Rightarrow> bool Signaling_Client.listener_event list \<Rightarrow> bytes \<Rightarrow> (nat \<Rightarrow> bytes) \<Rightarrow>
     (bytes \<Rightarrow> nat res) \<Rightarrow> (nat \<Rightarrow> bool) \<Rightarrow> bytes option \<Rightarrow> string list \<Rightarrow> client_info \<Rightarrow> unit peer_io" where
  "send_handler L Z C P writer_gone branch session_id early late os_rng rng os_read gone file stun_servers peer =
     log_result (offer_session L Z C P
       \<lparr> se_stun_servers = stun_servers, se_writer_gone = writer_gone, se_branch = branch \<rparr>
       (ci_id peer) session_id early late
       (send_handler_config L os_rng rng (snd (read_file_to_sender os_read gone file))))"

section \<open>The receiving handler\<close>

definition receive_handler_config ::
  "('sk, 'vk, 'rk) crypto_lib \<Rightarrow> bytes \<Rightarrow> (nat \<Rightarrow> bytes) \<Rightarrow> (nat \<Rightarrow> string) \<Rightarrow> ('sk, 'vk, 'rk) receive_config" where
  "receive_handler_config L os_rng rng new_v4 =
     \<lparr> rc_opened = True, rc_signing_key = generate_key L os_rng, rc_expecting_public_key = None,
       rc_pin = Some \<lparr> pin = ''123'', max_tries = 3 \<rparr>, rc_rng = rng,
       rc_pin_answers = [Some ''1'', Some ''2'', Some ''456''], rc_files_listener = True,
       rc_choose = (\<lambda>files. SelectedFiles (map file_dto_id files)), rc_new_v4 = new_v4 \<rparr>"

definition receive_handler ::
  "('sk, 'vk, 'rk) crypto_lib \<Rightarrow> zlib_lib \<Rightarrow> rtc_codec \<Rightarrow> peer_lib \<Rightarrow> bool \<Rightarrow> select_branch \<Rightarrow> string list \<Rightarrow>
     bytes \<Rightarrow> (nat \<Rightarrow> bytes) \<Rightarrow> (nat \<Rightarrow> string) \<Rightarrow> string list \<Rightarrow> ws_server_sdp_message \<Rightarrow> unit peer_io" where
  "receive_handler L Z C P writer_gone branch opened_labels os_rng rng new_v4 stun_servers offer =
     log_result (accept_session L Z C P
       \<lparr> se_stun_servers = stun_servers, se_writer_gone = writer_gone, se_branch = branch \<rparr>
       offer opened_labels (receive_handler_config L os_rng rng new_v4))"

definition file_path :: "string \<Rightarrow> string" where
  "file_path name = ''/Users/user/Downloads/test/'' @ name"

text \<open>
  The task that stores files: the responses it sends and the files on disk. An \<open>unwrap\<close> or
  \<open>expect\<close> that fails ends the task, and no further response is sent.
\<close>

fun store_files ::
  "(string \<Rightarrow> bool) \<Rightarrow> (string \<Rightarrow> nat \<Rightarrow> bool) \<Rightarrow> file_dto list \<Rightarrow> (string \<times> bytes list) list \<Rightarrow>
     (string \<rightharpoonup> bytes) \<Rightarrow> rtc_send_file_response list \<times> (string \<rightharpoonup> bytes)" where
  "store_files can_create write_fails files [] disk = ([], disk)"
| "store_files can_create write_fails files ((file_id, chunks) # rest) disk =
     (case find (\<lambda>f. file_dto_id f = file_id) files of
        None \<Rightarrow> ([], disk)
      | Some dto \<Rightarrow>
          (let path = file_path (file_name dto) in
           case write_file_from_receiver (can_create path) (write_fails path) chunks of
             (r, None) \<Rightarrow> ([], disk)
           | (Ok u, Some content) \<Rightarrow>
               (let (responses, disk') = store_files can_create write_fails files rest (disk(path \<mapsto> content))
                in (\<lparr> fr_id = file_id, fr_success = True, fr_error = None \<rparr> # responses, disk'))
           | (r, Some content) \<Rightarrow> ([], disk(path \<mapsto> content))))"

section \<open>The program\<close>

definition test_client_info :: client_info_without_id where
  "test_client_info =
     \<lparr> cw_alias = ''test'', cw_version = ''2.3'', cw_device_model = Some ''test'',
       cw_device_type = Some Desktop, cw_token = ''test'' \<rparr>"

definition STUN_SERVERS :: "string list" where
  "STUN_SERVERS = [''stun:stun.l.google.com:19302'']"

datatype handler_call =
    CallSend "string list" client_info
  | CallReceive "string list" ws_server_sdp_message

text \<open>
  The loop over the messages of the signaling connection, with the handlers it calls. \<open>returns\<close>
  says whether a handler comes back; one that waits for ever is the last. \<open>closed\<close> says whether the
  connection ends after the messages or stays open. A loop that returns drops its receiver.
\<close>

fun webrtc_loop ::
  "(handler_call \<Rightarrow> bool) \<Rightarrow> bool \<Rightarrow> ws_server_message list \<Rightarrow> handler_call list \<times> unit progress" where
  "webrtc_loop returns closed [] = ([], if closed then Returns (Ok ()) else Waits)"
| "webrtc_loop returns closed (message # rest) =
     (case message of
        Join peer \<Rightarrow>
          ([CallSend STUN_SERVERS peer],
           if returns (CallSend STUN_SERVERS peer) then Returns (Ok ()) else Waits)
      | Offer offer \<Rightarrow>
          (if returns (CallReceive STUN_SERVERS offer) then
             (let (calls, r) = webrtc_loop returns closed rest in (CallReceive STUN_SERVERS offer # calls, r))
           else ([CallReceive STUN_SERVERS offer], Waits))
      | _ \<Rightarrow> webrtc_loop returns closed rest)"

definition webrtc_test ::
  "('sk, 'vk, 'rk) crypto_lib \<Rightarrow> (client_info_without_id \<Rightarrow> string option) \<Rightarrow>
     (string \<Rightarrow> ws_server_message option) \<Rightarrow> (string \<Rightarrow> ws_socket option) \<Rightarrow>
     (handler_call \<Rightarrow> bool) \<Rightarrow> handler_call list \<times> unit progress" where
  "webrtc_test L to_json from_json connect_async returns =
     (let uri = ''wss://public.localsend.org/v1/ws'' in
      case signaling_connect L to_json from_json connect_async uri test_client_info of
        None \<Rightarrow> ([], Waits)
      | Some (Err e) \<Rightarrow> ([], Returns (Err e))
      | Some (Panic p) \<Rightarrow> ([], Returns (Panic p))
      | Some (Ok client) \<Rightarrow>
          (let socket = the (connect_async (signaling_uri L (the (to_json test_client_info)) uri))
           in webrtc_loop returns (ws_closed socket) (reader_messages from_json True (ws_frames socket))))"

text \<open>
  \<open>main\<close>: the HTTP test starts only after the signaling test has returned without an error; its
  client ends first, since the server sleeps. The result of the client is dropped. \<open>http\<close> is
  whether the client comes back.
\<close>

definition main_program :: "handler_call list \<times> unit progress \<Rightarrow> bool \<Rightarrow> unit progress" where
  "main_program signaling http =
     (case snd signaling of
        Returns (Ok u) \<Rightarrow> if http then Returns (Ok ()) else Waits
      | r \<Rightarrow> r)"

section \<open>Specification vocabulary\<close>

text \<open>Reading never fails and returns no byte only at the end of the file.\<close>

definition reads_all :: "(bytes \<Rightarrow> nat res) \<Rightarrow> bool" where
  "reads_all os_read \<longleftrightarrow> (\<forall>rest. \<exists>n. os_read rest = Ok n \<and> (rest \<noteq> [] \<longrightarrow> 0 < n))"

text \<open>What the loop has to do, message by message: offers up to the first peer that joins.\<close>

fun is_join :: "ws_server_message \<Rightarrow> bool" where
  "is_join (Join peer) = True"
| "is_join _ = False"

fun handled :: "ws_server_message \<Rightarrow> handler_call option" where
  "handled (Join peer) = Some (CallSend STUN_SERVERS peer)"
| "handled (Offer offer) = Some (CallReceive STUN_SERVERS offer)"
| "handled _ = None"

section \<open>Facts\<close>

lemma read_file_loop_copies:
  assumes "reads_all os_read"
  shows "\<exists>chunks. read_file_loop os_read (\<lambda>_. False) rest sent = (Ok (), sent @ chunks) \<and> concat chunks = rest \<and>
     list_all (\<lambda>c. c \<noteq> [] \<and> length c \<le> READ_BUFFER) chunks"
proof (induction "length rest" arbitrary: rest sent rule: less_induct)
  case less
  obtain k where k: "os_read rest = Ok k" "rest \<noteq> [] \<Longrightarrow> 0 < k" using assms unfolding reads_all_def by blast
  let ?n = "min k (min READ_BUFFER (length rest))"
  show ?case
  proof (cases "rest = []")
    case True
    with k show ?thesis by (auto simp: read_file_loop.simps)
  next
    case False
    with k have n: "0 < ?n" "?n \<le> length rest" "length (take ?n rest) = ?n" by (auto simp: READ_BUFFER_def)
    then have "length (drop ?n rest) < length rest" by auto
    from less [OF this, of "sent @ [take ?n rest]"] obtain chunks where
      "read_file_loop os_read (\<lambda>_. False) (drop ?n rest) (sent @ [take ?n rest]) = (Ok (), sent @ take ?n rest # chunks)"
      "concat chunks = drop ?n rest" "list_all (\<lambda>c. c \<noteq> [] \<and> length c \<le> READ_BUFFER) chunks" by auto
    with k(1) n False show ?thesis
      by (subst read_file_loop.simps) (intro exI [of _ "take ?n rest # chunks"], auto simp: Let_def)
  qed
qed

lemma read_file_to_sender_copies:
  assumes "reads_all os_read"
  shows "fst (read_file_to_sender os_read (\<lambda>_. False) (Some content)) = Ok ()"
    and "concat (snd (read_file_to_sender os_read (\<lambda>_. False) (Some content))) = content"
  using read_file_loop_copies [OF assms, of content "[]"] by (auto simp: read_file_to_sender_def)

lemma write_file_loop_ok: "(\<And>n. \<not> write_fails n) \<Longrightarrow> write_file_loop write_fails n chunks content = (Ok (), content @ concat chunks)"
  by (induction chunks arbitrary: n content) simp_all

lemma handlers_match:
  assumes "validate_nonce (generate_nonce rng_s)" "validate_nonce (generate_nonce rng_r)"
    and "generate_token_nonce L (generate_key L seed_s) (generate_nonce rng_s @ generate_nonce rng_r) = Ok ts"
    and "generate_token_nonce L (generate_key L seed_r) (generate_nonce rng_s @ generate_nonce rng_r) = Ok tr"
  shows "peers_match L (send_handler_config L seed_s rng_s chunks) (receive_handler_config L seed_r rng_r new_v4)
     ts tr [''1'', ''2''] [''1'', ''2'']"
  using assms
  by (simp add: peers_match_def send_handler_config_def receive_handler_config_def accepts_key_def guessed_def)

text \<open>The second and third request of the HTTP client at the server of the crate.\<close>

lemma test_url_paths:
  "url_path (register_url Https ''localhost'' 53317) = ''/api/localsend/v3/register''"
  "url_path (prepare_upload_url Https ''localhost'' 53317) = ''/api/localsend/v3/prepare-upload''"
proof -
  let ?a = "''localhost:'' @ format_radix 10 (unat (53317 :: u16))"
  have skip: "dropWhile (\<lambda>c. c \<noteq> CHR ''/'') (?a @ rest) = dropWhile (\<lambda>c. c \<noteq> CHR ''/'') rest" for rest
    using format_radix_no_slash [of 10 "unat (53317 :: u16)"] by (intro dropWhile_append2) auto
  have "url_path (base_url Https ''localhost'' 53317 @ path) = ''/api/localsend/v3'' @ path" for path
    using skip [of "''/api/localsend/v3'' @ path"] by (simp add: url_path_def base_url_def BASE_PATH_def)
  then show "url_path (register_url Https ''localhost'' 53317) = ''/api/localsend/v3/register''"
    "url_path (prepare_upload_url Https ''localhost'' 53317) = ''/api/localsend/v3/prepare-upload''"
    by (simp_all add: register_url_def prepare_upload_url_def)
qed

lemma register_answered:
  assumes "json_text to_text of_text" "he_json E = serde_json_lib to_text of_text display"
    and "public_key_from_cert_der (he_x509 E) der = Ok k" "verify_cert_from_der (he_x509 E) der (Some k) = Ok ()"
  shows "\<exists>body. client_register E (to_server E rng info address (Some (Some der))) Https ''localhost'' 53317 dto s =
     (Inr \<lparr> rres_public_key = Some k, rres_body = body \<rparr>, s)"
proof -
  note read = json_text.of_bytes(1) [OF assms(1) v_register_dto.serde_value_axioms]
    json_text.of_bytes(1) [OF assms(1) v_register_response.serde_value_axioms]
  show ?thesis
    using assms(3,4) read
    by (simp add: assms(2) client_register_def to_server_def serve_request_def handle_request_def handle_request_inner_def
        test_url_paths v3_register_def collect_to_json_def serde_json_lib_def json_bytes_def Let_def
        verify_cert_from_res_def response_json_def)
qed

lemma prepare_upload_refused:
  assumes "of_text [] = None" "he_json E = serde_json_lib to_text of_text display"
    and "verify_cert_from_der (he_x509 E) der (Some k) = Ok ()"
  shows "client_prepare_upload E (to_server E rng info address (Some (Some der))) Https ''localhost'' 53317 (Some k) dto s =
     (Inl (StatusCodeError 404 None), s)"
  using assms
  by (simp add: client_prepare_upload_def to_server_def serve_request_def handle_request_def handle_request_inner_def
      test_url_paths serde_json_lib_def Let_def verify_cert_from_res_def response_new_def fail_status_def
      status_code_error_from_res_def of_json_bytes_def bytes_string_def)

section \<open>Properties\<close>

text \<open>
  C33: the two handlers of the demonstration against each other: after two wrong PINs on either side
  both tasks succeed, and the file the receiver's handler writes to disk holds exactly the bytes of
  the file the sender's handler reads, however the operating system splits the reads and although
  the chunks change size on the way. The responses the receiving task consumed are the ones the
  storing task produces.
\<close>

theorem demonstration_copies_file:
  assumes "codec_ok C" "base64_engine (base64_encode L) (base64_decode L)" "ed25519_correct L"
    and "validate_nonce (generate_nonce rng_s)" "validate_nonce (generate_nonce rng_r)"
    and "generate_token_nonce L (generate_key L seed_s) (generate_nonce rng_s @ generate_nonce rng_r) = Ok ts"
    and "generate_token_nonce L (generate_key L seed_r) (generate_nonce rng_s @ generate_nonce rng_r) = Ok tr"
    and "reads_all os_read" "path = file_path ''test.mp4''" "can_create path" "\<And>n. \<not> write_fails path n"
    and "sc = send_handler_config L seed_s rng_s (snd (read_file_to_sender os_read (\<lambda>_. False) (Some content)))"
    and "rc = receive_handler_config L seed_r rng_r new_v4" "T = file_tokens_of new_v4 [''test-123-id'']"
    and "fault_free ws" "fault_free wr" "received wr = []"
    and "file_results wr = [\<lparr> fr_id = ''test-123-id'', fr_success = True, fr_error = None \<rparr>]"
    and "inbox ws = receiver_transcript L C sc rc tr [''1'', ''2''] [''1'', ''2''] T"
    and "inbox wr = sender_transcript L C sc rc ts [''1'', ''2''] [''1'', ''2''] T"
  shows "fst (send_task L C sc ws) = Ok () \<and> fst (receive_task L C rc wr) = Ok () \<and>
     outbox (snd (send_task L C sc ws)) = outbox ws @ inbox wr \<and>
     outbox (snd (receive_task L C rc wr)) = outbox wr @ inbox ws \<and>
     store_files can_create write_fails offered_files (received (snd (receive_task L C rc wr))) disk =
       (file_results wr, disk(path \<mapsto> content))"
proof -
  have m: "peers_match L sc rc ts tr [''1'', ''2''] [''1'', ''2'']"
    unfolding assms(12,13) by (rule handlers_match [OF assms(4-7)])
  have choose: "rc_choose rc (sc_files sc) = SelectedFiles [''test-123-id'']" "T = file_tokens_of (rc_new_v4 rc) [''test-123-id'']"
    using assms(12-14) by (simp_all add: send_handler_config_def receive_handler_config_def offered_files_def test_file_def)
  have f: "sc_sending sc \<noteq> []" "map stored_file (sc_sending sc) = [(''test-123-id'', chunks_of CHUNK_SIZE content)]"
    "list_all (transferable T (sc_files sc)) (sc_sending sc)"
    "list_all (\<lambda>f. map_of T (rf_file_id f) \<noteq> None) (sc_sending sc)" "length (sc_sending sc) = 1"
    using assms(12,14) read_file_to_sender_copies(2) [OF assms(8)]
    by (simp_all add: send_handler_config_def offered_files_def test_file_def stored_file_def transferable_def
        file_tokens_of_def)
  have "distinct (map fst T)" unfolding assms(14) by (rule distinct_file_tokens)
  note s = runs_outcome [OF runs_send_task [OF assms(1-3) m this f(4,1)] assms(15,19)]
  have "\<exists>w'. receive_task L C rc wr = (Ok (), w') \<and>
     outbox w' = outbox wr @ receiver_transcript L C sc rc tr [''1'', ''2''] [''1'', ''2''] T \<and> inbox w' = [] \<and>
     received w' = received wr @ map stored_file (sc_sending sc) \<and>
     statuses w' = statuses wr @ prompts (rc_pin rc) 1 @ prompts (sc_pin sc) (Suc (length [''1'', ''2''])) @ [Connected]"
    by (rule receive_task_run [OF assms(1-3) m choose f(3,1) assms(16) _ _ assms(20)]) (simp_all add: f(5) assms(18))
  then obtain w' where r: "receive_task L C rc wr = (Ok (), w')" "received w' = [(''test-123-id'', chunks_of CHUNK_SIZE content)]"
    "outbox w' = outbox wr @ inbox ws"
    using assms(17,19) f(2) by auto
  have "store_files can_create write_fails offered_files (received w') disk = (file_results wr, disk(path \<mapsto> content))"
    using assms(9-11,18)
    by (simp add: r(2) offered_files_def test_file_def write_file_from_receiver_def write_file_loop_ok concat_chunks_of)
  then show ?thesis using r s(1,2) assms(20) by simp
qed

lemma demo_handlers:
  "generate_token_nonce demo_crypto (generate_key demo_crypto [1]) (generate_nonce (demo_rng 7) @ generate_nonce (demo_rng 8)) =
     Ok demo_sender_token"
  "generate_token_nonce demo_crypto (generate_key demo_crypto [2]) (generate_nonce (demo_rng 7) @ generate_nonce (demo_rng 8)) =
     Ok demo_receiver_token"
  "validate_nonce (generate_nonce (demo_rng b))" "reads_all (\<lambda>rest. Ok 2)"
  using demo_tokens
  by (simp_all add: demo_sender_def demo_receiver_def generate_key_def demo_crypto_def validate_nonce_def
      generate_nonce_def demo_rng_def reads_all_def)

theorem demonstration_copies_file_witness:
  "\<exists>chunks ws wr. chunks = [[1, 2], [3]] \<and>
     fst (send_task demo_crypto plain_codec (send_handler_config demo_crypto [1] (demo_rng 7) chunks) ws) = Ok () \<and>
     fst (receive_task demo_crypto plain_codec (receive_handler_config demo_crypto [2] (demo_rng 8) (\<lambda>i. ''token'')) wr) = Ok () \<and>
     snd (store_files (\<lambda>_. True) (\<lambda>_ _. False) offered_files (received (snd (receive_task demo_crypto plain_codec
        (receive_handler_config demo_crypto [2] (demo_rng 8) (\<lambda>i. ''token'')) wr))) Map.empty) (file_path ''test.mp4'') =
       Some [1, 2, 3]"
proof -
  let ?chunks = "snd (read_file_to_sender (\<lambda>rest. Ok 2) (\<lambda>_. False) (Some [1, 2, 3]))"
  let ?sc = "send_handler_config demo_crypto [1] (demo_rng 7) ?chunks"
  let ?rc = "receive_handler_config demo_crypto [2] (demo_rng 8) (\<lambda>i. ''token'')"
  let ?T = "file_tokens_of (\<lambda>i. ''token'') [''test-123-id'']"
  let ?bad = "[''1'', ''2'']"
  let ?ws = "fresh_world (receiver_transcript demo_crypto plain_codec ?sc ?rc demo_receiver_token ?bad ?bad ?T) []"
  let ?wr = "fresh_world (sender_transcript demo_crypto plain_codec ?sc ?rc demo_sender_token ?bad ?bad ?T)
      [\<lparr> fr_id = ''test-123-id'', fr_success = True, fr_error = None \<rparr>]"
  have chunks: "?chunks = [[1, 2], [3]]" by code_simp
  have "fst (send_task demo_crypto plain_codec ?sc ?ws) = Ok () \<and> fst (receive_task demo_crypto plain_codec ?rc ?wr) = Ok () \<and>
     outbox (snd (send_task demo_crypto plain_codec ?sc ?ws)) = outbox ?ws @ inbox ?wr \<and>
     outbox (snd (receive_task demo_crypto plain_codec ?rc ?wr)) = outbox ?wr @ inbox ?ws \<and>
     store_files (\<lambda>_. True) (\<lambda>_ _. False) offered_files (received (snd (receive_task demo_crypto plain_codec ?rc ?wr))) Map.empty =
       (file_results ?wr, Map.empty(file_path ''test.mp4'' \<mapsto> [1, 2, 3]))"
    by (rule demonstration_copies_file [OF codec_ok_plain demo_base64 demo_ed25519 demo_handlers(3) demo_handlers(3)
          demo_handlers(1,2,4) refl])
      (simp_all add: fresh_world_def fault_free_def)
  then show ?thesis
    by (intro exI [of _ "[[1, 2], [3]]"] exI [of _ "?ws"] exI [of _ "?wr"]) (simp add: chunks)
qed

text \<open>
  The loop over the signaling messages, when every handler comes back: it receives every offer that
  arrives before the first peer joins, in order, then sends to that peer and stops; messages after
  it are not read. Without a peer that joins it serves every offer, as long as the connection lasts.
\<close>

theorem webrtc_loop_calls:
  "webrtc_loop (\<lambda>_. True) closed messages =
     (List.map_filter handled (takeWhile (\<lambda>m. \<not> is_join m) messages) @
      (case find is_join messages of None \<Rightarrow> [] | Some m \<Rightarrow> [the (handled m)]),
      if closed \<or> list_ex is_join messages then Returns (Ok ()) else Waits)"
  by (induction messages) (auto simp: map_filter_simps split: ws_server_message.splits)

text \<open>
  The loop never ends exactly when a handler waits for ever, which is then the last one called, or
  when no peer joins and the connection stays open.
\<close>

theorem webrtc_loop_waits_iff:
  "snd (webrtc_loop returns closed messages) = Waits \<longleftrightarrow>
     (\<exists>call \<in> set (fst (webrtc_loop returns closed messages)). \<not> returns call) \<or>
     (\<not> closed \<and> \<not> list_ex is_join messages)"
  by (induction messages) (auto simp: case_prod_beta split: ws_server_message.splits)

text \<open>
  The client of the demonstration against the server of the demonstration, over any JSON engine
  that reads back what it prints: the nonce exchange and the registration succeed, and the call of
  \<open>prepare_upload\<close> always fails with status 404, since the server has no such route in the
  protocol version the client uses. The server is left with the nonces of the exchange.
\<close>

theorem demonstration_client_refused:
  assumes "json_text to_text of_text" "of_text [] = None" "he_json E = serde_json_lib to_text of_text display"
    and "lru_ok (he_lru E) size_of capacity" "0 < capacity (lru_new (he_lru E) 200)"
    and "base64_engine (base64_encode (he_crypto E)) (base64_decode (he_crypto E))"
    and "validate_nonce (generate_nonce rng_c)"
    and "public_key_from_cert_der (he_x509 E) der = Ok k" "verify_cert_from_der (he_x509 E) der (Some k) = Ok ()"
    and "identity_from_pem (as_bytes cert @ as_bytes [CHR 0x0A] @ as_bytes private_key) = Some identity"
    and "build identity = Some client"
    and "server_test E tls_lib can_bind private_key cert = (N, started, lw)"
    and "i = client_identifier (he_x509 E) info"
  shows "started = Ok () \<and>
     client_test E identity_from_pem build private_key cert rng_c
       (\<lambda>c. to_server E rng_s info address (Some (Some der))) (lw_state lw) =
     (Inl (StatusCodeError 404 None),
      (lw_state lw)\<lparr> hs_received_nonce_map := lru_put (he_lru E) (lru_new (he_lru E) 200) i (generate_nonce rng_c),
                     hs_generated_nonce_map := lru_put (he_lru E) (lru_new (he_lru E) 200) i (generate_nonce rng_s) \<rparr>)"
proof -
  let ?post = "to_server E rng_s info address (Some (Some der))"
  have w: "started = Ok ()" "lw_state lw = http_state_new (he_lru E) server_test_info"
    using assms(12) by (auto simp: server_test_def start_with_port_def)
  let ?s1 = "(lw_state lw)\<lparr> hs_received_nonce_map := lru_put (he_lru E) (lru_new (he_lru E) 200) i (generate_nonce rng_c),
                     hs_generated_nonce_map := lru_put (he_lru E) (lru_new (he_lru E) 200) i (generate_nonce rng_s) \<rparr>"
  have J: "nonce_json_ok (he_json E)" unfolding assms(3) by (rule json_text.serde_json_lib_contract [OF assms(1)])
  have key: "to_identifier (he_x509 E)
      \<lparr> cr_status = 200, cr_body = None, cr_remote_addr = Some address, cr_tls_info = Some (Some der) \<rparr> (Https = Https) None = Ok k"
    using assms(8,9) by (simp add: to_identifier_def verify_cert_from_res_def)
  from nonce_answered [where ip = "''localhost''" and port = 53317 and s = "lw_state lw", OF assms(6) J _ _ assms(7) key assms(13)] obtain res where
    post: "?post (target_url_to_string \<lparr> tu_version = ApiV3, tu_protocol = Https, tu_host = ''localhost'', tu_port = 53317, tu_path = ''/nonce'' \<rparr>)
        (as_bytes (ser_nonce_request (he_json E) \<lparr> req_nonce = encode (he_crypto E) (generate_nonce rng_c) \<rparr>)) (lw_state lw) =
      (Some res, ?s1)"
    and r: "nonce_from_response E Https res = Inr (k, generate_nonce rng_s, encode (he_crypto E) (generate_nonce rng_s))"
    by (auto simp: w(2) http_state_new_def)
  let ?c = "http_client_new (he_lru E)"
  have "0 < capacity (hc_received_nonce_map ?c)" "0 < capacity (hc_generated_nonce_map ?c)"
    using assms(5) by (simp_all add: http_client_new_def)
  from client_nonce_stores [where post = ?post and rng = rng_c and d = True, OF assms(4) this post r]
  obtain c' where nonce: "client_nonce E rng_c True ?post Https ''localhost'' 53317 ?c (lw_state lw) =
      (Inr (encode (he_crypto E) (generate_nonce rng_s)), c', ?s1)" by blast
  from register_answered [OF assms(1,3,8,9)] obtain body where
    "client_register E ?post Https ''localhost'' 53317 test_register_dto ?s1 =
      (Inr \<lparr> rres_public_key = Some k, rres_body = body \<rparr>, ?s1)" by blast
  moreover have "client_prepare_upload E ?post Https ''localhost'' 53317 (Some k) test_prepare_upload_dto ?s1 =
      (Inl (StatusCodeError 404 None), ?s1)" by (rule prepare_upload_refused [OF assms(2,3,9)])
  ultimately show ?thesis
    using w(1) assms(10,11) nonce
    by (simp add: client_test_def http_client_try_new_def)
qed

definition demo_json_env :: "(bytes, bytes, bytes, bytes, bytes, bytes, list_cache) http_env" where
  "demo_json_env = Http_Server.demo_env\<lparr> he_json := serde_json_lib print_json parse_json (\<lambda>n. []) \<rparr>"

theorem demonstration_client_refused_witness:
  "\<exists>s s'. client_test demo_json_env Some Some ''key'' ''cert'' (\<lambda>n. replicate n 1)
       (\<lambda>c. to_server demo_json_env (\<lambda>n. replicate n 2) \<lparr> rci_ip = V4 127 0 0 1, rci_cert = Some [5] \<rparr>
          (V4 127 0 0 1) (Some (Some [6]))) s = (Inl (StatusCodeError 404 None), s') \<and>
     fst (lc_get (hs_received_nonce_map s') (bytes_string [5])) = Some (replicate 32 1)"
proof -
  let ?tls = "ln_tls_lib demo_listener"
  let ?info = "\<lparr> rci_ip = V4 127 0 0 1, rci_cert = Some [5] \<rparr>"
  let ?post = "\<lambda>c :: bytes. to_server demo_json_env (\<lambda>n. replicate n 2) ?info (V4 127 0 0 1) (Some (Some [6]))"
  obtain N started lw where srv: "server_test demo_json_env ?tls (\<lambda>f. True) ''key'' ''cert'' = (N, started, lw)"
    by (metis prod_cases3)
  have K: "he_json demo_json_env = serde_json_lib print_json parse_json (\<lambda>n. [])"
    "lru_ok (he_lru demo_json_env) (\<lambda>(n, m). length m) fst" "0 < fst (lru_new (he_lru demo_json_env) 200)"
    "base64_engine (base64_encode (he_crypto demo_json_env)) (base64_decode (he_crypto demo_json_env))"
    by (simp_all add: demo_json_env_def Http_Server.demo_env_def lru_ok_list demo_base64)
  have i: "public_key_from_cert_der (he_x509 demo_json_env) [6] = Ok (bytes_string [6])"
    "verify_cert_from_der (he_x509 demo_json_env) [6] (Some (bytes_string [6])) = Ok ()"
    "bytes_string [5] = client_identifier (he_x509 demo_json_env) ?info"
    by code_simp+
  have v: "validate_nonce (generate_nonce (\<lambda>n. replicate n 1))" by (simp add: validate_nonce_def generate_nonce_def)
  have "parse_json [] = None" by code_simp
  from demonstration_client_refused [where rng_s = "\<lambda>n. replicate n 2" and address = "V4 127 0 0 1" and identity_from_pem = Some
      and build = Some, OF rfc8259.json_text_axioms this K v i(1,2) refl refl srv i(3)]
  show ?thesis
    by - (rule exI [of _ "lw_state lw"], simp add: demo_json_env_def Http_Server.demo_env_def generate_nonce_def list_lru_def)
qed

end
