(* ===== verification/Spec2Isabelle.thy ===== *)
theory Spec2Isabelle
  imports Crypto Wire Ip_Groups Http_Client Http_Listener Signaling_Races Server_Start Peer_Connection App_Bridge
    Bridge_Codec Dart_Values Bridge_Dispatch Bridge_Handles Bridge_Locks Demo_Program
begin

text \<open>
  A verification library for the Rust part of LocalSend: the crate \<open>core\<close> (cryptography, HTTP
  and WebRTC protocols), the signaling server \<open>server\<close>, and the bridge \<open>app/rust\<close> between the
  crate and the application.

  \<^bold>\<open>The program.\<close> Two devices find each other over HTTP on the local network or through the
  signaling server, which keeps one room per client address (\<open>/64\<close> for IPv6) and relays
  descriptions, offers and answers between the members of a room. Over the negotiated data channel
  the sender's task (\<open>send_offer\<close>) and the receiver's task (\<open>accept_offer\<close>) agree on nonces,
  prove their keys with tokens, challenge each other for PINs, agree on the files and transfer them
  in chunks. HTTP clients exchange nonces with the server first and are identified by the key in
  their TLS certificate.

  \<^bold>\<open>Theories.\<close>
  \<^item> \<open>Prelude\<close>: outcomes of calls (value, error, panic), strings and bytes, 64-bit arithmetic,
    association lists, and the locale \<open>event_system\<close> (an invariant of one step holds after every
    schedule).
  \<^item> \<open>Rfc4648\<close>: the locale \<open>base64_engine\<close> of what the crate relies on in its base64
    library, interpreted on a definition of base64url from the RFC.
  \<^item> \<open>Rfc8259\<close>: JSON values, the locale \<open>json_text\<close> of what the crate relies on in serde_json, and a
    printer and parser from the RFC that satisfy it.
  \<^item> \<open>Crypto\<close>: \<open>core/src/crypto\<close> and \<open>core/src/util\<close>. Tokens with nonces and time
    stamps, certificates.
  \<^item> \<open>Wire\<close>: \<open>core/src/model\<close>, the message types of \<open>core/src/webrtc/signaling.rs\<close>,
    \<open>core/src/http/dto.rs\<close> and \<open>core/src/http/state.rs\<close>.
  \<^item> \<open>Ip_Groups\<close>: \<open>server/src/util/ip.rs\<close> and the choice of the client address in
    \<open>server/src/controller/ws_controller.rs\<close>.
  \<^item> \<open>Signaling_Server\<close>: the signaling server. \<open>exec\<close> is one step of one connection
    task or of the hourly job, \<open>reachable\<close> every interleaving of them. \<open>Server_Start\<close>:
    \<open>server/src/main.rs\<close>, \<open>server/src/config/init.rs\<close> and the limits read from the environment.
  \<^item> \<open>Data_Channel\<close>: the task monad of the transfer (\<open>task_world\<close>: messages still to
    come, messages sent, statuses, stored files), chunking, session descriptions, and the locale
    \<open>io_frame\<close>, which \<open>handshake_frame\<close> and \<open>task_frame\<close> extend to the phases and tasks.
  \<^item> \<open>Rtc_Messages\<close>, \<open>Handshake\<close>, \<open>File_Transfer\<close>: the two transfer tasks of
    \<open>core/src/webrtc/webrtc.rs\<close>, phase by phase and as a whole. \<open>Transfer_Runs\<close>: complete runs of
    the two against each other; \<open>runs\<close> says what a part reads, writes and reports.
  \<^item> \<open>Signaling_Client\<close>: the client half of \<open>core/src/webrtc/signaling.rs\<close>. \<open>Signaling_Races\<close>:
    the server with channels of bounded capacity (\<open>exec_bounded\<close>), and server and client together.
  \<^item> \<open>Peer_Connection\<close>: \<open>send_offer\<close> and \<open>accept_offer\<close> around the tasks
    (\<open>offer_session\<close>, \<open>accept_session\<close> on \<open>peer_world\<close>), with weakest preconditions for
    their steps. A step returns or waits for ever (\<open>progress\<close>).
  \<^item> \<open>App_Bridge\<close>: \<open>app/rust/src/api\<close> and \<open>app/rust/src/util\<close>: starting the sessions, the two
    controllers, buffering. \<open>Bridge_Codec\<close>: the serialisation in \<open>app/rust/src/frb_generated.rs\<close>
    over the locale \<open>sse_codec\<close>, interpreted for every type. \<open>Dart_Values\<close>: the second codec there,
    over the locale \<open>dart_codec\<close>.
  \<^item> \<open>Bridge_Dispatch\<close>: the calls of the bridge, also in \<open>frb_generated.rs\<close>: the dispatcher and one
    definition per wire function, which decodes its arguments and yields a \<open>wire_task\<close> (object, lock,
    call) on the \<open>bridge_world\<close> of Rust objects. \<open>api_call\<close> says what the application can ask for.
    \<open>Bridge_Handles\<close>: the locale \<open>object_pool\<close> of the library's counted objects and what the calls do
    with handles. \<open>Bridge_Locks\<close>: calls that wait for the lock of their object (locale \<open>rw_lock\<close>),
    interleaved with the session, as the step relation \<open>lock_step\<close>.
  \<^item> \<open>Nonce_Cache\<close>, \<open>Http_Server\<close>, \<open>Http_Client\<close>: \<open>core/src/http\<close>, over the
    locale \<open>nonce_cache\<close> of a bounded map. \<open>Http_Listener\<close>: starting, accepting, TLS and stopping
    in \<open>core/src/http/server/mod.rs\<close> as the step function \<open>listener_step\<close>.
  \<^item> \<open>Serde_Json\<close>: the JSON value of every message type as the serde attributes fix it, over the
    locale \<open>serde_value\<close>, interpreted for every type, and the locale \<open>uuid_text\<close>.
    \<open>Protocol_Text\<close>: the codecs of the tasks, of HTTP and of signaling made of them.
  \<^item> \<open>Demo_Program\<close>: the binary \<open>core/src/main.rs\<close> on top of all of them, with its files on disk.

  \<^bold>\<open>Libraries as arguments.\<close> Code outside the repository is an argument of the definitions
  that use it: \<open>crypto_lib\<close> (base64, SHA-256, ed25519, RSA-PSS), \<open>x509_lib\<close>, \<open>rtc_codec\<close>
  and \<open>json_lib\<close> (serde_json), \<open>zlib_lib\<close>, \<open>lru_lib\<close>, \<open>peer_lib\<close> (webrtc), \<open>pool_lib\<close> (the objects
  of flutter_rust_bridge), the network of the HTTP client. What a theorem relies on is a named hypothesis (\<open>base64_engine\<close>, \<open>ed25519_correct\<close>,
  \<open>codec_ok\<close>, \<open>nonce_json_ok\<close>, \<open>lru_ok\<close>, \<open>json_text\<close>, \<open>uuid_text\<close>, \<open>object_pool\<close>, \<open>rw_lock\<close>), and its
  witness instantiates the library with a concrete one. \<open>codec_ok\<close> and \<open>nonce_json_ok\<close> are themselves proved of the message types over
  any engine that satisfies \<open>json_text\<close>.

  \<^bold>\<open>What is shown.\<close>
  \<^item> Tokens: acceptance is exact for generated tokens and binds key and nonce for all others; the
    age window of time-stamped tokens; the tokens on which verification panics.
  \<^item> Certificates: the exact condition of acceptance, for the TLS verifier, for pinned keys and for
    the name under which a client is filed.
  \<^item> Signaling server: limits, confinement of messages to rooms, authenticity of the named sender,
    agreement of registry and connections, refinement to sets of members, exact request limit,
    and executions that show a race and stale data; when the server comes up and with which limits.
  \<^item> Transfer: agreement on nonces, the exact outcome of a PIN check and its bound on guesses, what
    must have been received before either task is connected, chunking, which data a receiver stores
    for an arbitrary sender, and complete runs of both tasks against each other, with PINs or without.
  \<^item> Signaling client: which callback gets which answer; when connecting returns, panics or waits for
    ever; with the server's bounded channels, the schedules after which a connection or its client is
    blocked for ever.
  \<^item> Sessions: agreement on the two session descriptions, what the application is told at the end,
    which answer is awaited.
  \<^item> Bridge: buffering keeps the bytes and their order; decoding undoes encoding, encodings are
    prefix-free, truncated data panics, and vectors too long for their length field are lost; the two
    codecs distinguish the same values. Every call reaches the function it names with the arguments
    that were encoded; handles are neither lost nor leaked and always refer to an object; a returned
    handle reaches the returned object. Calls on a receiving controller never block each other; a
    stream of a sending controller that is listened to blocks all its other calls until the session
    ends.
  \<^item> HTTP: answers of every route, the two nonce maps as the record of latest exchanges, the
    agreement of client and server after an exchange, errors made of failed responses; when the
    server runs, by which key its TLS clients are known, and that stopping leaves open connections
    served.
  \<^item> Messages: what is written is read back over any JSON engine, in particular from a client's
    \<open>connect\<close> to the server's registry and back; maps that are read have one entry per key; unknown
    members are skipped; other spellings of a device type are refused.
  \<^item> Demonstration program: the file written is the file read, byte for byte; which handlers the
    signaling loop calls; where its HTTP client ends.

  \<^bold>\<open>Termination and bounds.\<close> Every definition is total. Fuel is used by the reference JSON parser only,
  where the length of the text is enough for every printed value. A loop over incoming
  messages or user answers ends with the list it is given, the PIN loop by the distance of its 8-bit
  counter to the limit, the chunk loop by the length of its buffer, the loop that reads a file by
  what is left of it.

  A wait that never ends is a value (\<open>Waits\<close>, or \<open>None\<close> for \<open>signaling_connect\<close>), never a missing case.

  \<^bold>\<open>Not modelled.\<close> The compile-time checks of \<open>frb_generated.rs\<close>, its decoders of owned objects,
  which no wire function uses, and the wasm copies of the functions that count references; the type
  mirrors of \<open>app/rust/src/api\<close>, which only instruct the code generator; log output, and waiting
  that only delays. The lock and the pool of the bridge library are used through their contracts.
\<close>

end
